(* ===== verification/Prelude.thy ===== *)
theory Prelude
  imports Main "HOL-Library.List_Lexorder" "HOL-Library.Char_ord"
    "HOL-Library.Product_Lexorder" "HOL-Library.Multiset" "HOL-Library.Word"
begin

text \<open>
  Shared vocabulary of the development: what the Rust sources use of the language and of its
  standard library, with the generic lemmas the component theories rest on.

  \<^item> A Rust \<open>String\<close> or \<open>str\<close> is an Isabelle \<open>string\<close> read as its UTF-8 bytes; \<open>Ord for str\<close>
    is bytewise lexicographic, which is the order of \<open>List_Lexorder\<close> over \<open>Char_ord\<close>.
  \<^item> \<open>Vec<T>\<close> and slices are lists; \<open>sort\<close> and \<open>sort_by\<close> are the stable \<open>sort_key\<close>; \<open>dedup\<close>
    removes runs of equal neighbours, which is \<open>remdups_adj\<close>.
  \<^item> \<open>binary_search_by\<close> and \<open>partition_point\<close> are the halving loop of the standard library
    (\<open>core::slice\<close>), written out with its \<open>base\<close> and \<open>size\<close> variables.
  \<^item> \<open>usize\<close> counters of collections held in memory are \<open>nat\<close>; hashes are \<open>64 word\<close>.
\<close>

named_theorems rust_std \<open>equations of the standard-library models\<close>
named_theorems table_simps \<open>laws of sorted tables searched by key\<close>

section \<open>Three-way comparison\<close>

datatype cmp_ordering = Less | Equal | Greater

definition cmp :: "'a::linorder \<Rightarrow> 'a \<Rightarrow> cmp_ordering" where
  "cmp a b = (if a < b then Less else if a = b then Equal else Greater)"

lemma cmp_simps [simp]:
  "cmp a b = Less \<longleftrightarrow> a < b"
  "cmp a b = Equal \<longleftrightarrow> a = b"
  "cmp a b = Greater \<longleftrightarrow> b < a"
  by (auto simp: cmp_def)

section \<open>Binary search\<close>

function bsearch_loop :: "('a \<Rightarrow> cmp_ordering) \<Rightarrow> 'a list \<Rightarrow> nat \<Rightarrow> nat \<Rightarrow> nat" where
  "bsearch_loop f xs sz base =
     (if 1 < sz
      then bsearch_loop f xs (sz - sz div 2)
             (if f (xs ! (base + sz div 2)) = Greater then base else base + sz div 2)
      else base)"
  by pat_completeness auto
termination
  by (relation "measure (\<lambda>(f, xs, sz, base). sz)") auto

declare bsearch_loop.simps [simp del]

definition binary_search_by :: "('a \<Rightarrow> cmp_ordering) \<Rightarrow> 'a list \<Rightarrow> nat + nat" where
  "binary_search_by f xs =
     (if xs = [] then Inl 0
      else let base = bsearch_loop f xs (length xs) 0
           in case f (xs ! base) of
                Equal \<Rightarrow> Inr base
              | Less \<Rightarrow> Inl (base + 1)
              | Greater \<Rightarrow> Inl base)"

definition binary_search :: "'a::linorder list \<Rightarrow> 'a \<Rightarrow> nat + nat" where
  "binary_search xs x = binary_search_by (\<lambda>y. cmp y x) xs"

definition partition_point :: "('a \<Rightarrow> bool) \<Rightarrow> 'a list \<Rightarrow> nat" where
  "partition_point p xs =
     (case binary_search_by (\<lambda>x. if p x then Less else Greater) xs of
        Inl i \<Rightarrow> i | Inr i \<Rightarrow> i)"

text \<open>
  The comparison \<open>f\<close> splits the slice when no element on the left of a non-\<open>Greater\<close> one is
  \<open>Greater\<close> and no element on the right of a non-\<open>Less\<close> one is \<open>Less\<close>.
\<close>

definition splits_slice :: "('a \<Rightarrow> cmp_ordering) \<Rightarrow> 'a list \<Rightarrow> bool" where
  "splits_slice f xs \<longleftrightarrow>
     (\<forall>j < length xs. \<forall>i \<le> j. (f (xs ! i) = Greater \<longrightarrow> f (xs ! j) = Greater) \<and>
        (f (xs ! j) = Less \<longrightarrow> f (xs ! i) = Less))"

lemma splits_sliceD:
  assumes "splits_slice f xs" "i \<le> j" "j < length xs"
  shows "f (xs ! i) = Greater \<Longrightarrow> f (xs ! j) = Greater"
    and "f (xs ! j) = Less \<Longrightarrow> f (xs ! i) = Less"
  using assms unfolding splits_slice_def by blast+

lemma bsearch_loop_range:
  "0 < sz \<Longrightarrow> base + sz \<le> length xs \<Longrightarrow> bsearch_loop f xs sz base < length xs"
proof (induction f xs sz base rule: bsearch_loop.induct)
  case (1 f xs sz base)
  show ?case
  proof (cases "1 < sz")
    case True
    let ?b = "if f (xs ! (base + sz div 2)) = Greater then base else base + sz div 2"
    have "bsearch_loop f xs (sz - sz div 2) ?b < length xs"
      by (rule "1.IH" [OF True]) (use True "1.prems" in auto)
    with True show ?thesis by (simp add: bsearch_loop.simps [of f xs sz base])
  next
    case False
    with "1.prems" show ?thesis by (simp add: bsearch_loop.simps [of f xs sz base])
  qed
qed

text \<open>The loop invariant: left of \<open>base\<close> nothing is \<open>Greater\<close>, from \<open>base + sz\<close> on all is.\<close>

definition bsearch_inv :: "('a \<Rightarrow> cmp_ordering) \<Rightarrow> 'a list \<Rightarrow> nat \<Rightarrow> nat \<Rightarrow> bool" where
  "bsearch_inv f xs sz base \<longleftrightarrow>
     0 < sz \<and> base + sz \<le> length xs \<and> (base = 0 \<or> f (xs ! base) \<noteq> Greater) \<and>
     (\<forall>k. base + sz \<le> k \<longrightarrow> k < length xs \<longrightarrow> f (xs ! k) = Greater)"

lemma bsearch_inv_step:
  assumes "splits_slice f xs" and inv: "bsearch_inv f xs sz base" and sz: "1 < sz"
  shows "bsearch_inv f xs (sz - sz div 2)
           (if f (xs ! (base + sz div 2)) = Greater then base else base + sz div 2)"
proof -
  let ?m = "base + sz div 2"
  have m: "?m < length xs" using inv sz by (auto simp: bsearch_inv_def)
  show ?thesis
  proof (cases "f (xs ! ?m) = Greater")
    case True
    have "f (xs ! k) = Greater" if "base + (sz - sz div 2) \<le> k" "k < length xs" for k
      by (rule splits_sliceD(1) [OF assms(1) _ that(2) True]) (use that in linarith)
    with True inv sz show ?thesis by (auto simp: bsearch_inv_def)
  next
    case False
    with inv sz m show ?thesis by (auto simp: bsearch_inv_def)
  qed
qed

lemma bsearch_loop_correct:
  assumes "splits_slice f xs" "bsearch_inv f xs sz base"
  shows "bsearch_inv f xs 1 (bsearch_loop f xs sz base)"
  using assms
proof (induction f xs sz base rule: bsearch_loop.induct)
  case (1 f xs sz base)
  show ?case
  proof (cases "1 < sz")
    case True
    with "1.IH" [OF True "1.prems"(1) bsearch_inv_step [OF "1.prems" True]] show ?thesis
      by (simp add: bsearch_loop.simps [of f xs sz base])
  next
    case False
    with "1.prems" have "sz = 1" by (auto simp: bsearch_inv_def)
    moreover have "bsearch_loop f xs 1 base = base" by (subst bsearch_loop.simps) simp
    ultimately show ?thesis using "1.prems" by simp
  qed
qed

lemma bsearch_base:
  assumes "splits_slice f xs" "xs \<noteq> []"
  shows "bsearch_inv f xs 1 (bsearch_loop f xs (length xs) 0)"
  by (rule bsearch_loop_correct [OF assms(1)]) (use assms(2) in \<open>simp add: bsearch_inv_def\<close>)

lemma binary_search_by_Inr:
  assumes "binary_search_by f xs = Inr i"
  shows "i < length xs \<and> f (xs ! i) = Equal"
  using assms bsearch_loop_range [of "length xs" 0 xs f]
  by (auto simp: binary_search_by_def Let_def split: if_splits cmp_ordering.splits)

lemma binary_search_by_Inl:
  assumes s: "splits_slice f xs" and r: "binary_search_by f xs = Inl i"
  shows "i \<le> length xs \<and> (\<forall>k < i. f (xs ! k) = Less) \<and>
         (\<forall>k. i \<le> k \<longrightarrow> k < length xs \<longrightarrow> f (xs ! k) = Greater)"
proof (cases "xs = []")
  case True
  with r show ?thesis by (simp add: binary_search_by_def)
next
  case False
  let ?b = "bsearch_loop f xs (length xs) 0"
  have inv: "bsearch_inv f xs 1 ?b" by (rule bsearch_base [OF s False])
  then have b: "?b < length xs" and right: "\<And>k. ?b < k \<Longrightarrow> k < length xs \<Longrightarrow> f (xs ! k) = Greater"
    and left: "?b = 0 \<or> f (xs ! ?b) \<noteq> Greater"
    by (auto simp: bsearch_inv_def)
  show ?thesis
  proof (cases "f (xs ! ?b)")
    case Less
    with r False have i: "i = ?b + 1" by (simp add: binary_search_by_def Let_def)
    have "f (xs ! k) = Less" if "k < i" for k
      by (rule splits_sliceD(2) [OF s _ b Less]) (use that i in simp)
    with i b right show ?thesis by auto
  next
    case Equal
    with r False show ?thesis by (simp add: binary_search_by_def Let_def)
  next
    case Greater
    with r False left have "i = ?b" "?b = 0" by (auto simp: binary_search_by_def Let_def)
    with right Greater show ?thesis by (metis le_zero_eq linorder_not_le not_less_zero zero_le)
  qed
qed

lemma splits_slice_cmp:
  fixes key :: "'a \<Rightarrow> 'k::linorder"
  assumes "sorted (map key xs)"
  shows "splits_slice (\<lambda>y. cmp (key y) k) xs"
  unfolding splits_slice_def
proof (intro allI impI)
  fix i j assume "j < length xs" "i \<le> j"
  then have "key (xs ! i) \<le> key (xs ! j)" using assms by (simp add: sorted_iff_nth_mono)
  then show "(cmp (key (xs ! i)) k = Greater \<longrightarrow> cmp (key (xs ! j)) k = Greater) \<and>
    (cmp (key (xs ! j)) k = Less \<longrightarrow> cmp (key (xs ! i)) k = Less)" by auto
qed

lemma partition_point_spec:
  assumes "\<And>i j. i \<le> j \<Longrightarrow> j < length xs \<Longrightarrow> p (xs ! j) \<Longrightarrow> p (xs ! i)"
  shows "partition_point p xs = length (takeWhile p xs)"
proof -
  let ?f = "\<lambda>x. if p x then Less else Greater"
  have s: "splits_slice ?f xs" using assms by (auto simp: splits_slice_def)
  obtain i where i: "binary_search_by ?f xs = Inl i"
    using binary_search_by_Inr [of ?f xs] by (cases "binary_search_by ?f xs") (auto split: if_splits)
  have *: "i \<le> length xs \<and> (\<forall>k < i. p (xs ! k)) \<and> (\<forall>k. i \<le> k \<longrightarrow> k < length xs \<longrightarrow> \<not> p (xs ! k))"
    using binary_search_by_Inl [OF s i] by (auto split: if_splits)
  have "length (takeWhile p xs) = i"
  proof (rule antisym)
    show "length (takeWhile p xs) \<le> i"
      using * length_takeWhile_le [of p xs] nth_length_takeWhile [of p xs]
      by (metis linorder_not_le nth_mem set_takeWhileD takeWhile_nth order.strict_trans2 order_refl)
    show "i \<le> length (takeWhile p xs)"
      using * nth_length_takeWhile [of p xs] by (metis linorder_not_le order.strict_trans2)
  qed
  with i show ?thesis by (simp add: partition_point_def)
qed

section \<open>Sorted tables searched by key\<close>

text \<open>
  The lookup idiom of the sources:
  \<^verbatim>\<open>table.binary_search_by(|f| f.id.cmp(id)).ok().map(|i| &table[i])\<close>.
\<close>

definition lookup_by :: "('a \<Rightarrow> 'k::linorder) \<Rightarrow> 'a list \<Rightarrow> 'k \<Rightarrow> 'a option" where
  "lookup_by key xs k =
     (case binary_search_by (\<lambda>f. cmp (key f) k) xs of Inl _ \<Rightarrow> None | Inr i \<Rightarrow> Some (xs ! i))"

lemma lookup_by_SomeD:
  "lookup_by key xs k = Some x \<Longrightarrow> x \<in> set xs \<and> key x = k"
  using binary_search_by_Inr [of "\<lambda>f. cmp (key f) k" xs]
  by (auto simp: lookup_by_def split: sum.splits)

lemma lookup_by_None_iff [table_simps]:
  assumes "sorted (map key xs)"
  shows "lookup_by key xs k = None \<longleftrightarrow> k \<notin> key ` set xs"
proof
  assume "lookup_by key xs k = None"
  then obtain i where "binary_search_by (\<lambda>f. cmp (key f) k) xs = Inl i"
    by (auto simp: lookup_by_def split: sum.splits)
  note r = binary_search_by_Inl [OF splits_slice_cmp [OF assms] this]
  show "k \<notin> key ` set xs"
  proof
    assume "k \<in> key ` set xs"
    then obtain n where n: "n < length xs" "key (xs ! n) = k" by (auto simp: in_set_conv_nth)
    then show False using r by (cases "n < i") (auto simp: cmp_def split: if_splits)
  qed
next
  assume "k \<notin> key ` set xs"
  then show "lookup_by key xs k = None" by (cases "lookup_by key xs k") (auto dest: lookup_by_SomeD)
qed

lemma lookup_by_unique:
  assumes "sorted (map key xs)" "distinct (map key xs)" "x \<in> set xs"
  shows "lookup_by key xs (key x) = Some x"
proof (cases "lookup_by key xs (key x)")
  case None
  with assms show ?thesis by (auto simp: table_simps)
next
  case (Some y)
  with assms lookup_by_SomeD [OF Some] show ?thesis
    by (metis distinct_map inj_onD)
qed

lemma binary_search_ok_iff [table_simps]:
  assumes "sorted xs"
  shows "(\<exists>i. binary_search xs x = Inr i) \<longleftrightarrow> x \<in> set xs"
proof -
  have "(\<exists>i. binary_search xs x = Inr i) \<longleftrightarrow> lookup_by (\<lambda>y. y) xs x \<noteq> None"
    by (auto simp: binary_search_def lookup_by_def split: sum.splits)
  then show ?thesis using assms lookup_by_None_iff [of "\<lambda>y. y" xs x] by simp
qed

text \<open>\<open>Vec::get\<close> and \<open>Option::filter\<close>.\<close>

definition vec_get :: "'a list \<Rightarrow> nat \<Rightarrow> 'a option" where
  "vec_get xs i = (if i < length xs then Some (xs ! i) else None)"

definition option_filter :: "('a \<Rightarrow> bool) \<Rightarrow> 'a option \<Rightarrow> 'a option" where
  "option_filter p x = (case x of None \<Rightarrow> None | Some v \<Rightarrow> if p v then Some v else None)"

text \<open>
  \<^verbatim>\<open>if let Some(x) = &opt { out.push(..) }\<close>, as the list of values pushed.
\<close>

definition when_some :: "'a option \<Rightarrow> ('a \<Rightarrow> 'b list) \<Rightarrow> 'b list" where
  "when_some x f = (case x of None \<Rightarrow> [] | Some v \<Rightarrow> f v)"

lemma set_when_some [simp]: "set (when_some x f) = (\<Union>v \<in> set_option x. set (f v))"
  by (cases x) (simp_all add: when_some_def)

text \<open>
  The elements of one key in a sorted table are contiguous, starting at the partition point.
\<close>

lemma sorted_partition_point:
  fixes key :: "'a \<Rightarrow> 'k::linorder"
  assumes "sorted (map key xs)"
  shows "partition_point (\<lambda>x. key x < k) xs = length (takeWhile (\<lambda>x. key x < k) xs)"
proof (rule partition_point_spec)
  fix i j assume "i \<le> j" "j < length xs" "key (xs ! j) < k"
  with assms show "key (xs ! i) < k"
    by (auto simp: sorted_iff_nth_mono intro: le_less_trans)
qed

lemma sorted_equal_range:
  fixes key :: "'a \<Rightarrow> 'k::linorder"
  assumes "sorted (map key xs)"
  shows "takeWhile (\<lambda>x. key x = k) (dropWhile (\<lambda>x. key x < k) xs) = filter (\<lambda>x. key x = k) xs"
  using assms
proof (induction xs)
  case Nil
  then show ?case by simp
next
  case (Cons x xs)
  then have ge: "\<forall>y \<in> set xs. key x \<le> key y" by simp
  consider "key x < k" | "key x = k" | "k < key x" by fastforce
  then show ?case
  proof cases
    case 1
    with Cons show ?thesis by auto
  next
    case 2
    with ge have "dropWhile (\<lambda>x. key x < k) xs = xs" by (cases xs) auto
    with 2 Cons show ?thesis by auto
  next
    case 3
    with ge have "filter (\<lambda>x. key x = k) xs = []" by (fastforce simp: filter_empty_conv)
    with 3 show ?thesis by auto
  qed
qed

lemma sorted_range_at_partition_point [table_simps]:
  fixes key :: "'a \<Rightarrow> 'k::linorder"
  assumes "sorted (map key xs)"
  shows "takeWhile (\<lambda>x. key x = k) (drop (partition_point (\<lambda>x. key x < k) xs) xs) =
         filter (\<lambda>x. key x = k) xs"
  by (simp add: sorted_partition_point [OF assms] dropWhile_eq_drop [symmetric]
      sorted_equal_range [OF assms])

lemma sorted_first_at_partition_point [table_simps]:
  fixes key :: "'a \<Rightarrow> 'k::linorder"
  assumes "sorted (map key xs)"
  shows "option_filter (\<lambda>x. key x = k) (vec_get xs (partition_point (\<lambda>x. key x < k) xs)) =
         find (\<lambda>x. key x = k) xs"
proof -
  let ?n = "partition_point (\<lambda>x. key x < k) xs"
  have "option_filter (\<lambda>x. key x = k) (vec_get xs ?n) =
        (case takeWhile (\<lambda>x. key x = k) (drop ?n xs) of [] \<Rightarrow> None | x # _ \<Rightarrow> Some x)"
    by (cases "?n < length xs")
       (auto simp: option_filter_def vec_get_def Cons_nth_drop_Suc [symmetric])
  also have "\<dots> = find (\<lambda>x. key x = k) xs"
    unfolding sorted_range_at_partition_point [OF assms]
    by (induction xs) auto
  finally show ?thesis .
qed

section \<open>Sort and dedup\<close>

text \<open>The idiom \<^verbatim>\<open>v.sort(); v.dedup();\<close>.\<close>

definition sort_dedup :: "'a::linorder list \<Rightarrow> 'a list" where
  "sort_dedup xs = remdups_adj (sort xs)"

lemma sorted_distinct_remdups_adj: "sorted xs \<Longrightarrow> distinct (remdups_adj xs)"
  by (induction xs rule: remdups_adj.induct) (auto simp: less_le)

lemma set_sort_dedup [simp]: "set (sort_dedup xs) = set xs"
  by (simp add: sort_dedup_def)

lemma sorted_sort_dedup [simp]: "sorted (sort_dedup xs)"
  by (simp add: sort_dedup_def sorted_remdups_adj)

lemma distinct_sort_dedup [simp]: "distinct (sort_dedup xs)"
  by (simp add: sort_dedup_def sorted_distinct_remdups_adj)

lemma sort_dedup_cong: "set xs = set ys \<Longrightarrow> sort_dedup xs = sort_dedup ys"
  by (rule sorted_distinct_set_unique) simp_all

lemma sort_dedup_id: "sorted xs \<Longrightarrow> distinct xs \<Longrightarrow> sort_dedup xs = xs"
  by (rule sorted_distinct_set_unique) simp_all

lemma sort_key_perm_cong:
  assumes "mset xs = mset ys" "inj_on key (set xs)"
  shows "sort_key key xs = sort_key key ys"
proof -
  have "mset xs = mset (sort_key key ys)" using assms(1) by simp
  then show ?thesis by (rule sort_key_inj_key_eq [OF _ assms(2)]) simp
qed

lemma sort_key_sorted_id: "sorted (map key xs) \<Longrightarrow> sort_key key xs = xs"
  by (induction xs) (auto simp: insort_is_Cons)

lemma map_sort_key_self: "map key (sort_key key xs) = sort (map key xs)"
  by (rule properties_for_sort [symmetric]) simp_all

section \<open>Formatting\<close>

text \<open>\<^verbatim>\<open>format!("{}", n)\<close> for an unsigned integer, and \<open>[String]::join\<close>.\<close>

definition digit_char :: "nat \<Rightarrow> char" where
  "digit_char d = (char_of (48 + d) :: char)"

fun show_nat :: "nat \<Rightarrow> string" where
  "show_nat n = (if n < 10 then [digit_char n] else show_nat (n div 10) @ [digit_char (n mod 10)])"

declare show_nat.simps [simp del]

fun join :: "string \<Rightarrow> string list \<Rightarrow> string" where
  "join sep [] = []"
| "join sep [x] = x"
| "join sep (x # y # ys) = x @ sep @ join sep (y # ys)"

section \<open>Hash maps filled through \<open>entry().or_default().push()\<close>\<close>

text \<open>
  A \<open>HashMap<K, Vec<V>>\<close> is the association list of its entries in order of first insertion;
  the order in which an iteration visits them is a separate, unspecified permutation.
\<close>

fun entry_push :: "'k \<Rightarrow> 'v \<Rightarrow> ('k \<times> 'v list) list \<Rightarrow> ('k \<times> 'v list) list" where
  "entry_push k v [] = [(k, [v])]"
| "entry_push k v ((k', vs) # r) =
     (if k = k' then (k', vs @ [v]) # r else (k', vs) # entry_push k v r)"

definition group_pushes :: "('a \<Rightarrow> 'k) \<Rightarrow> ('a \<Rightarrow> 'v) \<Rightarrow> 'a list \<Rightarrow> ('k \<times> 'v list) list" where
  "group_pushes key val xs = foldl (\<lambda>m x. entry_push (key x) (val x) m) [] xs"

definition iteration_order :: "('e list \<Rightarrow> 'e list) \<Rightarrow> bool" where
  "iteration_order visit \<longleftrightarrow> (\<forall>es. mset (visit es) = mset es)"

lemma iteration_orderD: "iteration_order visit \<Longrightarrow> mset (visit es) = mset es"
  by (simp add: iteration_order_def)

lemma set_iteration_order: "iteration_order visit \<Longrightarrow> set (visit es) = set es"
  using iteration_orderD mset_eq_setD by blast

lemma fst_entry_push: "fst ` set (entry_push k v m) = insert k (fst ` set m)"
  by (induction k v m rule: entry_push.induct) auto

lemma distinct_entry_push:
  "distinct (map fst m) \<Longrightarrow> distinct (map fst (entry_push k v m))"
  by (induction k v m rule: entry_push.induct) (auto simp: fst_entry_push image_iff rev_image_eqI)

lemma map_of_entry_push:
  "map_of (entry_push k v m) k' =
     (if k' = k then Some ((case map_of m k of None \<Rightarrow> [] | Some vs \<Rightarrow> vs) @ [v]) else map_of m k')"
  by (induction k v m rule: entry_push.induct) auto

lemma group_pushes_snoc:
  "group_pushes key val (xs @ [x]) = entry_push (key x) (val x) (group_pushes key val xs)"
  by (simp add: group_pushes_def)

lemma distinct_group_pushes: "distinct (map fst (group_pushes key val xs))"
  by (induction xs rule: rev_induct)
     (simp_all add: group_pushes_snoc distinct_entry_push, simp add: group_pushes_def)

lemma map_of_group_pushes:
  "map_of (group_pushes key val xs) k =
     (let vs = map val (filter (\<lambda>x. key x = k) xs) in if vs = [] then None else Some vs)"
proof (induction xs rule: rev_induct)
  case Nil
  then show ?case by (simp add: group_pushes_def)
next
  case (snoc x xs)
  then show ?case by (auto simp: group_pushes_snoc map_of_entry_push Let_def split: if_splits)
qed

text \<open>A group of two or more entries exists exactly when two elements share a key.\<close>

lemma group_pushes_small_iff_distinct:
  "(\<forall>(k, vs) \<in> set (group_pushes key val xs). length vs \<le> 1) \<longleftrightarrow> distinct (map key xs)"
proof -
  have mem: "(k, vs) \<in> set (group_pushes key val xs) \<longleftrightarrow>
        vs = map val (filter (\<lambda>x. key x = k) xs) \<and> vs \<noteq> []" for k vs
    using map_of_eq_Some_iff [OF distinct_group_pushes, of key val xs k vs, symmetric]
    by (auto simp: map_of_group_pushes Let_def)
  have "(\<forall>(k, vs) \<in> set (group_pushes key val xs). length vs \<le> 1) \<longleftrightarrow>
        (\<forall>k. length (filter (\<lambda>x. key x = k) xs) \<le> 1)" (is "?L \<longleftrightarrow> ?R")
  proof
    assume L: ?L
    show ?R
    proof
      fix k
      let ?vs = "map val (filter (\<lambda>x. key x = k) xs)"
      show "length (filter (\<lambda>x. key x = k) xs) \<le> 1"
      proof (cases "?vs = []")
        case False
        then have "(k, ?vs) \<in> set (group_pushes key val xs)" by (simp add: mem)
        with L have "length ?vs \<le> 1" by blast
        then show ?thesis by simp
      qed simp
    qed
  next
    assume ?R
    then show ?L by (simp add: mem case_prod_unfold split_paired_all)
  qed
  also have "\<dots> \<longleftrightarrow> distinct (map key xs)"
  proof (induction xs)
    case Nil
    then show ?case by simp
  next
    case (Cons x xs)
    show ?case
    proof
      assume *: "\<forall>k. length (filter (\<lambda>y. key y = k) (x # xs)) \<le> 1"
      have "length (filter (\<lambda>y. key y = k) xs) \<le> 1" for k
        using spec [OF *, of k] by (cases "key x = k") simp_all
      moreover have "filter (\<lambda>y. key y = key x) xs = []" using spec [OF *, of "key x"] by simp
      ultimately show "distinct (map key (x # xs))" using Cons.IH by (auto simp: filter_empty_conv)
    next
      assume *: "distinct (map key (x # xs))"
      then have "filter (\<lambda>y. key y = key x) xs = []" by (auto simp: filter_empty_conv rev_image_eqI)
      then show "\<forall>k. length (filter (\<lambda>y. key y = k) (x # xs)) \<le> 1" using * Cons.IH by auto
    qed
  qed
  finally show ?thesis .
qed

section \<open>Runs of equal ids\<close>

text \<open>
  The duplicate scan of both validators: over the list sorted by id, each maximal run of equal
  ids gives its first element and its length (\<open>j - i\<close> of the source's nested loops).
\<close>

function id_runs :: "('a \<times> 'b) list \<Rightarrow> (('a \<times> 'b) \<times> nat) list" where
  "id_runs [] = []"
| "id_runs (x # xs) =
     (x, Suc (length (takeWhile (\<lambda>y. snd y = snd x) xs))) #
     id_runs (dropWhile (\<lambda>y. snd y = snd x) xs)"
  by pat_completeness auto
termination
  by (relation "measure length") (auto simp: le_imp_less_Suc length_dropWhile_le)

lemma id_runs_single_iff:
  fixes xs :: "('a \<times> 'b::linorder) list"
  assumes "sorted (map snd xs)"
  shows "(\<forall>(x, n) \<in> set (id_runs xs). n \<le> 1) \<longleftrightarrow> distinct (map snd xs)"
  using assms
proof (induction xs rule: id_runs.induct)
  case 1
  then show ?case by simp
next
  case (2 x xs)
  let ?rest = "dropWhile (\<lambda>y. snd y = snd x) xs"
  have "sorted (map snd ?rest)" using 2(2)
    by (metis dropWhile_eq_drop drop_map list.simps(9) sorted_simps(2) sorted_wrt_drop)
  note IH = 2(1) [OF this]
  show ?case
  proof (cases "xs \<noteq> [] \<and> snd (hd xs) = snd x")
    case True
    then obtain y ys where "xs = y # ys" "snd y = snd x" by (cases xs) auto
    then show ?thesis by simp
  next
    case False
    then have rest: "?rest = xs" and tw: "takeWhile (\<lambda>y. snd y = snd x) xs = []" by (cases xs; auto)+
    have "snd x \<notin> snd ` set xs" using False 2(2) by (cases xs) (auto dest: order.antisym)
    then show ?thesis using IH by (simp add: rest tw)
  qed
qed

section \<open>Transition systems\<close>

text \<open>An invariant of a step relation holds in every state reachable from an initial one.\<close>

locale preserved_system =
  fixes initial :: "'s \<Rightarrow> bool"
    and step :: "'s \<Rightarrow> 's \<Rightarrow> bool"
    and inv :: "'s \<Rightarrow> bool"
  assumes initial_inv: "initial s \<Longrightarrow> inv s"
    and step_inv: "inv s \<Longrightarrow> step s s' \<Longrightarrow> inv s'"
begin

lemma reachable_inv:
  assumes "initial s" "step\<^sup>*\<^sup>* s t"
  shows "inv t"
  using assms(2)
proof (induction rule: rtranclp_induct)
  case base
  then show ?case by (rule initial_inv [OF assms(1)])
next
  case (step t u)
  then show ?case using step_inv by blast
qed

end

end
