(* ===== verification/Fact_Types.thy ===== *)
theory Fact_Types
  imports Prelude
begin

text \<open>
  The closed vocabularies of the Engineering Facts Model: the enums of
  \<^verbatim>\<open>crates/fact-store/src/engineering_facts\<close> and the rule enum of
  \<^verbatim>\<open>fact_store/validation.rs\<close>, each with its \<open>ALL\<close> array, its canonical name
  (\<open>as_str\<close>, which \<open>Display\<close> writes) and its parser. A \<open>match\<close> on string literals is a
  \<open>map_of\<close> over the arms in source order.

  Every such enum promises the same contract, stated once as the locale \<open>named_enum\<close> and
  discharged for each of the ten enums by an interpretation.
\<close>

section \<open>The enums\<close>

subsection \<open>FactKind\<close>

datatype FactKind =
    Workspace | Module | Package | Symbol | Test | BuildTarget
  | Dependency | Relationship | Reference | Diagnostic | ArchitectureRule | Language
  | Framework | EntryPoint

definition FactKind_ALL :: "FactKind list" where
  "FactKind_ALL = [
     FactKind.Workspace, FactKind.Module, FactKind.Package,
     FactKind.Symbol, FactKind.Test, FactKind.BuildTarget,
     FactKind.Dependency, FactKind.Relationship, FactKind.Reference,
     FactKind.Diagnostic, FactKind.ArchitectureRule, FactKind.Language,
     FactKind.Framework, FactKind.EntryPoint]"

fun FactKind_as_str :: "FactKind \<Rightarrow> string" where
  "FactKind_as_str FactKind.Workspace = ''workspace''"
| "FactKind_as_str FactKind.Module = ''module''"
| "FactKind_as_str FactKind.Package = ''package''"
| "FactKind_as_str FactKind.Symbol = ''symbol''"
| "FactKind_as_str FactKind.Test = ''test''"
| "FactKind_as_str FactKind.BuildTarget = ''build_target''"
| "FactKind_as_str FactKind.Dependency = ''dependency''"
| "FactKind_as_str FactKind.Relationship = ''relationship''"
| "FactKind_as_str FactKind.Reference = ''reference''"
| "FactKind_as_str FactKind.Diagnostic = ''diagnostic''"
| "FactKind_as_str FactKind.ArchitectureRule = ''architecture_rule''"
| "FactKind_as_str FactKind.Language = ''language''"
| "FactKind_as_str FactKind.Framework = ''framework''"
| "FactKind_as_str FactKind.EntryPoint = ''entry_point''"

definition FactKind_parse :: "string \<Rightarrow> FactKind option" where
  "FactKind_parse s = map_of [
     (''workspace'', FactKind.Workspace),
     (''module'', FactKind.Module),
     (''package'', FactKind.Package),
     (''symbol'', FactKind.Symbol),
     (''test'', FactKind.Test),
     (''build_target'', FactKind.BuildTarget),
     (''dependency'', FactKind.Dependency),
     (''relationship'', FactKind.Relationship),
     (''reference'', FactKind.Reference),
     (''diagnostic'', FactKind.Diagnostic),
     (''architecture_rule'', FactKind.ArchitectureRule),
     (''language'', FactKind.Language),
     (''framework'', FactKind.Framework),
     (''entry_point'', FactKind.EntryPoint)] s"

subsection \<open>Severity\<close>

datatype Severity =
    Info | Warning | Error | Fatal

definition Severity_ALL :: "Severity list" where
  "Severity_ALL = [
     Severity.Info, Severity.Warning, Severity.Error,
     Severity.Fatal]"

fun Severity_as_str :: "Severity \<Rightarrow> string" where
  "Severity_as_str Severity.Info = ''info''"
| "Severity_as_str Severity.Warning = ''warning''"
| "Severity_as_str Severity.Error = ''error''"
| "Severity_as_str Severity.Fatal = ''fatal''"

definition Severity_parse :: "string \<Rightarrow> Severity option" where
  "Severity_parse s = map_of [
     (''info'', Severity.Info),
     (''warning'', Severity.Warning),
     (''error'', Severity.Error),
     (''fatal'', Severity.Fatal)] s"

subsection \<open>Visibility\<close>

datatype Visibility =
    Public | Protected | Internal | Private | Package | Unknown

definition Visibility_ALL :: "Visibility list" where
  "Visibility_ALL = [
     Visibility.Public, Visibility.Protected, Visibility.Internal,
     Visibility.Private, Visibility.Package, Visibility.Unknown]"

fun Visibility_as_str :: "Visibility \<Rightarrow> string" where
  "Visibility_as_str Visibility.Public = ''public''"
| "Visibility_as_str Visibility.Protected = ''protected''"
| "Visibility_as_str Visibility.Internal = ''internal''"
| "Visibility_as_str Visibility.Private = ''private''"
| "Visibility_as_str Visibility.Package = ''package''"
| "Visibility_as_str Visibility.Unknown = ''unknown''"

definition Visibility_parse :: "string \<Rightarrow> Visibility option" where
  "Visibility_parse s = map_of [
     (''public'', Visibility.Public),
     (''protected'', Visibility.Protected),
     (''internal'', Visibility.Internal),
     (''private'', Visibility.Private),
     (''package'', Visibility.Package),
     (''unknown'', Visibility.Unknown)] s"

subsection \<open>SymbolKind\<close>

datatype SymbolKind =
    Function | Method | Class | Struct | Enum | Trait
  | Interface | TypeAlias | Variable | Constant | Field | Parameter
  | Macro | Constructor | Operator | Namespace | Import | Export
  | Route | Unknown

definition SymbolKind_ALL :: "SymbolKind list" where
  "SymbolKind_ALL = [
     SymbolKind.Function, SymbolKind.Method, SymbolKind.Class,
     SymbolKind.Struct, SymbolKind.Enum, SymbolKind.Trait,
     SymbolKind.Interface, SymbolKind.TypeAlias, SymbolKind.Variable,
     SymbolKind.Constant, SymbolKind.Field, SymbolKind.Parameter,
     SymbolKind.Macro, SymbolKind.Constructor, SymbolKind.Operator,
     SymbolKind.Namespace, SymbolKind.Import, SymbolKind.Export,
     SymbolKind.Route, SymbolKind.Unknown]"

fun SymbolKind_as_str :: "SymbolKind \<Rightarrow> string" where
  "SymbolKind_as_str SymbolKind.Function = ''function''"
| "SymbolKind_as_str SymbolKind.Method = ''method''"
| "SymbolKind_as_str SymbolKind.Class = ''class''"
| "SymbolKind_as_str SymbolKind.Struct = ''struct''"
| "SymbolKind_as_str SymbolKind.Enum = ''enum''"
| "SymbolKind_as_str SymbolKind.Trait = ''trait''"
| "SymbolKind_as_str SymbolKind.Interface = ''interface''"
| "SymbolKind_as_str SymbolKind.TypeAlias = ''type_alias''"
| "SymbolKind_as_str SymbolKind.Variable = ''variable''"
| "SymbolKind_as_str SymbolKind.Constant = ''constant''"
| "SymbolKind_as_str SymbolKind.Field = ''field''"
| "SymbolKind_as_str SymbolKind.Parameter = ''parameter''"
| "SymbolKind_as_str SymbolKind.Macro = ''macro''"
| "SymbolKind_as_str SymbolKind.Constructor = ''constructor''"
| "SymbolKind_as_str SymbolKind.Operator = ''operator''"
| "SymbolKind_as_str SymbolKind.Namespace = ''namespace''"
| "SymbolKind_as_str SymbolKind.Import = ''import''"
| "SymbolKind_as_str SymbolKind.Export = ''export''"
| "SymbolKind_as_str SymbolKind.Route = ''route''"
| "SymbolKind_as_str SymbolKind.Unknown = ''unknown''"

definition SymbolKind_parse :: "string \<Rightarrow> SymbolKind option" where
  "SymbolKind_parse s = map_of [
     (''function'', SymbolKind.Function),
     (''method'', SymbolKind.Method),
     (''class'', SymbolKind.Class),
     (''struct'', SymbolKind.Struct),
     (''enum'', SymbolKind.Enum),
     (''trait'', SymbolKind.Trait),
     (''interface'', SymbolKind.Interface),
     (''type_alias'', SymbolKind.TypeAlias),
     (''variable'', SymbolKind.Variable),
     (''constant'', SymbolKind.Constant),
     (''field'', SymbolKind.Field),
     (''parameter'', SymbolKind.Parameter),
     (''macro'', SymbolKind.Macro),
     (''constructor'', SymbolKind.Constructor),
     (''operator'', SymbolKind.Operator),
     (''namespace'', SymbolKind.Namespace),
     (''import'', SymbolKind.Import),
     (''export'', SymbolKind.Export),
     (''route'', SymbolKind.Route),
     (''unknown'', SymbolKind.Unknown)] s"

subsection \<open>RelationshipKind\<close>

datatype RelationshipKind =
    Defines | Declares | Calls | References | Imports | Exports
  | DependsOn | Implements | Overrides | Tests | Builds | Owns
  | Contains | Friend | Documents | Configures | Unknown

definition RelationshipKind_ALL :: "RelationshipKind list" where
  "RelationshipKind_ALL = [
     RelationshipKind.Defines, RelationshipKind.Declares, RelationshipKind.Calls,
     RelationshipKind.References, RelationshipKind.Imports, RelationshipKind.Exports,
     RelationshipKind.DependsOn, RelationshipKind.Implements, RelationshipKind.Overrides,
     RelationshipKind.Tests, RelationshipKind.Builds, RelationshipKind.Owns,
     RelationshipKind.Contains, RelationshipKind.Friend, RelationshipKind.Documents,
     RelationshipKind.Configures, RelationshipKind.Unknown]"

fun RelationshipKind_as_str :: "RelationshipKind \<Rightarrow> string" where
  "RelationshipKind_as_str RelationshipKind.Defines = ''defines''"
| "RelationshipKind_as_str RelationshipKind.Declares = ''declares''"
| "RelationshipKind_as_str RelationshipKind.Calls = ''calls''"
| "RelationshipKind_as_str RelationshipKind.References = ''references''"
| "RelationshipKind_as_str RelationshipKind.Imports = ''imports''"
| "RelationshipKind_as_str RelationshipKind.Exports = ''exports''"
| "RelationshipKind_as_str RelationshipKind.DependsOn = ''depends_on''"
| "RelationshipKind_as_str RelationshipKind.Implements = ''implements''"
| "RelationshipKind_as_str RelationshipKind.Overrides = ''overrides''"
| "RelationshipKind_as_str RelationshipKind.Tests = ''tests''"
| "RelationshipKind_as_str RelationshipKind.Builds = ''builds''"
| "RelationshipKind_as_str RelationshipKind.Owns = ''owns''"
| "RelationshipKind_as_str RelationshipKind.Contains = ''contains''"
| "RelationshipKind_as_str RelationshipKind.Friend = ''friend''"
| "RelationshipKind_as_str RelationshipKind.Documents = ''documents''"
| "RelationshipKind_as_str RelationshipKind.Configures = ''configures''"
| "RelationshipKind_as_str RelationshipKind.Unknown = ''unknown''"

definition RelationshipKind_parse :: "string \<Rightarrow> RelationshipKind option" where
  "RelationshipKind_parse s = map_of [
     (''defines'', RelationshipKind.Defines),
     (''declares'', RelationshipKind.Declares),
     (''calls'', RelationshipKind.Calls),
     (''references'', RelationshipKind.References),
     (''imports'', RelationshipKind.Imports),
     (''exports'', RelationshipKind.Exports),
     (''depends_on'', RelationshipKind.DependsOn),
     (''implements'', RelationshipKind.Implements),
     (''overrides'', RelationshipKind.Overrides),
     (''tests'', RelationshipKind.Tests),
     (''builds'', RelationshipKind.Builds),
     (''owns'', RelationshipKind.Owns),
     (''contains'', RelationshipKind.Contains),
     (''friend'', RelationshipKind.Friend),
     (''documents'', RelationshipKind.Documents),
     (''configures'', RelationshipKind.Configures),
     (''unknown'', RelationshipKind.Unknown)] s"

subsection \<open>DependencyKind\<close>

datatype DependencyKind =
    Direct | Transitive | Optional | Dev | Test | Build
  | Runtime | Peer | Unknown

definition DependencyKind_ALL :: "DependencyKind list" where
  "DependencyKind_ALL = [
     DependencyKind.Direct, DependencyKind.Transitive, DependencyKind.Optional,
     DependencyKind.Dev, DependencyKind.Test, DependencyKind.Build,
     DependencyKind.Runtime, DependencyKind.Peer, DependencyKind.Unknown]"

fun DependencyKind_as_str :: "DependencyKind \<Rightarrow> string" where
  "DependencyKind_as_str DependencyKind.Direct = ''direct''"
| "DependencyKind_as_str DependencyKind.Transitive = ''transitive''"
| "DependencyKind_as_str DependencyKind.Optional = ''optional''"
| "DependencyKind_as_str DependencyKind.Dev = ''dev''"
| "DependencyKind_as_str DependencyKind.Test = ''test''"
| "DependencyKind_as_str DependencyKind.Build = ''build''"
| "DependencyKind_as_str DependencyKind.Runtime = ''runtime''"
| "DependencyKind_as_str DependencyKind.Peer = ''peer''"
| "DependencyKind_as_str DependencyKind.Unknown = ''unknown''"

definition DependencyKind_parse :: "string \<Rightarrow> DependencyKind option" where
  "DependencyKind_parse s = map_of [
     (''direct'', DependencyKind.Direct),
     (''transitive'', DependencyKind.Transitive),
     (''optional'', DependencyKind.Optional),
     (''dev'', DependencyKind.Dev),
     (''test'', DependencyKind.Test),
     (''build'', DependencyKind.Build),
     (''runtime'', DependencyKind.Runtime),
     (''peer'', DependencyKind.Peer),
     (''unknown'', DependencyKind.Unknown)] s"

subsection \<open>BuildTargetKind\<close>

datatype BuildTargetKind =
    Binary | Library | Test | Example | Bench | Unknown

definition BuildTargetKind_ALL :: "BuildTargetKind list" where
  "BuildTargetKind_ALL = [
     BuildTargetKind.Binary, BuildTargetKind.Library, BuildTargetKind.Test,
     BuildTargetKind.Example, BuildTargetKind.Bench, BuildTargetKind.Unknown]"

fun BuildTargetKind_as_str :: "BuildTargetKind \<Rightarrow> string" where
  "BuildTargetKind_as_str BuildTargetKind.Binary = ''binary''"
| "BuildTargetKind_as_str BuildTargetKind.Library = ''library''"
| "BuildTargetKind_as_str BuildTargetKind.Test = ''test''"
| "BuildTargetKind_as_str BuildTargetKind.Example = ''example''"
| "BuildTargetKind_as_str BuildTargetKind.Bench = ''bench''"
| "BuildTargetKind_as_str BuildTargetKind.Unknown = ''unknown''"

definition BuildTargetKind_parse :: "string \<Rightarrow> BuildTargetKind option" where
  "BuildTargetKind_parse s = map_of [
     (''binary'', BuildTargetKind.Binary),
     (''library'', BuildTargetKind.Library),
     (''test'', BuildTargetKind.Test),
     (''example'', BuildTargetKind.Example),
     (''bench'', BuildTargetKind.Bench),
     (''unknown'', BuildTargetKind.Unknown)] s"

subsection \<open>EntryPointKind\<close>

datatype EntryPointKind =
    Binary | Script | Unknown

definition EntryPointKind_ALL :: "EntryPointKind list" where
  "EntryPointKind_ALL = [
     EntryPointKind.Binary, EntryPointKind.Script, EntryPointKind.Unknown]"

fun EntryPointKind_as_str :: "EntryPointKind \<Rightarrow> string" where
  "EntryPointKind_as_str EntryPointKind.Binary = ''binary''"
| "EntryPointKind_as_str EntryPointKind.Script = ''script''"
| "EntryPointKind_as_str EntryPointKind.Unknown = ''unknown''"

definition EntryPointKind_parse :: "string \<Rightarrow> EntryPointKind option" where
  "EntryPointKind_parse s = map_of [
     (''binary'', EntryPointKind.Binary),
     (''script'', EntryPointKind.Script),
     (''unknown'', EntryPointKind.Unknown)] s"

subsection \<open>ValidationRule\<close>

datatype ValidationRule =
    DuplicateIds | DuplicateRelationships | InvalidReference | SelfReference | SelfDependency | BrokenLocation
  | InvalidVisibility | OrphanSymbol

definition ValidationRule_ALL :: "ValidationRule list" where
  "ValidationRule_ALL = [
     ValidationRule.DuplicateIds, ValidationRule.DuplicateRelationships, ValidationRule.InvalidReference,
     ValidationRule.SelfReference, ValidationRule.SelfDependency, ValidationRule.BrokenLocation,
     ValidationRule.InvalidVisibility, ValidationRule.OrphanSymbol]"

fun ValidationRule_as_str :: "ValidationRule \<Rightarrow> string" where
  "ValidationRule_as_str ValidationRule.DuplicateIds = ''duplicate_ids''"
| "ValidationRule_as_str ValidationRule.DuplicateRelationships = ''duplicate_relationships''"
| "ValidationRule_as_str ValidationRule.InvalidReference = ''invalid_reference''"
| "ValidationRule_as_str ValidationRule.SelfReference = ''self_reference''"
| "ValidationRule_as_str ValidationRule.SelfDependency = ''self_dependency''"
| "ValidationRule_as_str ValidationRule.BrokenLocation = ''broken_location''"
| "ValidationRule_as_str ValidationRule.InvalidVisibility = ''invalid_visibility''"
| "ValidationRule_as_str ValidationRule.OrphanSymbol = ''orphan_symbol''"

definition ValidationRule_parse :: "string \<Rightarrow> ValidationRule option" where
  "ValidationRule_parse s = map_of [
     (''duplicate_ids'', ValidationRule.DuplicateIds),
     (''duplicate_relationships'', ValidationRule.DuplicateRelationships),
     (''invalid_reference'', ValidationRule.InvalidReference),
     (''self_reference'', ValidationRule.SelfReference),
     (''self_dependency'', ValidationRule.SelfDependency),
     (''broken_location'', ValidationRule.BrokenLocation),
     (''invalid_visibility'', ValidationRule.InvalidVisibility),
     (''orphan_symbol'', ValidationRule.OrphanSymbol)] s"

subsection \<open>FactValidationRule\<close>

datatype FactValidationRule =
    DuplicateFacts | BrokenIndex | MissingIds | OrphanRecords | SchemaMismatch

definition FactValidationRule_ALL :: "FactValidationRule list" where
  "FactValidationRule_ALL = [
     FactValidationRule.DuplicateFacts, FactValidationRule.BrokenIndex, FactValidationRule.MissingIds,
     FactValidationRule.OrphanRecords, FactValidationRule.SchemaMismatch]"

fun FactValidationRule_as_str :: "FactValidationRule \<Rightarrow> string" where
  "FactValidationRule_as_str FactValidationRule.DuplicateFacts = ''duplicate_facts''"
| "FactValidationRule_as_str FactValidationRule.BrokenIndex = ''broken_index''"
| "FactValidationRule_as_str FactValidationRule.MissingIds = ''missing_ids''"
| "FactValidationRule_as_str FactValidationRule.OrphanRecords = ''orphan_records''"
| "FactValidationRule_as_str FactValidationRule.SchemaMismatch = ''schema_mismatch''"

definition FactValidationRule_parse :: "string \<Rightarrow> FactValidationRule option" where
  "FactValidationRule_parse s = map_of [
     (''duplicate_facts'', FactValidationRule.DuplicateFacts),
     (''broken_index'', FactValidationRule.BrokenIndex),
     (''missing_ids'', FactValidationRule.MissingIds),
     (''orphan_records'', FactValidationRule.OrphanRecords),
     (''schema_mismatch'', FactValidationRule.SchemaMismatch)] s"

section \<open>Derived orders\<close>

text \<open>\<open>#[derive(PartialOrd, Ord)]\<close> on a field-less enum is the order of declaration.\<close>

fun FactKind_rank :: "FactKind \<Rightarrow> nat" where
  "FactKind_rank FactKind.Workspace = 0"
| "FactKind_rank FactKind.Module = 1"
| "FactKind_rank FactKind.Package = 2"
| "FactKind_rank FactKind.Symbol = 3"
| "FactKind_rank FactKind.Test = 4"
| "FactKind_rank FactKind.BuildTarget = 5"
| "FactKind_rank FactKind.Dependency = 6"
| "FactKind_rank FactKind.Relationship = 7"
| "FactKind_rank FactKind.Reference = 8"
| "FactKind_rank FactKind.Diagnostic = 9"
| "FactKind_rank FactKind.ArchitectureRule = 10"
| "FactKind_rank FactKind.Language = 11"
| "FactKind_rank FactKind.Framework = 12"
| "FactKind_rank FactKind.EntryPoint = 13"

lemma FactKind_rank_inj: "FactKind_rank a = FactKind_rank b \<Longrightarrow> a = b"
  by (cases a; cases b; simp)

instantiation FactKind :: linorder
begin

definition less_eq_FactKind :: "FactKind \<Rightarrow> FactKind \<Rightarrow> bool" where
  "less_eq_FactKind a b \<longleftrightarrow> FactKind_rank a \<le> FactKind_rank b"

definition less_FactKind :: "FactKind \<Rightarrow> FactKind \<Rightarrow> bool" where
  "less_FactKind a b \<longleftrightarrow> FactKind_rank a < FactKind_rank b"

instance
  by standard (auto simp: less_eq_FactKind_def less_FactKind_def intro: FactKind_rank_inj)

end

fun Severity_rank :: "Severity \<Rightarrow> nat" where
  "Severity_rank Severity.Info = 0"
| "Severity_rank Severity.Warning = 1"
| "Severity_rank Severity.Error = 2"
| "Severity_rank Severity.Fatal = 3"

lemma Severity_rank_inj: "Severity_rank a = Severity_rank b \<Longrightarrow> a = b"
  by (cases a; cases b; simp)

instantiation Severity :: linorder
begin

definition less_eq_Severity :: "Severity \<Rightarrow> Severity \<Rightarrow> bool" where
  "less_eq_Severity a b \<longleftrightarrow> Severity_rank a \<le> Severity_rank b"

definition less_Severity :: "Severity \<Rightarrow> Severity \<Rightarrow> bool" where
  "less_Severity a b \<longleftrightarrow> Severity_rank a < Severity_rank b"

instance
  by standard (auto simp: less_eq_Severity_def less_Severity_def intro: Severity_rank_inj)

end

fun ValidationRule_rank :: "ValidationRule \<Rightarrow> nat" where
  "ValidationRule_rank ValidationRule.DuplicateIds = 0"
| "ValidationRule_rank ValidationRule.DuplicateRelationships = 1"
| "ValidationRule_rank ValidationRule.InvalidReference = 2"
| "ValidationRule_rank ValidationRule.SelfReference = 3"
| "ValidationRule_rank ValidationRule.SelfDependency = 4"
| "ValidationRule_rank ValidationRule.BrokenLocation = 5"
| "ValidationRule_rank ValidationRule.InvalidVisibility = 6"
| "ValidationRule_rank ValidationRule.OrphanSymbol = 7"

lemma ValidationRule_rank_inj: "ValidationRule_rank a = ValidationRule_rank b \<Longrightarrow> a = b"
  by (cases a; cases b; simp)

instantiation ValidationRule :: linorder
begin

definition less_eq_ValidationRule :: "ValidationRule \<Rightarrow> ValidationRule \<Rightarrow> bool" where
  "less_eq_ValidationRule a b \<longleftrightarrow> ValidationRule_rank a \<le> ValidationRule_rank b"

definition less_ValidationRule :: "ValidationRule \<Rightarrow> ValidationRule \<Rightarrow> bool" where
  "less_ValidationRule a b \<longleftrightarrow> ValidationRule_rank a < ValidationRule_rank b"

instance
  by standard (auto simp: less_eq_ValidationRule_def less_ValidationRule_def intro: ValidationRule_rank_inj)

end

fun FactValidationRule_rank :: "FactValidationRule \<Rightarrow> nat" where
  "FactValidationRule_rank FactValidationRule.DuplicateFacts = 0"
| "FactValidationRule_rank FactValidationRule.BrokenIndex = 1"
| "FactValidationRule_rank FactValidationRule.MissingIds = 2"
| "FactValidationRule_rank FactValidationRule.OrphanRecords = 3"
| "FactValidationRule_rank FactValidationRule.SchemaMismatch = 4"

lemma FactValidationRule_rank_inj: "FactValidationRule_rank a = FactValidationRule_rank b \<Longrightarrow> a = b"
  by (cases a; cases b; simp)

instantiation FactValidationRule :: linorder
begin

definition less_eq_FactValidationRule :: "FactValidationRule \<Rightarrow> FactValidationRule \<Rightarrow> bool" where
  "less_eq_FactValidationRule a b \<longleftrightarrow> FactValidationRule_rank a \<le> FactValidationRule_rank b"

definition less_FactValidationRule :: "FactValidationRule \<Rightarrow> FactValidationRule \<Rightarrow> bool" where
  "less_FactValidationRule a b \<longleftrightarrow> FactValidationRule_rank a < FactValidationRule_rank b"

instance
  by standard (auto simp: less_eq_FactValidationRule_def less_FactValidationRule_def intro: FactValidationRule_rank_inj)

end

section \<open>The contract of a named enum\<close>

locale named_enum =
  fixes as_str :: "'e \<Rightarrow> string"
    and parse :: "string \<Rightarrow> 'e option"
    and variants :: "'e list"
  assumes parse_as_str: "parse (as_str e) = Some e"
    and parse_SomeD: "parse s = Some e \<Longrightarrow> s = as_str e"
    and variants_complete: "e \<in> set variants"
    and variants_distinct: "distinct variants"
begin

lemma parse_iff: "parse s = Some e \<longleftrightarrow> s = as_str e"
  using parse_as_str parse_SomeD by blast

lemma as_str_inj: "as_str a = as_str b \<longleftrightarrow> a = b"
  using parse_as_str by (metis option.inject)

lemma parse_None_iff: "parse s = None \<longleftrightarrow> s \<notin> as_str ` set variants"
  using parse_iff variants_complete by (metis imageE image_eqI option.exhaust option.distinct(1))

lemma names_distinct: "distinct (map as_str variants)"
  using variants_distinct by (simp add: distinct_map inj_on_def as_str_inj)

text \<open>The whole contract in one statement: printing and parsing are inverse bijections.\<close>

lemma roundtrip:
  "(\<forall>e. parse (as_str e) = Some e) \<and> (\<forall>s e. parse s = Some e \<longrightarrow> as_str e = s) \<and>
   (\<forall>s. parse s = None \<longleftrightarrow> s \<notin> as_str ` set variants)"
  using parse_as_str parse_SomeD parse_None_iff by blast

end

text \<open>An enum whose parser is the table of its own names satisfies the contract.\<close>

lemma named_enum_table:
  assumes "\<And>s. parse s = map_of (map (\<lambda>e. (as_str e, e)) variants) s"
    and "distinct (map as_str variants)"
    and "\<And>e. e \<in> set variants"
  shows "named_enum as_str parse variants"
proof
  fix e s
  have inj: "inj_on as_str (set variants)" using assms(2) by (simp add: distinct_map)
  have "map fst (map (\<lambda>e. (as_str e, e)) variants) = map as_str variants" by simp
  with assms(2) have *: "parse s = Some e \<longleftrightarrow> (s, e) \<in> set (map (\<lambda>e. (as_str e, e)) variants)" for s e
    by (simp only: assms(1) map_of_eq_Some_iff)
  then show "parse (as_str e) = Some e" using assms(3) by auto
  show "parse s = Some e \<Longrightarrow> s = as_str e" using * by auto
  show "e \<in> set variants" by (rule assms(3))
  show "distinct variants" using assms(2) by (simp add: distinct_map)
qed

interpretation fact_kind: named_enum FactKind_as_str FactKind_parse FactKind_ALL
  by (rule named_enum_table; (simp add: FactKind_parse_def FactKind_ALL_def)?; case_tac e; simp)

interpretation severity_enum: named_enum Severity_as_str Severity_parse Severity_ALL
  by (rule named_enum_table; (simp add: Severity_parse_def Severity_ALL_def)?; case_tac e; simp)

interpretation visibility_enum: named_enum Visibility_as_str Visibility_parse Visibility_ALL
  by (rule named_enum_table; (simp add: Visibility_parse_def Visibility_ALL_def)?; case_tac e; simp)

interpretation symbol_kind: named_enum SymbolKind_as_str SymbolKind_parse SymbolKind_ALL
  by (rule named_enum_table; (simp add: SymbolKind_parse_def SymbolKind_ALL_def)?; case_tac e; simp)

interpretation relationship_kind: named_enum RelationshipKind_as_str RelationshipKind_parse RelationshipKind_ALL
  by (rule named_enum_table; (simp add: RelationshipKind_parse_def RelationshipKind_ALL_def)?; case_tac e; simp)

interpretation dependency_kind: named_enum DependencyKind_as_str DependencyKind_parse DependencyKind_ALL
  by (rule named_enum_table; (simp add: DependencyKind_parse_def DependencyKind_ALL_def)?; case_tac e; simp)

interpretation build_target_kind: named_enum BuildTargetKind_as_str BuildTargetKind_parse BuildTargetKind_ALL
  by (rule named_enum_table; (simp add: BuildTargetKind_parse_def BuildTargetKind_ALL_def)?; case_tac e; simp)

interpretation entry_point_kind: named_enum EntryPointKind_as_str EntryPointKind_parse EntryPointKind_ALL
  by (rule named_enum_table; (simp add: EntryPointKind_parse_def EntryPointKind_ALL_def)?; case_tac e; simp)

interpretation validation_rule: named_enum ValidationRule_as_str ValidationRule_parse ValidationRule_ALL
  by (rule named_enum_table; (simp add: ValidationRule_parse_def ValidationRule_ALL_def)?; case_tac e; simp)

interpretation fact_validation_rule: named_enum FactValidationRule_as_str FactValidationRule_parse FactValidationRule_ALL
  by (rule named_enum_table; (simp add: FactValidationRule_parse_def FactValidationRule_ALL_def)?; case_tac e; simp)

section \<open>Properties\<close>

text \<open>Every enum of the fact model prints and parses as inverse bijections. A string parses to a
  variant exactly when it is the name of that variant, for all ten enums.\<close>

theorem enum_names_roundtrip:
  "(FactKind_parse s = Some e1 \<longleftrightarrow> s = FactKind_as_str e1) \<and>
   (Severity_parse s = Some e2 \<longleftrightarrow> s = Severity_as_str e2) \<and>
   (Visibility_parse s = Some e3 \<longleftrightarrow> s = Visibility_as_str e3) \<and>
   (SymbolKind_parse s = Some e4 \<longleftrightarrow> s = SymbolKind_as_str e4) \<and>
   (RelationshipKind_parse s = Some e5 \<longleftrightarrow> s = RelationshipKind_as_str e5) \<and>
   (DependencyKind_parse s = Some e6 \<longleftrightarrow> s = DependencyKind_as_str e6) \<and>
   (BuildTargetKind_parse s = Some e7 \<longleftrightarrow> s = BuildTargetKind_as_str e7) \<and>
   (EntryPointKind_parse s = Some e8 \<longleftrightarrow> s = EntryPointKind_as_str e8) \<and>
   (ValidationRule_parse s = Some e9 \<longleftrightarrow> s = ValidationRule_as_str e9) \<and>
   (FactValidationRule_parse s = Some e10 \<longleftrightarrow> s = FactValidationRule_as_str e10)"
  by (simp add: fact_kind.parse_iff severity_enum.parse_iff visibility_enum.parse_iff symbol_kind.parse_iff
      relationship_kind.parse_iff dependency_kind.parse_iff build_target_kind.parse_iff
      entry_point_kind.parse_iff validation_rule.parse_iff fact_validation_rule.parse_iff)

end
