(* ===== verification/Fact_Ids.thy ===== *)
theory Fact_Ids
  imports Fact_Types
begin

text \<open>
  Opaque, strongly typed ids (\<^verbatim>\<open>engineering_facts/ids.rs\<close>). The macro \<open>opaque_id!\<close> stamps out
  one newtype over \<open>String\<close> per entity; here it is one datatype with a phantom parameter, and
  the fourteen id types are its instances at fourteen marker types, so ids of different
  entities have different types as in the source. \<open>FactId\<close> is the union of the fourteen, with
  the derived order: by variant in order of declaration, then by the opaque string.
\<close>

section \<open>Typed ids\<close>

datatype 'k opaque_id = OpaqueId (id_str: string)

datatype Workspace_entity = Workspace_entity
datatype Package_entity = Package_entity
datatype Module_entity = Module_entity
datatype Symbol_entity = Symbol_entity
datatype Test_entity = Test_entity
datatype BuildTarget_entity = BuildTarget_entity
datatype Dependency_entity = Dependency_entity
datatype Relationship_entity = Relationship_entity
datatype Reference_entity = Reference_entity
datatype Diagnostic_entity = Diagnostic_entity
datatype ArchitectureRule_entity = ArchitectureRule_entity
datatype Language_entity = Language_entity
datatype Framework_entity = Framework_entity
datatype EntryPoint_entity = EntryPoint_entity

type_synonym WorkspaceId = "Workspace_entity opaque_id"
type_synonym PackageId = "Package_entity opaque_id"
type_synonym ModuleId = "Module_entity opaque_id"
type_synonym SymbolId = "Symbol_entity opaque_id"
type_synonym TestId = "Test_entity opaque_id"
type_synonym BuildTargetId = "BuildTarget_entity opaque_id"
type_synonym DependencyId = "Dependency_entity opaque_id"
type_synonym RelationshipId = "Relationship_entity opaque_id"
type_synonym ReferenceId = "Reference_entity opaque_id"
type_synonym DiagnosticId = "Diagnostic_entity opaque_id"
type_synonym ArchitectureRuleId = "ArchitectureRule_entity opaque_id"
type_synonym LanguageId = "Language_entity opaque_id"
type_synonym FrameworkId = "Framework_entity opaque_id"
type_synonym EntryPointId = "EntryPoint_entity opaque_id"

text \<open>The derived order of a newtype is the order of its field.\<close>

instantiation opaque_id :: (type) linorder
begin

definition less_eq_opaque_id :: "'a opaque_id \<Rightarrow> 'a opaque_id \<Rightarrow> bool" where
  "less_eq_opaque_id a b \<longleftrightarrow> id_str a \<le> id_str b"

definition less_opaque_id :: "'a opaque_id \<Rightarrow> 'a opaque_id \<Rightarrow> bool" where
  "less_opaque_id a b \<longleftrightarrow> id_str a < id_str b"

instance
  by standard (auto simp: less_eq_opaque_id_def less_opaque_id_def intro: opaque_id.expand)

end

lemma id_str_inj [simp]: "id_str a = id_str b \<longleftrightarrow> a = b"
  by (cases a; cases b) simp

lemma mono_id_str: "sorted (map id_str xs) \<longleftrightarrow> sorted xs"
  by (induction xs) (simp_all add: less_eq_opaque_id_def)

section \<open>The union id\<close>

datatype FactId =
    Workspace WorkspaceId
  | Package PackageId
  | Module ModuleId
  | Symbol SymbolId
  | Test TestId
  | BuildTarget BuildTargetId
  | Dependency DependencyId
  | Relationship RelationshipId
  | Reference ReferenceId
  | Diagnostic DiagnosticId
  | ArchitectureRule ArchitectureRuleId
  | Language LanguageId
  | Framework FrameworkId
  | EntryPoint EntryPointId

fun FactId_new :: "FactKind \<Rightarrow> string \<Rightarrow> FactId" where
  "FactId_new FactKind.Workspace v = FactId.Workspace (OpaqueId v)"
| "FactId_new FactKind.Package v = FactId.Package (OpaqueId v)"
| "FactId_new FactKind.Module v = FactId.Module (OpaqueId v)"
| "FactId_new FactKind.Symbol v = FactId.Symbol (OpaqueId v)"
| "FactId_new FactKind.Test v = FactId.Test (OpaqueId v)"
| "FactId_new FactKind.BuildTarget v = FactId.BuildTarget (OpaqueId v)"
| "FactId_new FactKind.Dependency v = FactId.Dependency (OpaqueId v)"
| "FactId_new FactKind.Relationship v = FactId.Relationship (OpaqueId v)"
| "FactId_new FactKind.Reference v = FactId.Reference (OpaqueId v)"
| "FactId_new FactKind.Diagnostic v = FactId.Diagnostic (OpaqueId v)"
| "FactId_new FactKind.ArchitectureRule v = FactId.ArchitectureRule (OpaqueId v)"
| "FactId_new FactKind.Language v = FactId.Language (OpaqueId v)"
| "FactId_new FactKind.Framework v = FactId.Framework (OpaqueId v)"
| "FactId_new FactKind.EntryPoint v = FactId.EntryPoint (OpaqueId v)"

fun FactId_kind :: "FactId \<Rightarrow> FactKind" where
  "FactId_kind (FactId.Workspace _) = FactKind.Workspace"
| "FactId_kind (FactId.Package _) = FactKind.Package"
| "FactId_kind (FactId.Module _) = FactKind.Module"
| "FactId_kind (FactId.Symbol _) = FactKind.Symbol"
| "FactId_kind (FactId.Test _) = FactKind.Test"
| "FactId_kind (FactId.BuildTarget _) = FactKind.BuildTarget"
| "FactId_kind (FactId.Dependency _) = FactKind.Dependency"
| "FactId_kind (FactId.Relationship _) = FactKind.Relationship"
| "FactId_kind (FactId.Reference _) = FactKind.Reference"
| "FactId_kind (FactId.Diagnostic _) = FactKind.Diagnostic"
| "FactId_kind (FactId.ArchitectureRule _) = FactKind.ArchitectureRule"
| "FactId_kind (FactId.Language _) = FactKind.Language"
| "FactId_kind (FactId.Framework _) = FactKind.Framework"
| "FactId_kind (FactId.EntryPoint _) = FactKind.EntryPoint"

fun FactId_as_str :: "FactId \<Rightarrow> string" where
  "FactId_as_str (FactId.Workspace i) = id_str i"
| "FactId_as_str (FactId.Package i) = id_str i"
| "FactId_as_str (FactId.Module i) = id_str i"
| "FactId_as_str (FactId.Symbol i) = id_str i"
| "FactId_as_str (FactId.Test i) = id_str i"
| "FactId_as_str (FactId.BuildTarget i) = id_str i"
| "FactId_as_str (FactId.Dependency i) = id_str i"
| "FactId_as_str (FactId.Relationship i) = id_str i"
| "FactId_as_str (FactId.Reference i) = id_str i"
| "FactId_as_str (FactId.Diagnostic i) = id_str i"
| "FactId_as_str (FactId.ArchitectureRule i) = id_str i"
| "FactId_as_str (FactId.Language i) = id_str i"
| "FactId_as_str (FactId.Framework i) = id_str i"
| "FactId_as_str (FactId.EntryPoint i) = id_str i"

text \<open>The position of a variant in the declaration of \<open>FactId\<close>.\<close>

fun FactId_variant :: "FactId \<Rightarrow> nat" where
  "FactId_variant (FactId.Workspace _) = 0"
| "FactId_variant (FactId.Package _) = 1"
| "FactId_variant (FactId.Module _) = 2"
| "FactId_variant (FactId.Symbol _) = 3"
| "FactId_variant (FactId.Test _) = 4"
| "FactId_variant (FactId.BuildTarget _) = 5"
| "FactId_variant (FactId.Dependency _) = 6"
| "FactId_variant (FactId.Relationship _) = 7"
| "FactId_variant (FactId.Reference _) = 8"
| "FactId_variant (FactId.Diagnostic _) = 9"
| "FactId_variant (FactId.ArchitectureRule _) = 10"
| "FactId_variant (FactId.Language _) = 11"
| "FactId_variant (FactId.Framework _) = 12"
| "FactId_variant (FactId.EntryPoint _) = 13"

lemma FactId_variant_kind: "FactId_variant a = FactId_variant b \<longleftrightarrow> FactId_kind a = FactId_kind b"
  by (cases a; cases b; simp)

lemma FactId_eqI: "FactId_kind a = FactId_kind b \<Longrightarrow> FactId_as_str a = FactId_as_str b \<Longrightarrow> a = b"
  by (cases a; cases b; simp)

lemma FactId_eq_iff: "a = b \<longleftrightarrow> FactId_kind a = FactId_kind b \<and> FactId_as_str a = FactId_as_str b"
  by (auto intro: FactId_eqI)

instantiation FactId :: linorder
begin

definition less_eq_FactId :: "FactId \<Rightarrow> FactId \<Rightarrow> bool" where
  "less_eq_FactId a b \<longleftrightarrow> (FactId_variant a, FactId_as_str a) \<le> (FactId_variant b, FactId_as_str b)"

definition less_FactId :: "FactId \<Rightarrow> FactId \<Rightarrow> bool" where
  "less_FactId a b \<longleftrightarrow> (FactId_variant a, FactId_as_str a) < (FactId_variant b, FactId_as_str b)"

instance
proof
  fix x y z :: FactId
  show "x < y \<longleftrightarrow> x \<le> y \<and> \<not> y \<le> x"
    unfolding less_FactId_def less_eq_FactId_def by (rule less_le_not_le)
  show "x \<le> x" unfolding less_eq_FactId_def by (rule order_refl)
  show "x \<le> y \<Longrightarrow> y \<le> z \<Longrightarrow> x \<le> z"
    unfolding less_eq_FactId_def by (rule order_trans)
  show "x \<le> y \<Longrightarrow> y \<le> x \<Longrightarrow> x = y"
    unfolding less_eq_FactId_def by (drule (1) antisym) (auto simp: FactId_variant_kind intro: FactId_eqI)
  show "x \<le> y \<or> y \<le> x" unfolding less_eq_FactId_def by (rule linear)
qed

end

lemma FactId_new_kind [simp]: "FactId_kind (FactId_new k v) = k"
  by (cases k) simp_all

lemma FactId_new_as_str [simp]: "FactId_as_str (FactId_new k v) = v"
  by (cases k) simp_all

lemma FactId_new_collapse [simp]: "FactId_new (FactId_kind i) (FactId_as_str i) = i"
  by (cases i) simp_all

lemma FactId_new_inj: "FactId_new k v = FactId_new k' v' \<longleftrightarrow> k = k' \<and> v = v'"
  by (auto simp: FactId_eq_iff)

section \<open>Decomposition\<close>

text \<open>A fact id carries exactly its kind and its opaque string: building an id from a kind and a
  string gives both back, every id is built from its own kind and string, and the derived order
  compares first the variant and then the string.\<close>

lemma fact_id_decomposition:
  "FactId_kind (FactId_new k v) = k \<and> FactId_as_str (FactId_new k v) = v \<and>
   FactId_new (FactId_kind i) (FactId_as_str i) = i \<and>
   (i \<le> j \<longleftrightarrow> FactId_variant i < FactId_variant j \<or>
      FactId_kind i = FactId_kind j \<and> FactId_as_str i \<le> FactId_as_str j)"
  by (auto simp: less_eq_FactId_def FactId_variant_kind)

end
