(* ===== verification/Fact_Entities.thy ===== *)
theory Fact_Entities
  imports Fact_Ids
begin

text \<open>
  The immutable value types of the Engineering Facts Model: source locations
  (\<^verbatim>\<open>location.rs\<close>), canonical metadata and its builder (\<^verbatim>\<open>metadata.rs\<close>), and the fourteen fact
  structs with their constructors (one source file each). Records keep the source's type and
  field names; field names repeat between structs and are written qualified
  (\<open>PackageFact.workspace\<close>). The fields \<open>start\<close>, \<open>file\<close>, \<open>end\<close>, \<open>key\<close>, \<open>value\<close>, \<open>from\<close> and \<open>to\<close> carry
  a prefix, since they are reserved words or clash with them. \<open>u32\<close> and \<open>u64\<close> fields are words.

  The lemmas show that metadata is canonical: the built value depends on the sets of tags and
  attributes only, tag membership by binary search is exact, and \<open>get\<close> returns the least value
  recorded under a key.
\<close>

section \<open>Locations\<close>

record Position =
  line :: "32 word"
  column :: "32 word"

definition Position_new :: "32 word \<Rightarrow> 32 word \<Rightarrow> Position" where
  "Position_new l c = \<lparr>Position.line = l, column = c\<rparr>"

record Span =
  span_start :: Position
  span_end :: Position

definition Span_new :: "Position \<Rightarrow> Position \<Rightarrow> Span" where
  "Span_new s e = \<lparr>span_start = s, span_end = e\<rparr>"

record SourceLocation =
  workspace :: "WorkspaceId option"
  package :: "PackageId option"
  module :: "ModuleId option"
  loc_file :: "string option"
  line :: "32 word option"
  column :: "32 word option"
  span :: "Span option"

definition SourceLocation_new :: SourceLocation where
  "SourceLocation_new = \<lparr>SourceLocation.workspace = None, package = None, module = None,
     loc_file = None, line = None, column = None, span = None\<rparr>"

definition SourceLocation_file :: "string \<Rightarrow> SourceLocation" where
  "SourceLocation_file f = \<lparr>SourceLocation.workspace = None, package = None, module = None,
     loc_file = Some f, line = None, column = None, span = None\<rparr>"

definition SourceLocation_with_workspace :: "SourceLocation \<Rightarrow> WorkspaceId \<Rightarrow> SourceLocation" where
  "SourceLocation_with_workspace l w = l\<lparr>SourceLocation.workspace := Some w\<rparr>"

definition SourceLocation_with_package :: "SourceLocation \<Rightarrow> PackageId \<Rightarrow> SourceLocation" where
  "SourceLocation_with_package l p = l\<lparr>SourceLocation.package := Some p\<rparr>"

definition SourceLocation_with_module :: "SourceLocation \<Rightarrow> ModuleId \<Rightarrow> SourceLocation" where
  "SourceLocation_with_module l m = l\<lparr>SourceLocation.module := Some m\<rparr>"

definition SourceLocation_with_file :: "SourceLocation \<Rightarrow> string \<Rightarrow> SourceLocation" where
  "SourceLocation_with_file l f = l\<lparr>SourceLocation.loc_file := Some f\<rparr>"

definition SourceLocation_with_point :: "SourceLocation \<Rightarrow> 32 word \<Rightarrow> 32 word \<Rightarrow> SourceLocation" where
  "SourceLocation_with_point l n c = l\<lparr>SourceLocation.line := Some n, SourceLocation.column := Some c\<rparr>"

definition SourceLocation_with_span :: "SourceLocation \<Rightarrow> Span \<Rightarrow> SourceLocation" where
  "SourceLocation_with_span l s = l\<lparr>SourceLocation.span := Some s\<rparr>"

definition SourceLocation_is_empty :: "SourceLocation \<Rightarrow> bool" where
  "SourceLocation_is_empty l \<longleftrightarrow>
     SourceLocation.workspace l = None \<and> SourceLocation.package l = None \<and>
     SourceLocation.module l = None \<and> SourceLocation.loc_file l = None \<and>
     SourceLocation.line l = None \<and> SourceLocation.column l = None \<and>
     SourceLocation.span l = None"

section \<open>Metadata\<close>

datatype Tag = Tag (tag_str: string)

instantiation Tag :: linorder
begin

definition less_eq_Tag :: "Tag \<Rightarrow> Tag \<Rightarrow> bool" where
  "less_eq_Tag a b \<longleftrightarrow> tag_str a \<le> tag_str b"

definition less_Tag :: "Tag \<Rightarrow> Tag \<Rightarrow> bool" where
  "less_Tag a b \<longleftrightarrow> tag_str a < tag_str b"

instance
  by standard (auto simp: less_eq_Tag_def less_Tag_def intro: Tag.expand)

end

record Attribute =
  attr_key :: string
  attr_value :: string

record FactMetadata =
  tags :: "Tag list"
  attributes :: "Attribute list"
  description :: "string option"
  language :: "string option"

definition FactMetadata_new :: FactMetadata where
  "FactMetadata_new = \<lparr>FactMetadata.tags = [], attributes = [], description = None, language = None\<rparr>"

definition FactMetadata_is_empty :: "FactMetadata \<Rightarrow> bool" where
  "FactMetadata_is_empty m \<longleftrightarrow>
     FactMetadata.tags m = [] \<and> FactMetadata.attributes m = [] \<and>
     FactMetadata.description m = None \<and> FactMetadata.language m = None"

definition FactMetadata_has_tag :: "FactMetadata \<Rightarrow> string \<Rightarrow> bool" where
  "FactMetadata_has_tag m t \<longleftrightarrow>
     (case binary_search_by (\<lambda>x. cmp (tag_str x) t) (FactMetadata.tags m) of
        Inl _ \<Rightarrow> False | Inr _ \<Rightarrow> True)"

definition FactMetadata_get :: "FactMetadata \<Rightarrow> string \<Rightarrow> string option" where
  "FactMetadata_get m k =
     (let idx = partition_point (\<lambda>a. attr_key a < k) (FactMetadata.attributes m)
      in map_option attr_value
           (option_filter (\<lambda>a. attr_key a = k) (vec_get (FactMetadata.attributes m) idx)))"

record FactMetadataBuilder =
  tags :: "Tag list"
  attributes :: "Attribute list"
  description :: "string option"
  language :: "string option"

definition FactMetadataBuilder_new :: FactMetadataBuilder where
  "FactMetadataBuilder_new =
     \<lparr>FactMetadataBuilder.tags = [], attributes = [], description = None, language = None\<rparr>"

definition FactMetadataBuilder_tag :: "FactMetadataBuilder \<Rightarrow> string \<Rightarrow> FactMetadataBuilder" where
  "FactMetadataBuilder_tag b t =
     b\<lparr>FactMetadataBuilder.tags := FactMetadataBuilder.tags b @ [Tag t]\<rparr>"

definition FactMetadataBuilder_attr :: "FactMetadataBuilder \<Rightarrow> string \<Rightarrow> string \<Rightarrow> FactMetadataBuilder" where
  "FactMetadataBuilder_attr b k v =
     b\<lparr>FactMetadataBuilder.attributes :=
         FactMetadataBuilder.attributes b @ [\<lparr>attr_key = k, attr_value = v\<rparr>]\<rparr>"

definition FactMetadataBuilder_description :: "FactMetadataBuilder \<Rightarrow> string \<Rightarrow> FactMetadataBuilder" where
  "FactMetadataBuilder_description b d = b\<lparr>FactMetadataBuilder.description := Some d\<rparr>"

definition FactMetadataBuilder_language :: "FactMetadataBuilder \<Rightarrow> string \<Rightarrow> FactMetadataBuilder" where
  "FactMetadataBuilder_language b l = b\<lparr>FactMetadataBuilder.language := Some l\<rparr>"

definition attr_pair :: "Attribute \<Rightarrow> string \<times> string" where
  "attr_pair a = (attr_key a, attr_value a)"

definition FactMetadataBuilder_build :: "FactMetadataBuilder \<Rightarrow> FactMetadata" where
  "FactMetadataBuilder_build b =
     \<lparr>FactMetadata.tags = sort_dedup (FactMetadataBuilder.tags b),
      attributes = remdups_adj (sort_key attr_pair (FactMetadataBuilder.attributes b)),
      description = FactMetadataBuilder.description b,
      language = FactMetadataBuilder.language b\<rparr>"

section \<open>The fourteen fact structs\<close>

record WorkspaceFact =
  id :: WorkspaceId
  name :: string
  root :: "string option"
  packages :: "PackageId list"
  metadata :: FactMetadata

definition WorkspaceFact_new :: "WorkspaceId \<Rightarrow> string \<Rightarrow> WorkspaceFact" where
  "WorkspaceFact_new i n = \<lparr>WorkspaceFact.id = i, name = n, root = None, packages = [],
     metadata = FactMetadata_new\<rparr>"

record PackageFact =
  id :: PackageId
  name :: string
  version :: "string option"
  workspace :: "WorkspaceId option"
  language :: "string option"
  build_targets :: "BuildTargetId list"
  metadata :: FactMetadata

definition PackageFact_new :: "PackageId \<Rightarrow> string \<Rightarrow> PackageFact" where
  "PackageFact_new i n = \<lparr>PackageFact.id = i, name = n, version = None, workspace = None,
     language = None, build_targets = [], metadata = FactMetadata_new\<rparr>"

record ApiSurface =
  exports :: "SymbolId list"
  entry_points :: "SymbolId list"

definition ApiSurface_empty :: ApiSurface where
  "ApiSurface_empty = \<lparr>ApiSurface.exports = [], entry_points = []\<rparr>"

definition ApiSurface_is_empty :: "ApiSurface \<Rightarrow> bool" where
  "ApiSurface_is_empty a \<longleftrightarrow> ApiSurface.exports a = [] \<and> ApiSurface.entry_points a = []"

record ModuleFact =
  id :: ModuleId
  name :: string
  package :: "PackageId option"
  path :: "string option"
  visibility :: Visibility
  location :: SourceLocation
  api :: ApiSurface
  metadata :: FactMetadata

definition ModuleFact_new :: "ModuleId \<Rightarrow> string \<Rightarrow> ModuleFact" where
  "ModuleFact_new i n = \<lparr>ModuleFact.id = i, name = n, package = None, path = None,
     visibility = Visibility.Public, location = SourceLocation_new, api = ApiSurface_empty,
     metadata = FactMetadata_new\<rparr>"

record SymbolFact =
  id :: SymbolId
  name :: string
  kind :: SymbolKind
  visibility :: Visibility
  location :: SourceLocation
  module :: "ModuleId option"
  signature :: "string option"
  metadata :: FactMetadata

definition SymbolFact_new :: "SymbolId \<Rightarrow> string \<Rightarrow> SymbolKind \<Rightarrow> SymbolFact" where
  "SymbolFact_new i n k = \<lparr>SymbolFact.id = i, name = n, kind = k,
     visibility = Visibility.Unknown, location = SourceLocation_new, module = None,
     signature = None, metadata = FactMetadata_new\<rparr>"

record TestFact =
  id :: TestId
  name :: string
  target :: "FactId option"
  tested :: "SymbolId list"
  location :: "SourceLocation option"
  metadata :: FactMetadata

definition TestFact_new :: "TestId \<Rightarrow> string \<Rightarrow> TestFact" where
  "TestFact_new i n = \<lparr>TestFact.id = i, name = n, target = None, tested = [], location = None,
     metadata = FactMetadata_new\<rparr>"

record BuildTargetFact =
  id :: BuildTargetId
  name :: string
  kind :: BuildTargetKind
  language :: "string option"
  package :: "PackageId option"
  metadata :: FactMetadata

definition BuildTargetFact_new :: "BuildTargetId \<Rightarrow> string \<Rightarrow> BuildTargetKind \<Rightarrow> BuildTargetFact" where
  "BuildTargetFact_new i n k = \<lparr>BuildTargetFact.id = i, name = n, kind = k, language = None,
     package = None, metadata = FactMetadata_new\<rparr>"

record DependencyFact =
  id :: DependencyId
  kind :: DependencyKind
  source :: FactId
  target :: FactId
  version_constraint :: "string option"
  metadata :: FactMetadata

definition DependencyFact_new :: "DependencyId \<Rightarrow> FactId \<Rightarrow> FactId \<Rightarrow> DependencyFact" where
  "DependencyFact_new i s t = \<lparr>DependencyFact.id = i, kind = DependencyKind.Direct, source = s,
     target = t, version_constraint = None, metadata = FactMetadata_new\<rparr>"

record RelationshipFact =
  id :: RelationshipId
  kind :: RelationshipKind
  source :: FactId
  target :: FactId
  location :: "SourceLocation option"
  metadata :: FactMetadata

definition RelationshipFact_new ::
    "RelationshipId \<Rightarrow> RelationshipKind \<Rightarrow> FactId \<Rightarrow> FactId \<Rightarrow> RelationshipFact" where
  "RelationshipFact_new i k s t = \<lparr>RelationshipFact.id = i, kind = k, source = s, target = t,
     location = None, metadata = FactMetadata_new\<rparr>"

record ReferenceFact =
  id :: ReferenceId
  referrer :: FactId
  target :: FactId
  location :: "SourceLocation option"
  metadata :: FactMetadata

definition ReferenceFact_new :: "ReferenceId \<Rightarrow> FactId \<Rightarrow> FactId \<Rightarrow> ReferenceFact" where
  "ReferenceFact_new i r t = \<lparr>ReferenceFact.id = i, referrer = r, target = t, location = None,
     metadata = FactMetadata_new\<rparr>"

record DiagnosticFact =
  id :: DiagnosticId
  severity :: Severity
  message :: string
  code :: "string option"
  location :: "SourceLocation option"
  related :: "FactId list"
  metadata :: FactMetadata

definition DiagnosticFact_new :: "DiagnosticId \<Rightarrow> Severity \<Rightarrow> string \<Rightarrow> DiagnosticFact" where
  "DiagnosticFact_new i s msg = \<lparr>DiagnosticFact.id = i, severity = s, message = msg, code = None,
     location = None, related = [], metadata = FactMetadata_new\<rparr>"

record ArchitectureRuleFact =
  id :: ArchitectureRuleId
  name :: string
  rule_from :: "FactId option"
  rule_to :: "FactId option"
  description :: "string option"
  metadata :: FactMetadata

definition ArchitectureRuleFact_new :: "ArchitectureRuleId \<Rightarrow> string \<Rightarrow> ArchitectureRuleFact" where
  "ArchitectureRuleFact_new i n = \<lparr>ArchitectureRuleFact.id = i, name = n, rule_from = None,
     rule_to = None, description = None, metadata = FactMetadata_new\<rparr>"

record LanguageFact =
  id :: LanguageId
  name :: string
  file_count :: "64 word"
  line_count :: "64 word"
  metadata :: FactMetadata

definition LanguageFact_new :: "LanguageId \<Rightarrow> string \<Rightarrow> LanguageFact" where
  "LanguageFact_new i n = \<lparr>LanguageFact.id = i, name = n, file_count = 0, line_count = 0,
     metadata = FactMetadata_new\<rparr>"

record FrameworkFact =
  id :: FrameworkId
  name :: string
  ecosystem :: string
  evidence :: string
  scope_package :: "PackageId option"
  metadata :: FactMetadata

definition FrameworkFact_new :: "FrameworkId \<Rightarrow> string \<Rightarrow> string \<Rightarrow> string \<Rightarrow> FrameworkFact" where
  "FrameworkFact_new i n eco ev = \<lparr>FrameworkFact.id = i, name = n, ecosystem = eco, evidence = ev,
     scope_package = None, metadata = FactMetadata_new\<rparr>"

record EntryPointFact =
  id :: EntryPointId
  name :: string
  path :: string
  kind :: EntryPointKind
  language :: string
  package :: "PackageId option"
  metadata :: FactMetadata

definition EntryPointFact_new ::
    "EntryPointId \<Rightarrow> string \<Rightarrow> string \<Rightarrow> EntryPointKind \<Rightarrow> string \<Rightarrow> EntryPointFact" where
  "EntryPointFact_new i n p k l = \<lparr>EntryPointFact.id = i, name = n, path = p, kind = k,
     language = l, package = None, metadata = FactMetadata_new\<rparr>"

section \<open>Metadata is canonical\<close>

text \<open>What \<open>build\<close> promises: both vectors sorted and free of duplicates.\<close>

definition metadata_canonical :: "FactMetadata \<Rightarrow> bool" where
  "metadata_canonical m \<longleftrightarrow>
     sorted (FactMetadata.tags m) \<and> distinct (FactMetadata.tags m) \<and>
     sorted (map attr_pair (FactMetadata.attributes m)) \<and> distinct (FactMetadata.attributes m)"

lemma attr_pair_inj: "inj attr_pair"
  by (rule injI) (simp add: attr_pair_def)

lemma attr_pair_build:
  "map attr_pair (remdups_adj (sort_key attr_pair xs)) = sort_dedup (map attr_pair xs)"
  by (simp add: sort_dedup_def map_sort_key_self [symmetric] remdups_adj_map_injective attr_pair_inj)

lemma set_attributes_build:
  "set (FactMetadata.attributes (FactMetadataBuilder_build b)) = set (FactMetadataBuilder.attributes b)"
  by (simp add: FactMetadataBuilder_build_def)

lemma build_canonical: "metadata_canonical (FactMetadataBuilder_build b)"
proof -
  have "distinct (map attr_pair (FactMetadata.attributes (FactMetadataBuilder_build b)))"
    by (simp add: FactMetadataBuilder_build_def attr_pair_build)
  then have "distinct (FactMetadata.attributes (FactMetadataBuilder_build b))" by (simp add: distinct_map)
  then show ?thesis
    by (simp add: metadata_canonical_def FactMetadataBuilder_build_def attr_pair_build)
qed

lemma sorted_attr_keys:
  "sorted (map attr_pair xs) \<Longrightarrow> sorted (map attr_key xs)"
  by (induction xs) (auto simp: attr_pair_def)

lemma sorted_tag_str: "sorted (map tag_str xs) \<longleftrightarrow> sorted xs"
  by (induction xs) (simp_all add: less_eq_Tag_def)

lemma has_tag_iff:
  assumes "sorted (FactMetadata.tags m)"
  shows "FactMetadata_has_tag m t \<longleftrightarrow> Tag t \<in> set (FactMetadata.tags m)"
proof -
  have s: "sorted (map tag_str (FactMetadata.tags m))"
    using assms by (simp add: sorted_tag_str)
  have "FactMetadata_has_tag m t \<longleftrightarrow> lookup_by tag_str (FactMetadata.tags m) t \<noteq> None"
    by (simp add: FactMetadata_has_tag_def lookup_by_def split: sum.splits)
  also have "\<dots> \<longleftrightarrow> t \<in> tag_str ` set (FactMetadata.tags m)"
    using lookup_by_None_iff [OF s] by simp
  also have "\<dots> \<longleftrightarrow> Tag t \<in> set (FactMetadata.tags m)"
    by (metis Tag.collapse Tag.sel image_iff)
  finally show ?thesis .
qed

lemma get_eq_find:
  assumes "sorted (map attr_pair (FactMetadata.attributes m))"
  shows "FactMetadata_get m k = map_option attr_value (find (\<lambda>a. attr_key a = k) (FactMetadata.attributes m))"
  unfolding FactMetadata_get_def Let_def
  by (simp add: sorted_first_at_partition_point [OF sorted_attr_keys [OF assms]])

lemma find_sorted_least:
  assumes "sorted (map attr_pair xs)" "find (\<lambda>a. attr_key a = k) xs = Some a"
  shows "a \<in> set xs \<and> attr_key a = k \<and>
    (\<forall>b \<in> set xs. attr_key b = k \<longrightarrow> attr_value a \<le> attr_value b)"
  using assms by (induction xs) (auto simp: attr_pair_def split: if_splits)

section \<open>Properties\<close>

lemma build_cong:
  assumes "set (FactMetadataBuilder.tags b) = set (FactMetadataBuilder.tags b')"
    and "set (FactMetadataBuilder.attributes b) = set (FactMetadataBuilder.attributes b')"
    and "FactMetadataBuilder.description b = FactMetadataBuilder.description b'"
    and "FactMetadataBuilder.language b = FactMetadataBuilder.language b'"
  shows "FactMetadataBuilder_build b = FactMetadataBuilder_build b'"
proof -
  have "set (map attr_pair (FactMetadataBuilder.attributes b)) = set (map attr_pair (FactMetadataBuilder.attributes b'))"
    using assms(2) by simp
  then have "map attr_pair (FactMetadata.attributes (FactMetadataBuilder_build b)) =
    map attr_pair (FactMetadata.attributes (FactMetadataBuilder_build b'))"
    using sort_dedup_cong by (simp add: FactMetadataBuilder_build_def attr_pair_build del: set_map)
  then have "FactMetadata.attributes (FactMetadataBuilder_build b) = FactMetadata.attributes (FactMetadataBuilder_build b')"
    by (simp only: inj_map_eq_map [OF attr_pair_inj])
  moreover have "FactMetadata.tags (FactMetadataBuilder_build b) = FactMetadata.tags (FactMetadataBuilder_build b')"
    using sort_dedup_cong [OF assms(1)] by (simp add: FactMetadataBuilder_build_def)
  ultimately show ?thesis using assms(3,4) by (simp add: FactMetadataBuilder_build_def)
qed

text \<open>Metadata is canonical. Two builders holding the same sets of tags and attributes, whatever
  the order and the repetitions, and the same description and language freeze to equal
  metadata, whose vectors are sorted and free of duplicates.\<close>

theorem metadata_build_canonical:
  assumes "set (FactMetadataBuilder.tags b) = set (FactMetadataBuilder.tags b')"
    and "set (FactMetadataBuilder.attributes b) = set (FactMetadataBuilder.attributes b')"
    and "FactMetadataBuilder.description b = FactMetadataBuilder.description b'"
    and "FactMetadataBuilder.language b = FactMetadataBuilder.language b'"
  shows "FactMetadataBuilder_build b = FactMetadataBuilder_build b' \<and> metadata_canonical (FactMetadataBuilder_build b)"
  using build_cong [OF assms] build_canonical by simp

definition sample_builder :: FactMetadataBuilder where
  "sample_builder = FactMetadataBuilder_attr (FactMetadataBuilder_tag (FactMetadataBuilder_tag
     FactMetadataBuilder_new ''b'') ''a'') ''k'' ''v''"

definition sample_builder' :: FactMetadataBuilder where
  "sample_builder' = FactMetadataBuilder_tag (FactMetadataBuilder_attr (FactMetadataBuilder_tag
     (FactMetadataBuilder_tag FactMetadataBuilder_new ''a'') ''b'') ''k'' ''v'') ''a''"

lemmas sample_builder_defs = sample_builder_def sample_builder'_def FactMetadataBuilder_new_def
  FactMetadataBuilder_tag_def FactMetadataBuilder_attr_def

lemma metadata_build_canonical_witness:
  "sample_builder \<noteq> sample_builder' \<and>
   FactMetadataBuilder_build sample_builder = FactMetadataBuilder_build sample_builder' \<and>
   metadata_canonical (FactMetadataBuilder_build sample_builder)"
proof -
  have "sample_builder \<noteq> sample_builder'" by (simp add: sample_builder_defs)
  moreover have "set (FactMetadataBuilder.tags sample_builder) = set (FactMetadataBuilder.tags sample_builder')"
    by (auto simp: sample_builder_defs)
  moreover have "set (FactMetadataBuilder.attributes sample_builder) = set (FactMetadataBuilder.attributes sample_builder')"
    "FactMetadataBuilder.description sample_builder = FactMetadataBuilder.description sample_builder'"
    "FactMetadataBuilder.language sample_builder = FactMetadataBuilder.language sample_builder'"
    by (simp_all add: sample_builder_defs)
  ultimately show ?thesis using metadata_build_canonical [of sample_builder sample_builder'] by blast
qed

text \<open>Reading frozen metadata. The binary-searched \<open>has_tag\<close> holds exactly for the tags given to
  the builder, and \<open>get\<close> returns the least value recorded for a key, or nothing when the key was
  never set.\<close>

theorem metadata_lookup_exact:
  "(FactMetadata_has_tag (FactMetadataBuilder_build b) t \<longleftrightarrow> Tag t \<in> set (FactMetadataBuilder.tags b)) \<and>
   FactMetadata_get (FactMetadataBuilder_build b) k =
     (let vs = {attr_value a | a. a \<in> set (FactMetadataBuilder.attributes b) \<and> attr_key a = k}
      in if vs = {} then None else Some (Min vs))"
proof -
  let ?m = "FactMetadataBuilder_build b"
  let ?vs = "{attr_value a | a. a \<in> set (FactMetadataBuilder.attributes b) \<and> attr_key a = k}"
  note c = build_canonical [of b, unfolded metadata_canonical_def]
  have "FactMetadata_has_tag ?m t \<longleftrightarrow> Tag t \<in> set (FactMetadataBuilder.tags b)"
    using has_tag_iff [of ?m t] c by (simp add: FactMetadataBuilder_build_def)
  moreover have "FactMetadata_get ?m k = (if ?vs = {} then None else Some (Min ?vs))"
  proof (cases "find (\<lambda>a. attr_key a = k) (FactMetadata.attributes ?m)")
    case None
    then have "?vs = {}" by (auto simp: find_None_iff set_attributes_build)
    then show ?thesis using None get_eq_find [of ?m k] c by simp
  next
    case (Some a)
    then have a: "a \<in> set (FactMetadataBuilder.attributes b)" "attr_key a = k"
      "\<And>x. x \<in> set (FactMetadataBuilder.attributes b) \<Longrightarrow> attr_key x = k \<Longrightarrow> attr_value a \<le> attr_value x"
      using find_sorted_least [of "FactMetadata.attributes ?m" k a] c by (simp_all add: set_attributes_build)
    then have "Min ?vs = attr_value a" by (intro Min_eqI) auto
    then show ?thesis using Some a(1,2) get_eq_find [of ?m k] c by auto
  qed
  ultimately show ?thesis by (simp add: Let_def)
qed

end
