(* ===== verification/Rust_Text.thy ===== *)
theory Rust_Text
  imports Prelude
begin

text \<open>
  The text operations of the Rust standard library that the sources use, on strings read as
  their UTF-8 bytes: lossy decoding of process output, Unicode \<open>trim\<close> and \<open>split_whitespace\<close>,
  \<open>lines\<close>, \<open>split\<close> on a character, \<open>Path::join\<close>. They are defined by the documented behaviour
  of \<open>str\<close>, \<open>String\<close> and \<open>Path\<close> on Unix.
\<close>

section \<open>Lossy decoding\<close>

abbreviation byte_in :: "char \<Rightarrow> nat \<Rightarrow> nat \<Rightarrow> bool" where
  "byte_in c lo hi \<equiv> lo \<le> (of_char c :: nat) \<and> (of_char c :: nat) \<le> hi"

text \<open>
  The length of the well-formed sequence at the front (\<open>Inr\<close>), or the length of the maximal
  ill-formed prefix that one replacement character stands for (\<open>Inl\<close>).
\<close>

definition second_ok :: "char \<Rightarrow> char \<Rightarrow> bool" where
  "second_ok b c \<longleftrightarrow>
     (if byte_in b 0xE0 0xE0 then byte_in c 0xA0 0xBF
      else if byte_in b 0xED 0xED then byte_in c 0x80 0x9F
      else if byte_in b 0xF0 0xF0 then byte_in c 0x90 0xBF
      else if byte_in b 0xF4 0xF4 then byte_in c 0x80 0x8F
      else byte_in c 0x80 0xBF)"

definition utf8_width :: "char \<Rightarrow> nat" where
  "utf8_width b =
     (if byte_in b 0x00 0x7F then 1
      else if byte_in b 0xC2 0xDF then 2
      else if byte_in b 0xE0 0xEF then 3
      else if byte_in b 0xF0 0xF4 then 4
      else 0)"

definition utf8_front :: "char \<Rightarrow> string \<Rightarrow> nat + nat" where
  "utf8_front b r =
     (if utf8_width b = 0 then Inl 1
      else if utf8_width b = 1 then Inr 1
      else case r of
        [] \<Rightarrow> Inl 1
      | c # r1 \<Rightarrow>
          if \<not> second_ok b c then Inl 1
          else if utf8_width b = 2 then Inr 2
          else case r1 of
            [] \<Rightarrow> Inl 2
          | d # r2 \<Rightarrow>
              if \<not> byte_in d 0x80 0xBF then Inl 2
              else if utf8_width b = 3 then Inr 3
              else case r2 of
                [] \<Rightarrow> Inl 3
              | e # _ \<Rightarrow> if byte_in e 0x80 0xBF then Inr 4 else Inl 3)"

definition replacement :: string where
  "replacement = [char_of (0xEF :: nat), char_of (0xBF :: nat), char_of (0xBD :: nat)]"

fun from_utf8_lossy :: "string \<Rightarrow> string" where
  "from_utf8_lossy [] = []"
| "from_utf8_lossy (b # r) =
     (case utf8_front b r of
        Inr n \<Rightarrow> take n (b # r) @ from_utf8_lossy (drop (n - 1) r)
      | Inl n \<Rightarrow> replacement @ from_utf8_lossy (drop (n - 1) r))"

lemma from_utf8_lossy_ascii:
  "\<forall>c \<in> set s. of_char c < (128 :: nat) \<Longrightarrow> from_utf8_lossy s = s"
  by (induction s) (auto simp: utf8_front_def utf8_width_def)

declare from_utf8_lossy.simps(2) [simp del]

section \<open>White space\<close>

text \<open>The UTF-8 encodings of the characters with the Unicode property \<open>White_Space\<close>.\<close>

definition white_space :: "string \<Rightarrow> bool" where
  "white_space s \<longleftrightarrow>
     (case map of_char s :: nat list of
        [c] \<Rightarrow> 9 \<le> c \<and> c \<le> 13 \<or> c = 32
      | [b, c] \<Rightarrow> b = 0xC2 \<and> (c = 0x85 \<or> c = 0xA0)
      | [b, c, d] \<Rightarrow>
          b = 0xE1 \<and> c = 0x9A \<and> d = 0x80 \<or>
          b = 0xE2 \<and> c = 0x80 \<and> (0x80 \<le> d \<and> d \<le> 0x8A \<or> d = 0xA8 \<or> d = 0xA9 \<or> d = 0xAF) \<or>
          b = 0xE2 \<and> c = 0x81 \<and> d = 0x9F \<or>
          b = 0xE3 \<and> c = 0x80 \<and> d = 0x80
      | _ \<Rightarrow> False)"

text \<open>The number of bytes of the white-space character at the front, zero when there is none.\<close>

definition ws_front :: "string \<Rightarrow> nat" where
  "ws_front s =
     (if white_space (take 1 s) then 1
      else if white_space (take 2 s) then 2
      else if white_space (take 3 s) then 3
      else 0)"

definition ws_back :: "string \<Rightarrow> nat" where
  "ws_back s =
     (if white_space (drop (length s - 1) s) then 1
      else if white_space (drop (length s - 2) s) then 2
      else if white_space (drop (length s - 3) s) then 3
      else 0)"

lemma not_white_Nil [simp]: "\<not> white_space []"
  by (simp add: white_space_def)

lemma ws_front_Nil [simp]: "ws_front [] = 0"
  by (simp add: ws_front_def)

lemma ws_back_Nil [simp]: "ws_back [] = 0"
  by (simp add: ws_back_def)

function trim_start :: "string \<Rightarrow> string" where
  "trim_start s = (if ws_front s = 0 then s else trim_start (drop (ws_front s) s))"
  by pat_completeness auto
termination
proof (relation "measure length", simp)
  fix s :: string
  assume "ws_front s \<noteq> 0"
  then show "(drop (ws_front s) s, s) \<in> measure length" by (cases s) auto
qed

function trim_end :: "string \<Rightarrow> string" where
  "trim_end s = (if ws_back s = 0 then s else trim_end (take (length s - ws_back s) s))"
  by pat_completeness auto
termination
proof (relation "measure length", simp)
  fix s :: string
  assume "ws_back s \<noteq> 0"
  then show "(take (length s - ws_back s) s, s) \<in> measure length" by (cases s) auto
qed

declare trim_start.simps [simp del] trim_end.simps [simp del]

definition trim :: "string \<Rightarrow> string" where
  "trim s = trim_end (trim_start s)"

lemma trim_start_front: "ws_front (trim_start s) = 0"
proof (induction s rule: trim_start.induct)
  case (1 s)
  then show ?case by (subst trim_start.simps) simp
qed

lemma trim_end_back: "ws_back (trim_end s) = 0"
proof (induction s rule: trim_end.induct)
  case (1 s)
  then show ?case by (subst trim_end.simps) simp
qed

lemma trim_Nil [simp]: "trim [] = []"
  by (simp add: trim_def trim_start.simps trim_end.simps)

text \<open>\<open>split_whitespace\<close>: the non-empty pieces between white-space characters.\<close>

function words_from :: "string \<Rightarrow> string \<Rightarrow> string list" where
  "words_from acc s =
     (if s = [] then (if acc = [] then [] else [acc])
      else if ws_front s = 0 then words_from (acc @ [hd s]) (tl s)
      else (if acc = [] then [] else [acc]) @ words_from [] (drop (ws_front s) s))"
  by pat_completeness auto
termination
  by (relation "measure (\<lambda>(acc, s). length s)") (auto simp: neq_Nil_conv)

declare words_from.simps [simp del]

definition split_whitespace :: "string \<Rightarrow> string list" where
  "split_whitespace s = words_from [] s"

lemma words_from_nonempty: "w \<in> set (words_from acc s) \<Longrightarrow> w \<noteq> []"
proof (induction acc s rule: words_from.induct)
  case (1 acc s)
  from 1(3) show ?case
    by (subst (asm) words_from.simps) (auto split: if_splits dest: 1(1) 1(2))
qed

lemma split_whitespace_nonempty: "[] \<notin> set (split_whitespace s)"
  using words_from_nonempty by (auto simp: split_whitespace_def)

section \<open>Lines, separators and paths\<close>

abbreviation newline :: char where "newline \<equiv> CHR 0x0A"
abbreviation carriage_return :: char where "carriage_return \<equiv> CHR 0x0D"

definition strip_cr :: "string \<Rightarrow> string" where
  "strip_cr s = (if s \<noteq> [] \<and> last s = carriage_return then butlast s else s)"

text \<open>
  \<open>str::lines\<close>: a line ends with a line feed or a carriage return and a line feed; the last
  one may end without.
\<close>

fun lines_from :: "string \<Rightarrow> string \<Rightarrow> string list" where
  "lines_from acc [] = (if acc = [] then [] else [acc])"
| "lines_from acc (c # s) =
     (if c = newline then strip_cr acc # lines_from [] s else lines_from (acc @ [c]) s)"

definition str_lines :: "string \<Rightarrow> string list" where
  "str_lines s = lines_from [] s"

text \<open>\<open>str::split\<close> on a character: always one more piece than there are separators.\<close>

fun split_from :: "char \<Rightarrow> string \<Rightarrow> string \<Rightarrow> string list" where
  "split_from d acc [] = [acc]"
| "split_from d acc (c # s) =
     (if c = d then acc # split_from d [] s else split_from d (acc @ [c]) s)"

definition split_char :: "char \<Rightarrow> string \<Rightarrow> string list" where
  "split_char d s = split_from d [] s"

lemma split_from_pieces: "d \<notin> set acc \<Longrightarrow> p \<in> set (split_from d acc s) \<Longrightarrow> d \<notin> set p"
proof (induction s arbitrary: acc)
  case Nil
  then show ?case by simp
next
  case (Cons c s)
  show ?case using Cons.prems Cons.IH [of "[]"] Cons.IH [of "acc @ [c]"] by (cases "c = d") auto
qed

lemma split_from_not_Nil [simp]: "split_from d acc s \<noteq> []"
  by (induction s arbitrary: acc) auto

lemma split_char_pieces: "p \<in> set (split_char d s) \<Longrightarrow> d \<notin> set p"
  using split_from_pieces [of d "[]"] by (simp add: split_char_def)

lemma split_from_run: "d \<notin> set p \<Longrightarrow> split_from d acc (p @ s) = split_from d (acc @ p) s"
  by (induction p arbitrary: acc) auto

lemma split_char_join:
  "ps \<noteq> [] \<Longrightarrow> \<forall>p \<in> set ps. d \<notin> set p \<Longrightarrow> split_char d (join [d] ps) = ps"
proof -
  have "split_from d acc (join [d] (p # ps)) = (acc @ p) # ps"
    if "\<forall>q \<in> set (p # ps). d \<notin> set q" for acc p ps
    using that
  proof (induction ps arbitrary: acc p)
    case Nil
    then show ?case using split_from_run [of d p acc "[]"] by simp
  next
    case (Cons q ps)
    then show ?case by (simp add: split_from_run)
  qed
  then show "ps \<noteq> [] \<Longrightarrow> \<forall>p \<in> set ps. d \<notin> set p \<Longrightarrow> split_char d (join [d] ps) = ps"
    by (cases ps) (simp_all add: split_char_def)
qed

lemma join_split_from: "join [d] (split_from d acc s) = acc @ s"
proof (induction s arbitrary: acc)
  case Nil
  then show ?case by simp
next
  case (Cons c s)
  show ?case using Cons [of "[]"] Cons [of "acc @ [c]"] split_from_not_Nil [of d "[]" s]
    by (cases "split_from d [] s") auto
qed

lemma join_split_char: "join [d] (split_char d s) = s"
  by (simp add: split_char_def join_split_from)

text \<open>\<open>Path::join\<close>: an absolute argument replaces the base.\<close>

definition path_join :: "string \<Rightarrow> string \<Rightarrow> string" where
  "path_join base p =
     (if p \<noteq> [] \<and> hd p = CHR ''/'' then p
      else if base = [] \<or> last base = CHR ''/'' then base @ p
      else base @ ''/'' @ p)"

end
