(* ===== verification/Repo_State.thy ===== *)
theory Repo_State
  imports Rust_Text
begin

text \<open>
  The repository-state primitive of \<^verbatim>\<open>crates/core/src/repo_state.rs\<close>: the captured revision that
  facts, memory and evidence carry for freshness.

  Everything outside the program is an argument, the record \<open>Host\<close>: running \<open>git\<close> in a directory
  (\<open>None\<close> when the process cannot be spawned), file metadata and contents, path
  canonicalisation, and the SHA-256 hex digest of the \<open>sha2\<close> crate.

  The lemmas show what a captured state depends on, and that the content hash sees each part
  only up to a permutation of its bytes.
\<close>

section \<open>The host\<close>

record git_output =
  success :: bool
  stdout :: string

record Host =
  host_git :: "string \<Rightarrow> string list \<Rightarrow> git_output option"
  host_metadata_len :: "string \<Rightarrow> nat option"
  host_read :: "string \<Rightarrow> string option"
  host_canonicalize :: "string \<Rightarrow> string option"
  host_exists :: "string \<Rightarrow> bool"
  host_sha256_hex :: "string \<Rightarrow> string"

section \<open>Captured state\<close>

definition MAX_UNTRACKED_FILE_BYTES :: nat where
  "MAX_UNTRACKED_FILE_BYTES = 512 * 1024"

record RepoState =
  commit_sha :: string
  working_tree_dirty :: bool
  working_tree_hash :: string

definition nul :: string where
  "nul = [CHR 0x00]"

definition untracked_content :: "Host \<Rightarrow> string \<Rightarrow> string" where
  "untracked_content h path =
     (case host_metadata_len h path of
        Some n \<Rightarrow>
          if n \<le> MAX_UNTRACKED_FILE_BYTES then
            (case host_read h path of
               Some bytes \<Rightarrow> host_sha256_hex h bytes
             | None \<Rightarrow> ''unreadable'')
          else ''oversized:'' @ show_nat n
      | None \<Rightarrow> ''missing'')"

definition untracked_names :: "string \<Rightarrow> string list" where
  "untracked_names out = sort (str_lines (from_utf8_lossy out))"

definition untracked_blob :: "Host \<Rightarrow> string \<Rightarrow> string \<Rightarrow> string" where
  "untracked_blob h root out =
     concat (map (\<lambda>name. name @ nul @ untracked_content h (path_join root name) @ nul) (untracked_names out))"

text \<open>Output of a command that ran and succeeded: \<^verbatim>\<open>if let Some(ref o) = out { if o.status.success() {\<close>.\<close>

definition succeeded :: "git_output option \<Rightarrow> string option" where
  "succeeded r = (case r of None \<Rightarrow> None | Some o' \<Rightarrow> if success o' then Some (stdout o') else None)"

definition head_args :: "string list" where
  "head_args = [''rev-parse'', ''--verify'', ''HEAD'']"

definition status_args :: "string list" where
  "status_args = [''status'', ''--porcelain'', ''--'', '':!.codebro'']"

definition ls_args :: "string list" where
  "ls_args = [''ls-files'', ''--'', '':!.codebro'']"

definition diff_args :: "string list" where
  "diff_args = [''diff'', ''HEAD'', ''--'', '':!.codebro'']"

definition untracked_args :: "string list" where
  "untracked_args = [''ls-files'', ''--others'', ''--exclude-standard'', ''--'', '':!.codebro'']"

definition capture_parts :: "Host \<Rightarrow> string \<Rightarrow> string list" where
  "capture_parts h root =
     when_some (succeeded (host_git h root ls_args)) (\<lambda>out. [out]) @
     when_some (succeeded (host_git h root diff_args)) (\<lambda>out. [out]) @
     when_some (succeeded (host_git h root untracked_args)) (\<lambda>out. [untracked_blob h root out])"

definition hash_parts :: "Host \<Rightarrow> string \<Rightarrow> string list \<Rightarrow> string" where
  "hash_parts h sha parts =
     host_sha256_hex h (concat (map sort parts) @ (if parts = [] then sha else []))"

definition RepoState_capture :: "Host \<Rightarrow> string \<Rightarrow> RepoState option" where
  "RepoState_capture h root =
     (case host_git h root head_args of
        None \<Rightarrow> None
      | Some out \<Rightarrow>
          if \<not> success out then None
          else
            let sha = trim (from_utf8_lossy (stdout out)) in
            case host_git h root status_args of
              None \<Rightarrow> None
            | Some dirty_output \<Rightarrow>
                Some \<lparr>commit_sha = sha,
                      working_tree_dirty =
                        (\<not> success dirty_output \<or> trim (from_utf8_lossy (stdout dirty_output)) \<noteq> []),
                      working_tree_hash = hash_parts h sha (capture_parts h root)\<rparr>)"

section \<open>What a captured state depends on\<close>

lemma capture_None_iff:
  "RepoState_capture h root = None \<longleftrightarrow>
   succeeded (host_git h root head_args) = None \<or> host_git h root status_args = None"
  by (auto simp: RepoState_capture_def succeeded_def Let_def split: option.splits)

text \<open>The commands that \<open>capture\<close> runs, all but the first with the \<^verbatim>\<open>.codebro\<close> exclusion.\<close>

definition capture_commands :: "string list list" where
  "capture_commands = [head_args, status_args, ls_args, diff_args, untracked_args]"

definition listed_untracked :: "Host \<Rightarrow> string \<Rightarrow> string list" where
  "listed_untracked h root =
     (case succeeded (host_git h root untracked_args) of None \<Rightarrow> [] | Some out \<Rightarrow> untracked_names out)"

lemma capture_frame:
  assumes git: "\<And>args. args \<in> set capture_commands \<Longrightarrow> host_git h' root args = host_git h root args"
    and files: "\<And>name. name \<in> set (listed_untracked h root) \<Longrightarrow>
      untracked_content h' (path_join root name) = untracked_content h (path_join root name)"
    and sha: "host_sha256_hex h' = host_sha256_hex h"
  shows "RepoState_capture h' root = RepoState_capture h root"
proof -
  have g: "host_git h' root args = host_git h root args"
    if "args \<in> {head_args, status_args, ls_args, diff_args, untracked_args}" for args
    using git that by (simp add: capture_commands_def)
  have "untracked_blob h' root out = untracked_blob h root out"
    if "succeeded (host_git h root untracked_args) = Some out" for out
    using files that by (simp add: untracked_blob_def listed_untracked_def cong: map_cong)
  then have "capture_parts h' root = capture_parts h root"
    by (auto simp: capture_parts_def g when_some_def split: option.splits)
  then show ?thesis
    by (simp add: RepoState_capture_def g hash_parts_def sha Let_def split: option.split)
qed

lemma hash_parts_permuted:
  assumes "list_all2 (\<lambda>p q. mset p = mset q) ps qs"
  shows "hash_parts h sha ps = hash_parts h sha qs"
proof -
  have "map sort ps = map sort qs"
    using assms by (induction rule: list_all2_induct) (auto intro: sort_key_perm_cong)
  moreover have "ps = [] \<longleftrightarrow> qs = []" using assms by (cases ps; cases qs) auto
  ultimately show ?thesis by (simp add: hash_parts_def)
qed

lemma hash_parts_eq_iff:
  assumes "inj (host_sha256_hex h)" "ps \<noteq> []" "qs \<noteq> []"
  shows "hash_parts h sha ps = hash_parts h sha' qs \<longleftrightarrow> concat (map sort ps) = concat (map sort qs)"
  using assms by (simp add: hash_parts_def inj_eq)

section \<open>Properties\<close>

text \<open>What a captured state depends on. Two hosts that agree on the five git commands (four of
  which exclude the derived-output directory) and on the untracked files git lists give the same
  state: nothing else, and in particular no file git does not list, can change the revision.\<close>

theorem capture_depends_only:
  assumes "\<And>args. args \<in> set capture_commands \<Longrightarrow> host_git h' root args = host_git h root args"
    and "\<And>name. name \<in> set (listed_untracked h root) \<Longrightarrow>
      untracked_content h' (path_join root name) = untracked_content h (path_join root name)"
    and "host_sha256_hex h' = host_sha256_hex h"
  shows "RepoState_capture h' root = RepoState_capture h root"
  by (rule capture_frame [OF assms])

definition sample_host :: "string \<Rightarrow> Host" where
  "sample_host listing = \<lparr>
     host_git = (\<lambda>_ args. Some \<lparr>success = True,
       stdout = (if args = head_args then ''c0ffee'' else if args = untracked_args then listing else [])\<rparr>),
     host_metadata_len = (\<lambda>_. Some 3), host_read = (\<lambda>_. Some ''abc''),
     host_canonicalize = (\<lambda>_. None), host_exists = (\<lambda>_. False), host_sha256_hex = (\<lambda>bytes. bytes)\<rparr>"

lemma args_distinct [simp]:
  "ls_args \<noteq> head_args" "ls_args \<noteq> untracked_args" "diff_args \<noteq> head_args" "diff_args \<noteq> untracked_args"
  "status_args \<noteq> head_args" "status_args \<noteq> untracked_args" "untracked_args \<noteq> head_args"
  by (simp_all add: head_args_def status_args_def ls_args_def diff_args_def untracked_args_def)

lemma sample_names: "from_utf8_lossy ''ab'' = ''ab''" "from_utf8_lossy ''ba'' = ''ba''"
  by (simp_all add: from_utf8_lossy_ascii)

lemma capture_depends_only_witness:
  "RepoState_capture (sample_host ''ab''\<lparr>host_read := (\<lambda>p. if p = ''/w/ab'' then Some ''abc'' else None)\<rparr>) ''/w'' =
   RepoState_capture (sample_host ''ab'') ''/w''"
proof (rule capture_depends_only)
  fix name assume "name \<in> set (listed_untracked (sample_host ''ab'') ''/w'')"
  then have "name = ''ab''"
    by (simp add: listed_untracked_def sample_host_def succeeded_def untracked_names_def sample_names str_lines_def)
  then show "untracked_content (sample_host ''ab''\<lparr>host_read := (\<lambda>p. if p = ''/w/ab'' then Some ''abc'' else None)\<rparr>)
      (path_join ''/w'' name) = untracked_content (sample_host ''ab'') (path_join ''/w'' name)"
    by (simp add: untracked_content_def path_join_def sample_host_def)
qed (simp_all add: sample_host_def)

text \<open>C38: the working-tree hash does not see the order of bytes. Each part is sorted bytewise before it
  is hashed, so two hosts whose tracked list, diff and untracked blob are permutations of each
  other's bytes are captured as the same state.\<close>

theorem capture_blind_to_byte_order:
  assumes "host_git h' root head_args = host_git h root head_args"
    and "host_git h' root status_args = host_git h root status_args"
    and "list_all2 (\<lambda>p q. mset p = mset q) (capture_parts h' root) (capture_parts h root)"
    and "host_sha256_hex h' = host_sha256_hex h"
  shows "RepoState_capture h' root = RepoState_capture h root"
proof -
  have "hash_parts h' sha (capture_parts h' root) = hash_parts h sha (capture_parts h root)" for sha
    using hash_parts_permuted [OF assms(3), of h sha] assms(4) by (simp add: hash_parts_def)
  then show ?thesis by (simp add: RepoState_capture_def assms(1,2) Let_def split: option.split)
qed

text \<open>The two hosts of the witness differ in the name of their only untracked file.\<close>

lemma capture_blind_to_byte_order_witness:
  "untracked_blob (sample_host ''ba'') ''/w'' ''ba'' \<noteq> untracked_blob (sample_host ''ab'') ''/w'' ''ab'' \<and>
   RepoState_capture (sample_host ''ba'') ''/w'' = RepoState_capture (sample_host ''ab'') ''/w''"
proof -
  have blob: "untracked_blob (sample_host l) ''/w'' l = l @ nul @ ''abc'' @ nul" if "l \<in> {''ab'', ''ba''}" for l
    using that
    by (auto simp: untracked_blob_def untracked_names_def sample_names str_lines_def untracked_content_def
        sample_host_def MAX_UNTRACKED_FILE_BYTES_def)
  have parts: "capture_parts (sample_host l) ''/w'' = [[], [], untracked_blob (sample_host l) ''/w'' l]" for l
    by (simp add: capture_parts_def when_some_def sample_host_def succeeded_def)
  have "RepoState_capture (sample_host ''ba'') ''/w'' = RepoState_capture (sample_host ''ab'') ''/w''"
  proof (rule capture_blind_to_byte_order)
    show "list_all2 (\<lambda>p q. mset p = mset q) (capture_parts (sample_host ''ba'') ''/w'')
        (capture_parts (sample_host ''ab'') ''/w'')"
      by (simp add: parts blob)
  qed (simp_all add: sample_host_def)
  then show ?thesis by (simp add: blob)
qed

text \<open>The hash of a repository, clean or not, is computed from the git listings and never from the
  commit: as soon as one of the listing commands succeeds, the commit SHA does not enter it.\<close>

theorem hash_independent_of_commit:
  assumes "RepoState_capture h root = Some st" "capture_parts h root \<noteq> []"
  shows "working_tree_hash st = host_sha256_hex h (concat (map sort (capture_parts h root)))"
  using assms by (auto simp: RepoState_capture_def Let_def hash_parts_def split: option.splits if_splits)

lemma hash_independent_of_commit_witness:
  "RepoState_capture (sample_host '''') ''/w'' = Some \<lparr>commit_sha = ''c0ffee'', working_tree_dirty = False, working_tree_hash = ''''\<rparr> \<and>
   '''' = host_sha256_hex (sample_host '''') (concat (map sort (capture_parts (sample_host '''') ''/w'')))"
proof -
  have t: "trim ''c0ffee'' = ''c0ffee''"
    by (simp add: trim_def trim_start.simps trim_end.simps ws_front_def ws_back_def white_space_def)
  have p: "capture_parts (sample_host '''') ''/w'' = [[], [], []]"
    by (simp add: capture_parts_def when_some_def sample_host_def succeeded_def untracked_blob_def untracked_names_def str_lines_def)
  have g: "host_git (sample_host '''') ''/w'' head_args = Some \<lparr>success = True, stdout = ''c0ffee''\<rparr>"
    "host_git (sample_host '''') ''/w'' status_args = Some \<lparr>success = True, stdout = ''''\<rparr>"
    "host_sha256_hex (sample_host '''') = (\<lambda>bytes. bytes)"
    by (simp_all add: sample_host_def)
  have c: "RepoState_capture (sample_host '''') ''/w'' =
      Some \<lparr>commit_sha = ''c0ffee'', working_tree_dirty = False, working_tree_hash = ''''\<rparr>"
    by (simp add: RepoState_capture_def Let_def hash_parts_def p g from_utf8_lossy_ascii t)
  from hash_independent_of_commit [OF this] c p show ?thesis by simp
qed

end
