(* ===== verification/Facts_Model.thy ===== *)
theory Facts_Model
  imports Fact_Entities Repo_State
begin

text \<open>
  The frozen model (\<^verbatim>\<open>engineering_facts/mod.rs\<close>): \<open>FactsModel\<close> with its binary-search lookups,
  the absorbing \<open>FactsBuilder\<close> that sorts every category by opaque id, and the immutable
  \<open>FactCollection\<close> over it (\<^verbatim>\<open>fact_store/collection.rs\<close>) with the enumerator \<open>iter\<close> and
  \<open>fact_id_of\<close> (\<^verbatim>\<open>fact_store/index.rs\<close>). A \<open>BTreeMap<String, String>\<close> is its key-sorted
  association list.

  The trait \<open>IdCarrier\<close> is the locale \<open>id_carrier\<close>: the string the builder sorts by is the
  payload of the typed id the lookups compare. It is interpreted for each of the fourteen fact
  types, and the lookup laws of every category come from these interpretations. The helper
  \<open>category\<close> collects the facts of one kind, so that a statement about all fourteen vectors is
  one statement over \<open>FactKind\<close>.
\<close>

section \<open>The frozen model\<close>

datatype FactRef =
    Workspace WorkspaceFact
  | Module ModuleFact
  | Package PackageFact
  | Symbol SymbolFact
  | Test TestFact
  | BuildTarget BuildTargetFact
  | Dependency DependencyFact
  | Relationship RelationshipFact
  | Reference ReferenceFact
  | Diagnostic DiagnosticFact
  | ArchitectureRule ArchitectureRuleFact
  | Language LanguageFact
  | Framework FrameworkFact
  | EntryPoint EntryPointFact

record ModelCounts =
  workspaces :: nat
  modules :: nat
  packages :: nat
  symbols :: nat
  tests :: nat
  build_targets :: nat
  dependencies :: nat
  relationships :: nat
  references :: nat
  diagnostics :: nat
  architecture_rules :: nat
  languages :: nat
  frameworks :: nat
  entry_points :: nat
  total :: nat

record FactsModel =
  workspaces :: "WorkspaceFact list"
  modules :: "ModuleFact list"
  packages :: "PackageFact list"
  symbols :: "SymbolFact list"
  tests :: "TestFact list"
  build_targets :: "BuildTargetFact list"
  dependencies :: "DependencyFact list"
  relationships :: "RelationshipFact list"
  references :: "ReferenceFact list"
  diagnostics :: "DiagnosticFact list"
  architecture_rules :: "ArchitectureRuleFact list"
  languages :: "LanguageFact list"
  frameworks :: "FrameworkFact list"
  entry_points :: "EntryPointFact list"
  generation_repo_state :: "RepoState option"
  file_digests :: "(string \<times> string) list option"

definition FactsModel_empty :: FactsModel where
  "FactsModel_empty = \<lparr>
     FactsModel.workspaces = [],
     modules = [],
     packages = [],
     symbols = [],
     tests = [],
     build_targets = [],
     dependencies = [],
     relationships = [],
     references = [],
     diagnostics = [],
     architecture_rules = [],
     languages = [],
     frameworks = [],
     entry_points = [],
     generation_repo_state = None,
     file_digests = None\<rparr>"

definition FactsModel_workspace :: "FactsModel \<Rightarrow> WorkspaceId \<Rightarrow> WorkspaceFact option" where
  "FactsModel_workspace m i = lookup_by WorkspaceFact.id (FactsModel.workspaces m) i"

definition FactsModel_module :: "FactsModel \<Rightarrow> ModuleId \<Rightarrow> ModuleFact option" where
  "FactsModel_module m i = lookup_by ModuleFact.id (FactsModel.modules m) i"

definition FactsModel_package :: "FactsModel \<Rightarrow> PackageId \<Rightarrow> PackageFact option" where
  "FactsModel_package m i = lookup_by PackageFact.id (FactsModel.packages m) i"

definition FactsModel_symbol :: "FactsModel \<Rightarrow> SymbolId \<Rightarrow> SymbolFact option" where
  "FactsModel_symbol m i = lookup_by SymbolFact.id (FactsModel.symbols m) i"

definition FactsModel_test :: "FactsModel \<Rightarrow> TestId \<Rightarrow> TestFact option" where
  "FactsModel_test m i = lookup_by TestFact.id (FactsModel.tests m) i"

definition FactsModel_build_target :: "FactsModel \<Rightarrow> BuildTargetId \<Rightarrow> BuildTargetFact option" where
  "FactsModel_build_target m i = lookup_by BuildTargetFact.id (FactsModel.build_targets m) i"

definition FactsModel_dependency :: "FactsModel \<Rightarrow> DependencyId \<Rightarrow> DependencyFact option" where
  "FactsModel_dependency m i = lookup_by DependencyFact.id (FactsModel.dependencies m) i"

definition FactsModel_relationship :: "FactsModel \<Rightarrow> RelationshipId \<Rightarrow> RelationshipFact option" where
  "FactsModel_relationship m i = lookup_by RelationshipFact.id (FactsModel.relationships m) i"

definition FactsModel_reference :: "FactsModel \<Rightarrow> ReferenceId \<Rightarrow> ReferenceFact option" where
  "FactsModel_reference m i = lookup_by ReferenceFact.id (FactsModel.references m) i"

definition FactsModel_diagnostic :: "FactsModel \<Rightarrow> DiagnosticId \<Rightarrow> DiagnosticFact option" where
  "FactsModel_diagnostic m i = lookup_by DiagnosticFact.id (FactsModel.diagnostics m) i"

definition FactsModel_architecture_rule :: "FactsModel \<Rightarrow> ArchitectureRuleId \<Rightarrow> ArchitectureRuleFact option" where
  "FactsModel_architecture_rule m i = lookup_by ArchitectureRuleFact.id (FactsModel.architecture_rules m) i"

definition FactsModel_language :: "FactsModel \<Rightarrow> LanguageId \<Rightarrow> LanguageFact option" where
  "FactsModel_language m i = lookup_by LanguageFact.id (FactsModel.languages m) i"

definition FactsModel_framework :: "FactsModel \<Rightarrow> FrameworkId \<Rightarrow> FrameworkFact option" where
  "FactsModel_framework m i = lookup_by FrameworkFact.id (FactsModel.frameworks m) i"

definition FactsModel_entry_point :: "FactsModel \<Rightarrow> EntryPointId \<Rightarrow> EntryPointFact option" where
  "FactsModel_entry_point m i = lookup_by EntryPointFact.id (FactsModel.entry_points m) i"

fun FactsModel_find :: "FactsModel \<Rightarrow> FactId \<Rightarrow> FactRef option" where
  "FactsModel_find m (FactId.Workspace v) = map_option FactRef.Workspace (FactsModel_workspace m v)"
| "FactsModel_find m (FactId.Module v) = map_option FactRef.Module (FactsModel_module m v)"
| "FactsModel_find m (FactId.Package v) = map_option FactRef.Package (FactsModel_package m v)"
| "FactsModel_find m (FactId.Symbol v) = map_option FactRef.Symbol (FactsModel_symbol m v)"
| "FactsModel_find m (FactId.Test v) = map_option FactRef.Test (FactsModel_test m v)"
| "FactsModel_find m (FactId.BuildTarget v) = map_option FactRef.BuildTarget (FactsModel_build_target m v)"
| "FactsModel_find m (FactId.Dependency v) = map_option FactRef.Dependency (FactsModel_dependency m v)"
| "FactsModel_find m (FactId.Relationship v) = map_option FactRef.Relationship (FactsModel_relationship m v)"
| "FactsModel_find m (FactId.Reference v) = map_option FactRef.Reference (FactsModel_reference m v)"
| "FactsModel_find m (FactId.Diagnostic v) = map_option FactRef.Diagnostic (FactsModel_diagnostic m v)"
| "FactsModel_find m (FactId.ArchitectureRule v) = map_option FactRef.ArchitectureRule (FactsModel_architecture_rule m v)"
| "FactsModel_find m (FactId.Language v) = map_option FactRef.Language (FactsModel_language m v)"
| "FactsModel_find m (FactId.Framework v) = map_option FactRef.Framework (FactsModel_framework m v)"
| "FactsModel_find m (FactId.EntryPoint v) = map_option FactRef.EntryPoint (FactsModel_entry_point m v)"

definition FactsModel_contains :: "FactsModel \<Rightarrow> FactId \<Rightarrow> bool" where
  "FactsModel_contains m i \<longleftrightarrow> FactsModel_find m i \<noteq> None"

definition FactsModel_len :: "FactsModel \<Rightarrow> nat" where
  "FactsModel_len m =
     length (FactsModel.workspaces m) +
     length (FactsModel.modules m) +
     length (FactsModel.packages m) +
     length (FactsModel.symbols m) +
     length (FactsModel.tests m) +
     length (FactsModel.build_targets m) +
     length (FactsModel.dependencies m) +
     length (FactsModel.relationships m) +
     length (FactsModel.references m) +
     length (FactsModel.diagnostics m) +
     length (FactsModel.architecture_rules m) +
     length (FactsModel.languages m) +
     length (FactsModel.frameworks m) +
     length (FactsModel.entry_points m)"

definition FactsModel_is_empty :: "FactsModel \<Rightarrow> bool" where
  "FactsModel_is_empty m \<longleftrightarrow> FactsModel_len m = 0"

definition FactsModel_counts :: "FactsModel \<Rightarrow> ModelCounts" where
  "FactsModel_counts m = \<lparr>
     ModelCounts.workspaces = length (FactsModel.workspaces m),
     modules = length (FactsModel.modules m),
     packages = length (FactsModel.packages m),
     symbols = length (FactsModel.symbols m),
     tests = length (FactsModel.tests m),
     build_targets = length (FactsModel.build_targets m),
     dependencies = length (FactsModel.dependencies m),
     relationships = length (FactsModel.relationships m),
     references = length (FactsModel.references m),
     diagnostics = length (FactsModel.diagnostics m),
     architecture_rules = length (FactsModel.architecture_rules m),
     languages = length (FactsModel.languages m),
     frameworks = length (FactsModel.frameworks m),
     entry_points = length (FactsModel.entry_points m),
     total = FactsModel_len m\<rparr>"

definition FactsModel_with_generation_repo_state :: "FactsModel \<Rightarrow> RepoState \<Rightarrow> FactsModel" where
  "FactsModel_with_generation_repo_state m s = m\<lparr>FactsModel.generation_repo_state := Some s\<rparr>"

definition FactsModel_with_file_digests :: "FactsModel \<Rightarrow> (string \<times> string) list \<Rightarrow> FactsModel" where
  "FactsModel_with_file_digests m d = m\<lparr>FactsModel.file_digests := Some d\<rparr>"

section \<open>The builder\<close>

record FactsBuilder =
  workspaces :: "WorkspaceFact list"
  modules :: "ModuleFact list"
  packages :: "PackageFact list"
  symbols :: "SymbolFact list"
  tests :: "TestFact list"
  build_targets :: "BuildTargetFact list"
  dependencies :: "DependencyFact list"
  relationships :: "RelationshipFact list"
  references :: "ReferenceFact list"
  diagnostics :: "DiagnosticFact list"
  architecture_rules :: "ArchitectureRuleFact list"
  languages :: "LanguageFact list"
  frameworks :: "FrameworkFact list"
  entry_points :: "EntryPointFact list"
  generation_repo_state :: "RepoState option"

definition FactsBuilder_new :: FactsBuilder where
  "FactsBuilder_new = \<lparr>
     FactsBuilder.workspaces = [],
     modules = [],
     packages = [],
     symbols = [],
     tests = [],
     build_targets = [],
     dependencies = [],
     relationships = [],
     references = [],
     diagnostics = [],
     architecture_rules = [],
     languages = [],
     frameworks = [],
     entry_points = [],
     generation_repo_state = None\<rparr>"

definition FactsBuilder_add_workspace :: "FactsBuilder \<Rightarrow> WorkspaceFact \<Rightarrow> FactsBuilder" where
  "FactsBuilder_add_workspace b f = b\<lparr>FactsBuilder.workspaces := FactsBuilder.workspaces b @ [f]\<rparr>"

definition FactsBuilder_add_module :: "FactsBuilder \<Rightarrow> ModuleFact \<Rightarrow> FactsBuilder" where
  "FactsBuilder_add_module b f = b\<lparr>FactsBuilder.modules := FactsBuilder.modules b @ [f]\<rparr>"

definition FactsBuilder_add_package :: "FactsBuilder \<Rightarrow> PackageFact \<Rightarrow> FactsBuilder" where
  "FactsBuilder_add_package b f = b\<lparr>FactsBuilder.packages := FactsBuilder.packages b @ [f]\<rparr>"

definition FactsBuilder_add_symbol :: "FactsBuilder \<Rightarrow> SymbolFact \<Rightarrow> FactsBuilder" where
  "FactsBuilder_add_symbol b f = b\<lparr>FactsBuilder.symbols := FactsBuilder.symbols b @ [f]\<rparr>"

definition FactsBuilder_add_test :: "FactsBuilder \<Rightarrow> TestFact \<Rightarrow> FactsBuilder" where
  "FactsBuilder_add_test b f = b\<lparr>FactsBuilder.tests := FactsBuilder.tests b @ [f]\<rparr>"

definition FactsBuilder_add_build_target :: "FactsBuilder \<Rightarrow> BuildTargetFact \<Rightarrow> FactsBuilder" where
  "FactsBuilder_add_build_target b f = b\<lparr>FactsBuilder.build_targets := FactsBuilder.build_targets b @ [f]\<rparr>"

definition FactsBuilder_add_dependency :: "FactsBuilder \<Rightarrow> DependencyFact \<Rightarrow> FactsBuilder" where
  "FactsBuilder_add_dependency b f = b\<lparr>FactsBuilder.dependencies := FactsBuilder.dependencies b @ [f]\<rparr>"

definition FactsBuilder_add_relationship :: "FactsBuilder \<Rightarrow> RelationshipFact \<Rightarrow> FactsBuilder" where
  "FactsBuilder_add_relationship b f = b\<lparr>FactsBuilder.relationships := FactsBuilder.relationships b @ [f]\<rparr>"

definition FactsBuilder_add_reference :: "FactsBuilder \<Rightarrow> ReferenceFact \<Rightarrow> FactsBuilder" where
  "FactsBuilder_add_reference b f = b\<lparr>FactsBuilder.references := FactsBuilder.references b @ [f]\<rparr>"

definition FactsBuilder_add_diagnostic :: "FactsBuilder \<Rightarrow> DiagnosticFact \<Rightarrow> FactsBuilder" where
  "FactsBuilder_add_diagnostic b f = b\<lparr>FactsBuilder.diagnostics := FactsBuilder.diagnostics b @ [f]\<rparr>"

definition FactsBuilder_add_architecture_rule :: "FactsBuilder \<Rightarrow> ArchitectureRuleFact \<Rightarrow> FactsBuilder" where
  "FactsBuilder_add_architecture_rule b f = b\<lparr>FactsBuilder.architecture_rules := FactsBuilder.architecture_rules b @ [f]\<rparr>"

definition FactsBuilder_add_language :: "FactsBuilder \<Rightarrow> LanguageFact \<Rightarrow> FactsBuilder" where
  "FactsBuilder_add_language b f = b\<lparr>FactsBuilder.languages := FactsBuilder.languages b @ [f]\<rparr>"

definition FactsBuilder_add_framework :: "FactsBuilder \<Rightarrow> FrameworkFact \<Rightarrow> FactsBuilder" where
  "FactsBuilder_add_framework b f = b\<lparr>FactsBuilder.frameworks := FactsBuilder.frameworks b @ [f]\<rparr>"

definition FactsBuilder_add_entry_point :: "FactsBuilder \<Rightarrow> EntryPointFact \<Rightarrow> FactsBuilder" where
  "FactsBuilder_add_entry_point b f = b\<lparr>FactsBuilder.entry_points := FactsBuilder.entry_points b @ [f]\<rparr>"

definition FactsBuilder_with_generation_repo_state :: "FactsBuilder \<Rightarrow> RepoState \<Rightarrow> FactsBuilder" where
  "FactsBuilder_with_generation_repo_state b s = b\<lparr>FactsBuilder.generation_repo_state := Some s\<rparr>"

text \<open>The trait \<open>IdCarrier\<close> and its implementations by \<open>id_carrier!\<close>.\<close>

definition WorkspaceFact_fact_id :: "WorkspaceFact \<Rightarrow> string" where
  "WorkspaceFact_fact_id f = id_str (WorkspaceFact.id f)"

definition ModuleFact_fact_id :: "ModuleFact \<Rightarrow> string" where
  "ModuleFact_fact_id f = id_str (ModuleFact.id f)"

definition PackageFact_fact_id :: "PackageFact \<Rightarrow> string" where
  "PackageFact_fact_id f = id_str (PackageFact.id f)"

definition SymbolFact_fact_id :: "SymbolFact \<Rightarrow> string" where
  "SymbolFact_fact_id f = id_str (SymbolFact.id f)"

definition TestFact_fact_id :: "TestFact \<Rightarrow> string" where
  "TestFact_fact_id f = id_str (TestFact.id f)"

definition BuildTargetFact_fact_id :: "BuildTargetFact \<Rightarrow> string" where
  "BuildTargetFact_fact_id f = id_str (BuildTargetFact.id f)"

definition DependencyFact_fact_id :: "DependencyFact \<Rightarrow> string" where
  "DependencyFact_fact_id f = id_str (DependencyFact.id f)"

definition RelationshipFact_fact_id :: "RelationshipFact \<Rightarrow> string" where
  "RelationshipFact_fact_id f = id_str (RelationshipFact.id f)"

definition ReferenceFact_fact_id :: "ReferenceFact \<Rightarrow> string" where
  "ReferenceFact_fact_id f = id_str (ReferenceFact.id f)"

definition DiagnosticFact_fact_id :: "DiagnosticFact \<Rightarrow> string" where
  "DiagnosticFact_fact_id f = id_str (DiagnosticFact.id f)"

definition ArchitectureRuleFact_fact_id :: "ArchitectureRuleFact \<Rightarrow> string" where
  "ArchitectureRuleFact_fact_id f = id_str (ArchitectureRuleFact.id f)"

definition LanguageFact_fact_id :: "LanguageFact \<Rightarrow> string" where
  "LanguageFact_fact_id f = id_str (LanguageFact.id f)"

definition FrameworkFact_fact_id :: "FrameworkFact \<Rightarrow> string" where
  "FrameworkFact_fact_id f = id_str (FrameworkFact.id f)"

definition EntryPointFact_fact_id :: "EntryPointFact \<Rightarrow> string" where
  "EntryPointFact_fact_id f = id_str (EntryPointFact.id f)"

definition sort_by_id :: "('f \<Rightarrow> string) \<Rightarrow> 'f list \<Rightarrow> 'f list" where
  "sort_by_id fact_id v = sort_key fact_id v"

definition FactsBuilder_build :: "FactsBuilder \<Rightarrow> FactsModel" where
  "FactsBuilder_build b = \<lparr>
     FactsModel.workspaces = sort_by_id WorkspaceFact_fact_id (FactsBuilder.workspaces b),
     modules = sort_by_id ModuleFact_fact_id (FactsBuilder.modules b),
     packages = sort_by_id PackageFact_fact_id (FactsBuilder.packages b),
     symbols = sort_by_id SymbolFact_fact_id (FactsBuilder.symbols b),
     tests = sort_by_id TestFact_fact_id (FactsBuilder.tests b),
     build_targets = sort_by_id BuildTargetFact_fact_id (FactsBuilder.build_targets b),
     dependencies = sort_by_id DependencyFact_fact_id (FactsBuilder.dependencies b),
     relationships = sort_by_id RelationshipFact_fact_id (FactsBuilder.relationships b),
     references = sort_by_id ReferenceFact_fact_id (FactsBuilder.references b),
     diagnostics = sort_by_id DiagnosticFact_fact_id (FactsBuilder.diagnostics b),
     architecture_rules = sort_by_id ArchitectureRuleFact_fact_id (FactsBuilder.architecture_rules b),
     languages = sort_by_id LanguageFact_fact_id (FactsBuilder.languages b),
     frameworks = sort_by_id FrameworkFact_fact_id (FactsBuilder.frameworks b),
     entry_points = sort_by_id EntryPointFact_fact_id (FactsBuilder.entry_points b),
     generation_repo_state = FactsBuilder.generation_repo_state b,
     file_digests = None\<rparr>"

section \<open>The collection\<close>

record FactCollection =
  model :: FactsModel

definition FactCollection_from_model :: "FactsModel \<Rightarrow> FactCollection" where
  "FactCollection_from_model m = \<lparr>model = m\<rparr>"

definition FactCollection_len :: "FactCollection \<Rightarrow> nat" where
  "FactCollection_len c = FactsModel_len (model c)"

definition FactCollection_is_empty :: "FactCollection \<Rightarrow> bool" where
  "FactCollection_is_empty c = FactsModel_is_empty (model c)"

definition FactCollection_counts :: "FactCollection \<Rightarrow> ModelCounts" where
  "FactCollection_counts c = FactsModel_counts (model c)"

definition FactCollection_contains :: "FactCollection \<Rightarrow> FactId \<Rightarrow> bool" where
  "FactCollection_contains c i = FactsModel_contains (model c) i"

definition FactCollection_find :: "FactCollection \<Rightarrow> FactId \<Rightarrow> FactRef option" where
  "FactCollection_find c i = FactsModel_find (model c) i"

definition FactCollection_iter :: "FactCollection \<Rightarrow> FactRef list" where
  "FactCollection_iter c =
     map FactRef.Workspace (FactsModel.workspaces (model c)) @
     map FactRef.Module (FactsModel.modules (model c)) @
     map FactRef.Package (FactsModel.packages (model c)) @
     map FactRef.Symbol (FactsModel.symbols (model c)) @
     map FactRef.Test (FactsModel.tests (model c)) @
     map FactRef.BuildTarget (FactsModel.build_targets (model c)) @
     map FactRef.Dependency (FactsModel.dependencies (model c)) @
     map FactRef.Relationship (FactsModel.relationships (model c)) @
     map FactRef.Reference (FactsModel.references (model c)) @
     map FactRef.Diagnostic (FactsModel.diagnostics (model c)) @
     map FactRef.ArchitectureRule (FactsModel.architecture_rules (model c)) @
     map FactRef.Language (FactsModel.languages (model c)) @
     map FactRef.Framework (FactsModel.frameworks (model c)) @
     map FactRef.EntryPoint (FactsModel.entry_points (model c))"

fun fact_id_of :: "FactRef \<Rightarrow> FactId" where
  "fact_id_of (FactRef.Workspace f) = FactId.Workspace (WorkspaceFact.id f)"
| "fact_id_of (FactRef.Module f) = FactId.Module (ModuleFact.id f)"
| "fact_id_of (FactRef.Package f) = FactId.Package (PackageFact.id f)"
| "fact_id_of (FactRef.Symbol f) = FactId.Symbol (SymbolFact.id f)"
| "fact_id_of (FactRef.Test f) = FactId.Test (TestFact.id f)"
| "fact_id_of (FactRef.BuildTarget f) = FactId.BuildTarget (BuildTargetFact.id f)"
| "fact_id_of (FactRef.Dependency f) = FactId.Dependency (DependencyFact.id f)"
| "fact_id_of (FactRef.Relationship f) = FactId.Relationship (RelationshipFact.id f)"
| "fact_id_of (FactRef.Reference f) = FactId.Reference (ReferenceFact.id f)"
| "fact_id_of (FactRef.Diagnostic f) = FactId.Diagnostic (DiagnosticFact.id f)"
| "fact_id_of (FactRef.ArchitectureRule f) = FactId.ArchitectureRule (ArchitectureRuleFact.id f)"
| "fact_id_of (FactRef.Language f) = FactId.Language (LanguageFact.id f)"
| "fact_id_of (FactRef.Framework f) = FactId.Framework (FrameworkFact.id f)"
| "fact_id_of (FactRef.EntryPoint f) = FactId.EntryPoint (EntryPointFact.id f)"

section \<open>The facts of one kind\<close>

fun category :: "FactsModel \<Rightarrow> FactKind \<Rightarrow> FactRef list" where
  "category m FactKind.Workspace = map FactRef.Workspace (FactsModel.workspaces m)"
| "category m FactKind.Module = map FactRef.Module (FactsModel.modules m)"
| "category m FactKind.Package = map FactRef.Package (FactsModel.packages m)"
| "category m FactKind.Symbol = map FactRef.Symbol (FactsModel.symbols m)"
| "category m FactKind.Test = map FactRef.Test (FactsModel.tests m)"
| "category m FactKind.BuildTarget = map FactRef.BuildTarget (FactsModel.build_targets m)"
| "category m FactKind.Dependency = map FactRef.Dependency (FactsModel.dependencies m)"
| "category m FactKind.Relationship = map FactRef.Relationship (FactsModel.relationships m)"
| "category m FactKind.Reference = map FactRef.Reference (FactsModel.references m)"
| "category m FactKind.Diagnostic = map FactRef.Diagnostic (FactsModel.diagnostics m)"
| "category m FactKind.ArchitectureRule = map FactRef.ArchitectureRule (FactsModel.architecture_rules m)"
| "category m FactKind.Language = map FactRef.Language (FactsModel.languages m)"
| "category m FactKind.Framework = map FactRef.Framework (FactsModel.frameworks m)"
| "category m FactKind.EntryPoint = map FactRef.EntryPoint (FactsModel.entry_points m)"

definition fact_key :: "FactRef \<Rightarrow> string" where
  "fact_key f = FactId_as_str (fact_id_of f)"

text \<open>
  The invariant of a frozen model: every category is sorted by opaque id. The ids of a model
  are unique when no two facts, of whatever kind, carry the same \<open>FactId\<close>.
\<close>

definition model_sorted :: "FactsModel \<Rightarrow> bool" where
  "model_sorted m \<longleftrightarrow> (\<forall>k \<in> set FactKind_ALL. sorted (map fact_key (category m k)))"

definition model_facts :: "FactsModel \<Rightarrow> FactRef list" where
  "model_facts m = concat (map (category m) FactKind_ALL)"

definition model_ids_unique :: "FactsModel \<Rightarrow> bool" where
  "model_ids_unique m \<longleftrightarrow> distinct (map fact_id_of (model_facts m))"

lemmas fact_id_defs =
  WorkspaceFact_fact_id_def
  ModuleFact_fact_id_def
  PackageFact_fact_id_def
  SymbolFact_fact_id_def
  TestFact_fact_id_def
  BuildTargetFact_fact_id_def
  DependencyFact_fact_id_def
  RelationshipFact_fact_id_def
  ReferenceFact_fact_id_def
  DiagnosticFact_fact_id_def
  ArchitectureRuleFact_fact_id_def
  LanguageFact_fact_id_def
  FrameworkFact_fact_id_def
  EntryPointFact_fact_id_def

lemmas model_lookup_defs =
  FactsModel_workspace_def
  FactsModel_module_def
  FactsModel_package_def
  FactsModel_symbol_def
  FactsModel_test_def
  FactsModel_build_target_def
  FactsModel_dependency_def
  FactsModel_relationship_def
  FactsModel_reference_def
  FactsModel_diagnostic_def
  FactsModel_architecture_rule_def
  FactsModel_language_def
  FactsModel_framework_def
  FactsModel_entry_point_def

lemma iter_eq_model_facts: "FactCollection_iter c = model_facts (model c)"
  by (simp add: FactCollection_iter_def model_facts_def FactKind_ALL_def)

lemma all_kinds [simp]: "set FactKind_ALL = UNIV"
  using fact_kind.variants_complete by blast

lemma category_kind: "f \<in> set (category m k) \<Longrightarrow> FactId_kind (fact_id_of f) = k"
  by (cases k) auto

lemma mem_model_facts: "f \<in> set (model_facts m) \<longleftrightarrow> (\<exists>k. f \<in> set (category m k))"
  by (simp add: model_facts_def)

lemma mem_model_facts_kind:
  "f \<in> set (model_facts m) \<longleftrightarrow> f \<in> set (category m (FactId_kind (fact_id_of f)))"
  by (auto simp: mem_model_facts dest: category_kind)

lemma length_model_facts: "length (model_facts m) = FactsModel_len m"
  by (simp add: model_facts_def FactKind_ALL_def FactsModel_len_def)

lemma len_eq_sum_kinds: "FactsModel_len m = (\<Sum>k \<leftarrow> FactKind_ALL. length (category m k))"
  by (simp add: length_model_facts [symmetric] model_facts_def length_concat comp_def)

lemma category_distinct:
  "model_ids_unique m \<Longrightarrow> distinct (map fact_id_of (category m k))"
proof -
  assume "model_ids_unique m"
  then have "distinct (concat (map (\<lambda>k. map fact_id_of (category m k)) FactKind_ALL))"
    by (simp add: model_ids_unique_def model_facts_def map_concat comp_def)
  then show ?thesis by (auto simp: distinct_concat_iff)
qed

section \<open>Lookup laws, per carrier\<close>

locale id_carrier =
  fixes fact_id :: "'f \<Rightarrow> string"
    and typed_id :: "'f \<Rightarrow> 'k opaque_id"
  assumes fact_id_eq: "fact_id f = id_str (typed_id f)"
begin

lemma sorted_typed: "sorted (map fact_id xs) \<longleftrightarrow> sorted (map typed_id xs)"
proof -
  have "map fact_id xs = map id_str (map typed_id xs)" by (simp add: fact_id_eq)
  then show ?thesis by (simp only: mono_id_str)
qed

lemma lookup_hit:
  "sorted (map fact_id xs) \<Longrightarrow> (\<exists>f. lookup_by typed_id xs i = Some f) \<longleftrightarrow> i \<in> typed_id ` set xs"
  by (simp add: sorted_typed lookup_by_None_iff flip: not_None_eq)

lemma lookup_unique:
  "sorted (map fact_id xs) \<Longrightarrow> distinct (map typed_id xs) \<Longrightarrow> f \<in> set xs \<Longrightarrow>
   lookup_by typed_id xs (typed_id f) = Some f"
  by (simp add: sorted_typed lookup_by_unique)

lemma sorted_sort_by_id: "sorted (map fact_id (sort_by_id fact_id xs))"
  by (simp add: sort_by_id_def)

lemma sort_by_id_perm:
  assumes "mset xs = mset ys" "distinct (map typed_id xs)"
  shows "sort_by_id fact_id xs = sort_by_id fact_id ys"
  unfolding sort_by_id_def
  by (rule sort_key_perm_cong [OF assms(1)]) (use assms(2) in \<open>auto simp: distinct_map inj_on_def fact_id_eq\<close>)

lemma sort_by_id_sorted: "sorted (map fact_id xs) \<Longrightarrow> sort_by_id fact_id xs = xs"
  by (simp add: sort_by_id_def sort_key_sorted_id)

end

interpretation workspace_carrier: id_carrier WorkspaceFact_fact_id WorkspaceFact.id
  by unfold_locales (rule WorkspaceFact_fact_id_def)

interpretation module_carrier: id_carrier ModuleFact_fact_id ModuleFact.id
  by unfold_locales (rule ModuleFact_fact_id_def)

interpretation package_carrier: id_carrier PackageFact_fact_id PackageFact.id
  by unfold_locales (rule PackageFact_fact_id_def)

interpretation symbol_carrier: id_carrier SymbolFact_fact_id SymbolFact.id
  by unfold_locales (rule SymbolFact_fact_id_def)

interpretation test_carrier: id_carrier TestFact_fact_id TestFact.id
  by unfold_locales (rule TestFact_fact_id_def)

interpretation build_target_carrier: id_carrier BuildTargetFact_fact_id BuildTargetFact.id
  by unfold_locales (rule BuildTargetFact_fact_id_def)

interpretation dependency_carrier: id_carrier DependencyFact_fact_id DependencyFact.id
  by unfold_locales (rule DependencyFact_fact_id_def)

interpretation relationship_carrier: id_carrier RelationshipFact_fact_id RelationshipFact.id
  by unfold_locales (rule RelationshipFact_fact_id_def)

interpretation reference_carrier: id_carrier ReferenceFact_fact_id ReferenceFact.id
  by unfold_locales (rule ReferenceFact_fact_id_def)

interpretation diagnostic_carrier: id_carrier DiagnosticFact_fact_id DiagnosticFact.id
  by unfold_locales (rule DiagnosticFact_fact_id_def)

interpretation architecture_rule_carrier: id_carrier ArchitectureRuleFact_fact_id ArchitectureRuleFact.id
  by unfold_locales (rule ArchitectureRuleFact_fact_id_def)

interpretation language_carrier: id_carrier LanguageFact_fact_id LanguageFact.id
  by unfold_locales (rule LanguageFact_fact_id_def)

interpretation framework_carrier: id_carrier FrameworkFact_fact_id FrameworkFact.id
  by unfold_locales (rule FrameworkFact_fact_id_def)

interpretation entry_point_carrier: id_carrier EntryPointFact_fact_id EntryPointFact.id
  by unfold_locales (rule EntryPointFact_fact_id_def)

lemmas carrier_sorted =
  workspace_carrier.sorted_sort_by_id
  module_carrier.sorted_sort_by_id
  package_carrier.sorted_sort_by_id
  symbol_carrier.sorted_sort_by_id
  test_carrier.sorted_sort_by_id
  build_target_carrier.sorted_sort_by_id
  dependency_carrier.sorted_sort_by_id
  relationship_carrier.sorted_sort_by_id
  reference_carrier.sorted_sort_by_id
  diagnostic_carrier.sorted_sort_by_id
  architecture_rule_carrier.sorted_sort_by_id
  language_carrier.sorted_sort_by_id
  framework_carrier.sorted_sort_by_id
  entry_point_carrier.sorted_sort_by_id

lemmas carrier_hit =
  workspace_carrier.lookup_hit
  module_carrier.lookup_hit
  package_carrier.lookup_hit
  symbol_carrier.lookup_hit
  test_carrier.lookup_hit
  build_target_carrier.lookup_hit
  dependency_carrier.lookup_hit
  relationship_carrier.lookup_hit
  reference_carrier.lookup_hit
  diagnostic_carrier.lookup_hit
  architecture_rule_carrier.lookup_hit
  language_carrier.lookup_hit
  framework_carrier.lookup_hit
  entry_point_carrier.lookup_hit

lemmas carrier_unique =
  workspace_carrier.lookup_unique
  module_carrier.lookup_unique
  package_carrier.lookup_unique
  symbol_carrier.lookup_unique
  test_carrier.lookup_unique
  build_target_carrier.lookup_unique
  dependency_carrier.lookup_unique
  relationship_carrier.lookup_unique
  reference_carrier.lookup_unique
  diagnostic_carrier.lookup_unique
  architecture_rule_carrier.lookup_unique
  language_carrier.lookup_unique
  framework_carrier.lookup_unique
  entry_point_carrier.lookup_unique

lemmas carrier_perm =
  workspace_carrier.sort_by_id_perm
  module_carrier.sort_by_id_perm
  package_carrier.sort_by_id_perm
  symbol_carrier.sort_by_id_perm
  test_carrier.sort_by_id_perm
  build_target_carrier.sort_by_id_perm
  dependency_carrier.sort_by_id_perm
  relationship_carrier.sort_by_id_perm
  reference_carrier.sort_by_id_perm
  diagnostic_carrier.sort_by_id_perm
  architecture_rule_carrier.sort_by_id_perm
  language_carrier.sort_by_id_perm
  framework_carrier.sort_by_id_perm
  entry_point_carrier.sort_by_id_perm

lemmas carrier_sorted_id =
  workspace_carrier.sort_by_id_sorted
  module_carrier.sort_by_id_sorted
  package_carrier.sort_by_id_sorted
  symbol_carrier.sort_by_id_sorted
  test_carrier.sort_by_id_sorted
  build_target_carrier.sort_by_id_sorted
  dependency_carrier.sort_by_id_sorted
  relationship_carrier.sort_by_id_sorted
  reference_carrier.sort_by_id_sorted
  diagnostic_carrier.sort_by_id_sorted
  architecture_rule_carrier.sort_by_id_sorted
  language_carrier.sort_by_id_sorted
  framework_carrier.sort_by_id_sorted
  entry_point_carrier.sort_by_id_sorted

section \<open>Lookup laws of the model\<close>

lemma category_keys:
  "map fact_key (category m FactKind.Workspace) = map WorkspaceFact_fact_id (FactsModel.workspaces m)"
  "map fact_key (category m FactKind.Module) = map ModuleFact_fact_id (FactsModel.modules m)"
  "map fact_key (category m FactKind.Package) = map PackageFact_fact_id (FactsModel.packages m)"
  "map fact_key (category m FactKind.Symbol) = map SymbolFact_fact_id (FactsModel.symbols m)"
  "map fact_key (category m FactKind.Test) = map TestFact_fact_id (FactsModel.tests m)"
  "map fact_key (category m FactKind.BuildTarget) = map BuildTargetFact_fact_id (FactsModel.build_targets m)"
  "map fact_key (category m FactKind.Dependency) = map DependencyFact_fact_id (FactsModel.dependencies m)"
  "map fact_key (category m FactKind.Relationship) = map RelationshipFact_fact_id (FactsModel.relationships m)"
  "map fact_key (category m FactKind.Reference) = map ReferenceFact_fact_id (FactsModel.references m)"
  "map fact_key (category m FactKind.Diagnostic) = map DiagnosticFact_fact_id (FactsModel.diagnostics m)"
  "map fact_key (category m FactKind.ArchitectureRule) = map ArchitectureRuleFact_fact_id (FactsModel.architecture_rules m)"
  "map fact_key (category m FactKind.Language) = map LanguageFact_fact_id (FactsModel.languages m)"
  "map fact_key (category m FactKind.Framework) = map FrameworkFact_fact_id (FactsModel.frameworks m)"
  "map fact_key (category m FactKind.EntryPoint) = map EntryPointFact_fact_id (FactsModel.entry_points m)"
  by (simp_all add: fact_key_def fact_id_defs)

lemma model_sorted_category: "model_sorted m \<Longrightarrow> sorted (map fact_key (category m k))"
  by (simp add: model_sorted_def)

lemma model_sortedD:
  assumes "model_sorted m"
  shows
    "sorted (map WorkspaceFact_fact_id (FactsModel.workspaces m))"
    "sorted (map ModuleFact_fact_id (FactsModel.modules m))"
    "sorted (map PackageFact_fact_id (FactsModel.packages m))"
    "sorted (map SymbolFact_fact_id (FactsModel.symbols m))"
    "sorted (map TestFact_fact_id (FactsModel.tests m))"
    "sorted (map BuildTargetFact_fact_id (FactsModel.build_targets m))"
    "sorted (map DependencyFact_fact_id (FactsModel.dependencies m))"
    "sorted (map RelationshipFact_fact_id (FactsModel.relationships m))"
    "sorted (map ReferenceFact_fact_id (FactsModel.references m))"
    "sorted (map DiagnosticFact_fact_id (FactsModel.diagnostics m))"
    "sorted (map ArchitectureRuleFact_fact_id (FactsModel.architecture_rules m))"
    "sorted (map LanguageFact_fact_id (FactsModel.languages m))"
    "sorted (map FrameworkFact_fact_id (FactsModel.frameworks m))"
    "sorted (map EntryPointFact_fact_id (FactsModel.entry_points m))"
  using model_sorted_category [OF assms] unfolding category_keys [symmetric] by blast+

lemma find_sound:
  "FactsModel_find m i = Some f \<Longrightarrow> f \<in> set (model_facts m) \<and> fact_id_of f = i"
  by (cases i) (auto simp: model_lookup_defs mem_model_facts_kind dest: lookup_by_SomeD)

lemma find_None_category:
  assumes "model_sorted m"
  shows "FactsModel_find m i \<noteq> None \<longleftrightarrow> i \<in> fact_id_of ` set (category m (FactId_kind i))"
  using model_sortedD [OF assms] by (cases i) (simp_all add: model_lookup_defs carrier_hit image_image image_iff)

lemma contains_iff:
  assumes "model_sorted m"
  shows "FactsModel_contains m i \<longleftrightarrow> i \<in> fact_id_of ` set (model_facts m)"
proof -
  have "FactsModel_contains m i \<longleftrightarrow> i \<in> fact_id_of ` set (category m (FactId_kind i))"
    by (simp only: FactsModel_contains_def find_None_category [OF assms])
  also have "\<dots> \<longleftrightarrow> i \<in> fact_id_of ` set (model_facts m)"
  proof
    assume "i \<in> fact_id_of ` set (category m (FactId_kind i))"
    then obtain f where f: "f \<in> set (category m (FactId_kind i))" and i: "i = fact_id_of f" ..
    from f have "f \<in> set (model_facts m)" by (subst mem_model_facts) (rule exI)
    then show "i \<in> fact_id_of ` set (model_facts m)" unfolding i by (rule imageI)
  next
    assume "i \<in> fact_id_of ` set (model_facts m)"
    then obtain f where f: "f \<in> set (model_facts m)" and i: "i = fact_id_of f" ..
    from f show "i \<in> fact_id_of ` set (category m (FactId_kind i))"
      unfolding i mem_model_facts_kind [of f m] by (rule imageI)
  qed
  finally show ?thesis .
qed

lemma find_unique:
  assumes s: "model_sorted m" and u: "model_ids_unique m" and f: "f \<in> set (model_facts m)"
  shows "FactsModel_find m (fact_id_of f) = Some f"
proof (cases "FactsModel_find m (fact_id_of f)")
  case None
  with contains_iff [OF s, of "fact_id_of f"] f show ?thesis
    by (auto simp: FactsModel_contains_def)
next
  case (Some g)
  with find_sound [OF Some] u f show ?thesis
    by (metis distinct_map inj_onD model_ids_unique_def)
qed

section \<open>The builder establishes the invariant\<close>

text \<open>The facts a builder holds, in category order.\<close>

definition builder_as_model :: "FactsBuilder \<Rightarrow> FactsModel" where
  "builder_as_model b = \<lparr>
     FactsModel.workspaces = FactsBuilder.workspaces b,
     modules = FactsBuilder.modules b,
     packages = FactsBuilder.packages b,
     symbols = FactsBuilder.symbols b,
     tests = FactsBuilder.tests b,
     build_targets = FactsBuilder.build_targets b,
     dependencies = FactsBuilder.dependencies b,
     relationships = FactsBuilder.relationships b,
     references = FactsBuilder.references b,
     diagnostics = FactsBuilder.diagnostics b,
     architecture_rules = FactsBuilder.architecture_rules b,
     languages = FactsBuilder.languages b,
     frameworks = FactsBuilder.frameworks b,
     entry_points = FactsBuilder.entry_points b,
     generation_repo_state = FactsBuilder.generation_repo_state b,
     file_digests = None\<rparr>"

lemma build_sorted: "model_sorted (FactsBuilder_build b)"
proof -
  have "sorted (map fact_key (category (FactsBuilder_build b) k))" for k
    by (cases k) (simp_all only: category_keys FactsBuilder_build_def FactsModel.simps carrier_sorted)
  then show ?thesis by (simp add: model_sorted_def)
qed

lemma mset_category_build:
  "mset (category (FactsBuilder_build b) k) = mset (category (builder_as_model b) k)"
  by (cases k) (simp_all add: FactsBuilder_build_def builder_as_model_def sort_by_id_def)

lemma mset_build: "mset (model_facts (FactsBuilder_build b)) = mset (model_facts (builder_as_model b))"
  by (simp add: model_facts_def mset_concat mset_category_build comp_def)

lemma set_build: "set (model_facts (FactsBuilder_build b)) = set (model_facts (builder_as_model b))"
  by (rule mset_eq_setD [OF mset_build])

lemma build_unique_iff: "model_ids_unique (FactsBuilder_build b) \<longleftrightarrow> model_ids_unique (builder_as_model b)"
  unfolding model_ids_unique_def
  by (rule mset_eq_imp_distinct_iff) (simp add: mset_build)

section \<open>Building is independent of insertion order\<close>

lemma map_insort_key: "map w (insort_key (\<lambda>x. g (w x)) x xs) = insort_key g (w x) (map w xs)"
  by (induction xs) auto

lemma map_sort_key: "map w (sort_key (\<lambda>x. g (w x)) xs) = sort_key g (map w xs)"
  by (induction xs) (simp_all add: map_insort_key)

lemma category_build: "category (FactsBuilder_build b) k = sort_key fact_key (category (builder_as_model b) k)"
  by (cases k) (simp_all add: FactsBuilder_build_def builder_as_model_def sort_by_id_def fact_id_defs [abs_def]
      map_sort_key [symmetric] fact_key_def)

lemma fact_key_inj_on_category: "model_ids_unique m \<Longrightarrow> inj_on fact_key (set (category m k))"
proof (rule inj_onI)
  fix f g assume u: "model_ids_unique m" and f: "f \<in> set (category m k)" and g: "g \<in> set (category m k)"
    and eq: "fact_key f = fact_key g"
  have "FactId_kind (fact_id_of f) = FactId_kind (fact_id_of g)" using f g by (simp add: category_kind)
  with eq have "fact_id_of f = fact_id_of g" by (intro FactId_eqI) (simp_all add: fact_key_def)
  with category_distinct [OF u, of k] f g show "f = g" by (auto simp: distinct_map dest: inj_onD)
qed

section \<open>Properties\<close>

text \<open>Freezing a builder sorts and loses nothing: every category of the built model is sorted by id,
  and the model holds exactly the facts that were added, with their multiplicities.\<close>

theorem build_sorts_all_facts:
  "model_sorted (FactsBuilder_build b) \<and>
   mset (model_facts (FactsBuilder_build b)) = mset (model_facts (builder_as_model b))"
  by (simp add: build_sorted mset_build)

text \<open>C21: the built facts do not depend on the order of the \<open>add\<close> calls. When the ids are unique, two
  builders that received the same facts freeze to the same categories.\<close>

theorem build_order_independent:
  assumes "model_ids_unique (builder_as_model b)"
    and "\<forall>k. mset (category (builder_as_model b) k) = mset (category (builder_as_model b') k)"
  shows "category (FactsBuilder_build b) k = category (FactsBuilder_build b') k"
  using assms by (simp add: category_build sort_key_perm_cong fact_key_inj_on_category)

definition sample_facts :: FactsBuilder where
  "sample_facts = FactsBuilder_add_module (FactsBuilder_add_module (FactsBuilder_add_workspace FactsBuilder_new
     (WorkspaceFact_new (OpaqueId ''w'') ''ws'')) (ModuleFact_new (OpaqueId ''m2'') ''two''))
     (ModuleFact_new (OpaqueId ''m1'') ''one'')"

definition sample_facts' :: FactsBuilder where
  "sample_facts' = FactsBuilder_add_workspace (FactsBuilder_add_module (FactsBuilder_add_module FactsBuilder_new
     (ModuleFact_new (OpaqueId ''m1'') ''one'')) (ModuleFact_new (OpaqueId ''m2'') ''two''))
     (WorkspaceFact_new (OpaqueId ''w'') ''ws'')"

lemmas sample_facts_simps = sample_facts_def sample_facts'_def FactsBuilder_new_def builder_as_model_def
  FactsBuilder_add_module_def FactsBuilder_add_workspace_def WorkspaceFact_new_def ModuleFact_new_def

lemma sample_facts_unique: "model_ids_unique (builder_as_model sample_facts)"
  by (simp add: model_ids_unique_def model_facts_def FactKind_ALL_def sample_facts_simps)

lemma build_order_independent_witness:
  "sample_facts \<noteq> sample_facts' \<and>
   category (FactsBuilder_build sample_facts) FactKind.Module =
   category (FactsBuilder_build sample_facts') FactKind.Module"
proof -
  have "mset (category (builder_as_model sample_facts) k) = mset (category (builder_as_model sample_facts') k)" for k
    by (cases k) (simp_all add: sample_facts_simps)
  then have "category (FactsBuilder_build sample_facts) FactKind.Module =
    category (FactsBuilder_build sample_facts') FactKind.Module"
    using build_order_independent [OF sample_facts_unique, of sample_facts' FactKind.Module] by blast
  moreover have "sample_facts \<noteq> sample_facts'" by (simp add: sample_facts_simps)
  ultimately show ?thesis by blast
qed

text \<open>C7: lookup by id on a built model is sound and complete: the binary searches find a fact with
  the id exactly when one was added, and what they return was added under that id.\<close>

theorem find_sound_complete:
  "case FactsModel_find (FactsBuilder_build b) i of
     None \<Rightarrow> i \<notin> fact_id_of ` set (model_facts (builder_as_model b))
   | Some f \<Rightarrow> f \<in> set (model_facts (builder_as_model b)) \<and> fact_id_of f = i"
proof (cases "FactsModel_find (FactsBuilder_build b) i")
  case None
  then show ?thesis
    using contains_iff [OF build_sorted, of b i] by (simp add: FactsModel_contains_def set_build)
next
  case (Some f)
  then show ?thesis using find_sound [OF Some] by (simp add: set_build)
qed

text \<open>When ids are unique, looking up the id of an added fact returns that very fact.\<close>

theorem find_returns_added_fact:
  assumes "model_ids_unique (builder_as_model b)" "f \<in> set (model_facts (builder_as_model b))"
  shows "FactsModel_find (FactsBuilder_build b) (fact_id_of f) = Some f"
  using find_unique [OF build_sorted, of b f] assms by (simp add: build_unique_iff set_build)

lemma find_returns_added_fact_witness:
  "FactsModel_find (FactsBuilder_build sample_facts) (FactId.Module (OpaqueId ''m2'')) =
   Some (FactRef.Module (ModuleFact_new (OpaqueId ''m2'') ''two''))"
proof -
  have "FactRef.Module (ModuleFact_new (OpaqueId ''m2'') ''two'') \<in> set (model_facts (builder_as_model sample_facts))"
    by (simp add: model_facts_def FactKind_ALL_def sample_facts_simps)
  from find_returns_added_fact [OF sample_facts_unique this] show ?thesis by (simp add: ModuleFact_new_def)
qed

end
