(* ===== verification/Fact_Index.thy ===== *)
theory Fact_Index
  imports Facts_Model
begin

text \<open>
  The deterministic, read-only indexes of the fact store (\<^verbatim>\<open>fact_store/index.rs\<close>): fourteen
  primary indexes (the sorted ids of one kind each) and four reverse scope indexes (owner to
  member pairs, sorted and deduplicated, searched by partition point). \<open>FactIdPair\<close> is a
  datatype with selectors, so that it can carry the derived order.

  The four scope queries share one contract, the locale \<open>scope_query\<close>, interpreted for
  workspaces, packages, modules and symbols: a query returns exactly the declared pairs of its
  owner, strictly sorted.
\<close>

section \<open>Reverse indexes\<close>

datatype FactIdPair = FactIdPair (pair_owner: FactId) (pair_member: FactId)

instantiation FactIdPair :: linorder
begin

definition less_eq_FactIdPair :: "FactIdPair \<Rightarrow> FactIdPair \<Rightarrow> bool" where
  "less_eq_FactIdPair a b \<longleftrightarrow> (pair_owner a, pair_member a) \<le> (pair_owner b, pair_member b)"

definition less_FactIdPair :: "FactIdPair \<Rightarrow> FactIdPair \<Rightarrow> bool" where
  "less_FactIdPair a b \<longleftrightarrow> (pair_owner a, pair_member a) < (pair_owner b, pair_member b)"

instance
proof
  fix x y z :: FactIdPair
  show "x < y \<longleftrightarrow> x \<le> y \<and> \<not> y \<le> x"
    unfolding less_FactIdPair_def less_eq_FactIdPair_def by (rule less_le_not_le)
  show "x \<le> x" unfolding less_eq_FactIdPair_def by (rule order_refl)
  show "x \<le> y \<Longrightarrow> y \<le> z \<Longrightarrow> x \<le> z" unfolding less_eq_FactIdPair_def by (rule order_trans)
  show "x \<le> y \<Longrightarrow> y \<le> x \<Longrightarrow> x = y"
    unfolding less_eq_FactIdPair_def by (drule (1) antisym) (simp add: FactIdPair.expand)
  show "x \<le> y \<or> y \<le> x" unfolding less_eq_FactIdPair_def by (rule linear)
qed

end

record ReverseIndex =
  entries :: "FactIdPair list"

definition ReverseIndex_new :: "FactIdPair list \<Rightarrow> ReverseIndex" where
  "ReverseIndex_new es = \<lparr>entries = sort_dedup es\<rparr>"

definition ReverseIndex_len :: "ReverseIndex \<Rightarrow> nat" where
  "ReverseIndex_len r = length (entries r)"

definition ReverseIndex_is_empty :: "ReverseIndex \<Rightarrow> bool" where
  "ReverseIndex_is_empty r \<longleftrightarrow> entries r = []"

text \<open>The loop of \<open>get\<close> that advances \<open>end\<close> over the owner's entries.\<close>

function range_end :: "FactIdPair list \<Rightarrow> FactId \<Rightarrow> nat \<Rightarrow> nat" where
  "range_end es ow e =
     (if e < length es \<and> pair_owner (es ! e) = ow then range_end es ow (Suc e) else e)"
  by pat_completeness auto
termination
  by (relation "measure (\<lambda>(es, ow, e). length es - e)") auto

declare range_end.simps [simp del]

definition ReverseIndex_get :: "ReverseIndex \<Rightarrow> FactId \<Rightarrow> FactIdPair list" where
  "ReverseIndex_get r ow =
     (let start = partition_point (\<lambda>p. pair_owner p < ow) (entries r);
          stop = range_end (entries r) ow start
      in take (stop - start) (drop start (entries r)))"

definition ReverseIndex_contains_owner :: "ReverseIndex \<Rightarrow> FactId \<Rightarrow> bool" where
  "ReverseIndex_contains_owner r ow \<longleftrightarrow> ReverseIndex_get r ow \<noteq> []"

section \<open>The declared scope pairs\<close>

definition pair :: "FactId \<Rightarrow> FactId \<Rightarrow> FactIdPair" where
  "pair ow mem = FactIdPair ow mem"

text \<open>\<^verbatim>\<open>f.location.as_ref().and_then(|l| l.workspace.as_ref())\<close>.\<close>

definition opt_scope :: "(SourceLocation \<Rightarrow> 'i option) \<Rightarrow> SourceLocation option \<Rightarrow> 'i option" where
  "opt_scope sel l = (case l of None \<Rightarrow> None | Some loc \<Rightarrow> sel loc)"

text \<open>Facts scoped by a workspace.\<close>

definition index_workspace :: "FactCollection \<Rightarrow> FactIdPair list" where
  "index_workspace c =
     concat (map (\<lambda>w. map (\<lambda>p. pair (FactId.Workspace (WorkspaceFact.id w)) (FactId.Package p))
         (WorkspaceFact.packages w)) (FactsModel.workspaces (model c))) @
     concat (map (\<lambda>f. when_some (PackageFact.workspace f)
         (\<lambda>x. [pair (FactId.Workspace x) (FactId.Package (PackageFact.id f))])) (FactsModel.packages (model c))) @
     concat (map (\<lambda>f. when_some (SourceLocation.workspace (ModuleFact.location f))
         (\<lambda>x. [pair (FactId.Workspace x) (FactId.Module (ModuleFact.id f))])) (FactsModel.modules (model c))) @
     concat (map (\<lambda>f. when_some (SourceLocation.workspace (SymbolFact.location f))
         (\<lambda>x. [pair (FactId.Workspace x) (FactId.Symbol (SymbolFact.id f))])) (FactsModel.symbols (model c))) @
     concat (map (\<lambda>f. when_some (opt_scope SourceLocation.workspace (RelationshipFact.location f))
         (\<lambda>x. [pair (FactId.Workspace x) (FactId.Relationship (RelationshipFact.id f))])) (FactsModel.relationships (model c))) @
     concat (map (\<lambda>f. when_some (opt_scope SourceLocation.workspace (ReferenceFact.location f))
         (\<lambda>x. [pair (FactId.Workspace x) (FactId.Reference (ReferenceFact.id f))])) (FactsModel.references (model c))) @
     concat (map (\<lambda>f. when_some (opt_scope SourceLocation.workspace (TestFact.location f))
         (\<lambda>x. [pair (FactId.Workspace x) (FactId.Test (TestFact.id f))])) (FactsModel.tests (model c))) @
     concat (map (\<lambda>f. when_some (opt_scope SourceLocation.workspace (DiagnosticFact.location f))
         (\<lambda>x. [pair (FactId.Workspace x) (FactId.Diagnostic (DiagnosticFact.id f))])) (FactsModel.diagnostics (model c)))"

text \<open>Facts scoped by a package.\<close>

definition index_package :: "FactCollection \<Rightarrow> FactIdPair list" where
  "index_package c =
     concat (map (\<lambda>f. when_some (ModuleFact.package f)
         (\<lambda>x. [pair (FactId.Package x) (FactId.Module (ModuleFact.id f))])) (FactsModel.modules (model c))) @
     concat (map (\<lambda>f. when_some (BuildTargetFact.package f)
         (\<lambda>x. [pair (FactId.Package x) (FactId.BuildTarget (BuildTargetFact.id f))])) (FactsModel.build_targets (model c))) @
     concat (map (\<lambda>f. when_some (SourceLocation.package (ModuleFact.location f))
         (\<lambda>x. [pair (FactId.Package x) (FactId.Module (ModuleFact.id f))])) (FactsModel.modules (model c))) @
     concat (map (\<lambda>f. when_some (EntryPointFact.package f)
         (\<lambda>x. [pair (FactId.Package x) (FactId.EntryPoint (EntryPointFact.id f))])) (FactsModel.entry_points (model c))) @
     concat (map (\<lambda>f. when_some (SourceLocation.package (SymbolFact.location f))
         (\<lambda>x. [pair (FactId.Package x) (FactId.Symbol (SymbolFact.id f))])) (FactsModel.symbols (model c))) @
     concat (map (\<lambda>f. when_some (opt_scope SourceLocation.package (RelationshipFact.location f))
         (\<lambda>x. [pair (FactId.Package x) (FactId.Relationship (RelationshipFact.id f))])) (FactsModel.relationships (model c))) @
     concat (map (\<lambda>f. when_some (opt_scope SourceLocation.package (ReferenceFact.location f))
         (\<lambda>x. [pair (FactId.Package x) (FactId.Reference (ReferenceFact.id f))])) (FactsModel.references (model c))) @
     concat (map (\<lambda>f. when_some (opt_scope SourceLocation.package (TestFact.location f))
         (\<lambda>x. [pair (FactId.Package x) (FactId.Test (TestFact.id f))])) (FactsModel.tests (model c))) @
     concat (map (\<lambda>f. when_some (opt_scope SourceLocation.package (DiagnosticFact.location f))
         (\<lambda>x. [pair (FactId.Package x) (FactId.Diagnostic (DiagnosticFact.id f))])) (FactsModel.diagnostics (model c)))"

text \<open>Facts scoped by a module.\<close>

definition index_module :: "FactCollection \<Rightarrow> FactIdPair list" where
  "index_module c =
     concat (map (\<lambda>f.
         when_some (SymbolFact.module f) (\<lambda>x. [pair (FactId.Module x) (FactId.Symbol (SymbolFact.id f))]) @
         when_some (SourceLocation.module (SymbolFact.location f))
           (\<lambda>x. [pair (FactId.Module x) (FactId.Symbol (SymbolFact.id f))])) (FactsModel.symbols (model c))) @
     concat (map (\<lambda>f. when_some (opt_scope SourceLocation.module (RelationshipFact.location f))
         (\<lambda>x. [pair (FactId.Module x) (FactId.Relationship (RelationshipFact.id f))])) (FactsModel.relationships (model c))) @
     concat (map (\<lambda>f.
         (if FactId_kind (RelationshipFact.source f) = FactKind.Module
          then [pair (RelationshipFact.source f) (FactId.Relationship (RelationshipFact.id f))] else []) @
         (if FactId_kind (RelationshipFact.target f) = FactKind.Module
          then [pair (RelationshipFact.target f) (FactId.Relationship (RelationshipFact.id f))] else []))
       (FactsModel.relationships (model c))) @
     concat (map (\<lambda>f. when_some (opt_scope SourceLocation.module (ReferenceFact.location f))
         (\<lambda>x. [pair (FactId.Module x) (FactId.Reference (ReferenceFact.id f))])) (FactsModel.references (model c))) @
     concat (map (\<lambda>f. when_some (opt_scope SourceLocation.module (TestFact.location f))
         (\<lambda>x. [pair (FactId.Module x) (FactId.Test (TestFact.id f))])) (FactsModel.tests (model c))) @
     concat (map (\<lambda>f. when_some (opt_scope SourceLocation.module (DiagnosticFact.location f))
         (\<lambda>x. [pair (FactId.Module x) (FactId.Diagnostic (DiagnosticFact.id f))])) (FactsModel.diagnostics (model c)))"

text \<open>Facts about a symbol.\<close>

definition index_symbol :: "FactCollection \<Rightarrow> FactIdPair list" where
  "index_symbol c =
     concat (map (\<lambda>f. map (\<lambda>x. pair (FactId.Symbol x) (FactId.Test (TestFact.id f))) (TestFact.tested f)) (FactsModel.tests (model c))) @
     concat (map (\<lambda>f.
         (if FactId_kind (ReferenceFact.target f) = FactKind.Symbol
          then [pair (ReferenceFact.target f) (FactId.Reference (ReferenceFact.id f))] else []) @
         (if FactId_kind (ReferenceFact.referrer f) = FactKind.Symbol
          then [pair (ReferenceFact.referrer f) (FactId.Reference (ReferenceFact.id f))] else []))
       (FactsModel.references (model c))) @
     concat (map (\<lambda>f.
         (if FactId_kind (RelationshipFact.source f) = FactKind.Symbol
          then [pair (RelationshipFact.source f) (FactId.Relationship (RelationshipFact.id f))] else []) @
         (if FactId_kind (RelationshipFact.target f) = FactKind.Symbol
          then [pair (RelationshipFact.target f) (FactId.Relationship (RelationshipFact.id f))] else []))
       (FactsModel.relationships (model c))) @
     concat (map (\<lambda>f. concat (map (\<lambda>x. if FactId_kind x = FactKind.Symbol
           then [pair x (FactId.Diagnostic (DiagnosticFact.id f))] else []) (DiagnosticFact.related f)))
       (FactsModel.diagnostics (model c))) @
     concat (map (\<lambda>f.
         map (\<lambda>x. pair (FactId.Symbol x) (FactId.Module (ModuleFact.id f))) (ApiSurface.exports (ModuleFact.api f)) @
         map (\<lambda>x. pair (FactId.Symbol x) (FactId.Module (ModuleFact.id f))) (ApiSurface.entry_points (ModuleFact.api f)))
       (FactsModel.modules (model c))) @
     concat (map (\<lambda>f.
         when_some (ArchitectureRuleFact.rule_from f) (\<lambda>x. if FactId_kind x = FactKind.Symbol
           then [pair x (FactId.ArchitectureRule (ArchitectureRuleFact.id f))] else []) @
         when_some (ArchitectureRuleFact.rule_to f) (\<lambda>x. if FactId_kind x = FactKind.Symbol
           then [pair x (FactId.ArchitectureRule (ArchitectureRuleFact.id f))] else []))
       (FactsModel.architecture_rules (model c)))"

section \<open>The index set\<close>

record FactIndex =
  workspaces :: "FactId list"
  modules :: "FactId list"
  packages :: "FactId list"
  symbols :: "FactId list"
  tests :: "FactId list"
  build_targets :: "FactId list"
  dependencies :: "FactId list"
  relationships :: "FactId list"
  references :: "FactId list"
  diagnostics :: "FactId list"
  architecture_rules :: "FactId list"
  languages :: "FactId list"
  frameworks :: "FactId list"
  entry_points :: "FactId list"
  by_workspace :: ReverseIndex
  by_package :: ReverseIndex
  by_module :: ReverseIndex
  by_symbol :: ReverseIndex

definition indexed :: "'t list \<Rightarrow> ('t \<Rightarrow> FactId) \<Rightarrow> FactId list" where
  "indexed facts to_id = sort (map to_id facts)"

definition FactIndex_build :: "FactCollection \<Rightarrow> FactIndex" where
  "FactIndex_build c = \<lparr>
     FactIndex.workspaces = indexed (FactsModel.workspaces (model c)) (\<lambda>f. FactId.Workspace (WorkspaceFact.id f)),
     modules = indexed (FactsModel.modules (model c)) (\<lambda>f. FactId.Module (ModuleFact.id f)),
     packages = indexed (FactsModel.packages (model c)) (\<lambda>f. FactId.Package (PackageFact.id f)),
     symbols = indexed (FactsModel.symbols (model c)) (\<lambda>f. FactId.Symbol (SymbolFact.id f)),
     tests = indexed (FactsModel.tests (model c)) (\<lambda>f. FactId.Test (TestFact.id f)),
     build_targets = indexed (FactsModel.build_targets (model c)) (\<lambda>f. FactId.BuildTarget (BuildTargetFact.id f)),
     dependencies = indexed (FactsModel.dependencies (model c)) (\<lambda>f. FactId.Dependency (DependencyFact.id f)),
     relationships = indexed (FactsModel.relationships (model c)) (\<lambda>f. FactId.Relationship (RelationshipFact.id f)),
     references = indexed (FactsModel.references (model c)) (\<lambda>f. FactId.Reference (ReferenceFact.id f)),
     diagnostics = indexed (FactsModel.diagnostics (model c)) (\<lambda>f. FactId.Diagnostic (DiagnosticFact.id f)),
     architecture_rules = indexed (FactsModel.architecture_rules (model c)) (\<lambda>f. FactId.ArchitectureRule (ArchitectureRuleFact.id f)),
     languages = indexed (FactsModel.languages (model c)) (\<lambda>f. FactId.Language (LanguageFact.id f)),
     frameworks = indexed (FactsModel.frameworks (model c)) (\<lambda>f. FactId.Framework (FrameworkFact.id f)),
     entry_points = indexed (FactsModel.entry_points (model c)) (\<lambda>f. FactId.EntryPoint (EntryPointFact.id f)),
     by_workspace = ReverseIndex_new (index_workspace c),
     by_package = ReverseIndex_new (index_package c),
     by_module = ReverseIndex_new (index_module c),
     by_symbol = ReverseIndex_new (index_symbol c)\<rparr>"

fun FactIndex_facts_of_kind :: "FactIndex \<Rightarrow> FactKind \<Rightarrow> FactId list" where
  "FactIndex_facts_of_kind x FactKind.Workspace = FactIndex.workspaces x"
| "FactIndex_facts_of_kind x FactKind.Module = FactIndex.modules x"
| "FactIndex_facts_of_kind x FactKind.Package = FactIndex.packages x"
| "FactIndex_facts_of_kind x FactKind.Symbol = FactIndex.symbols x"
| "FactIndex_facts_of_kind x FactKind.Test = FactIndex.tests x"
| "FactIndex_facts_of_kind x FactKind.BuildTarget = FactIndex.build_targets x"
| "FactIndex_facts_of_kind x FactKind.Dependency = FactIndex.dependencies x"
| "FactIndex_facts_of_kind x FactKind.Relationship = FactIndex.relationships x"
| "FactIndex_facts_of_kind x FactKind.Reference = FactIndex.references x"
| "FactIndex_facts_of_kind x FactKind.Diagnostic = FactIndex.diagnostics x"
| "FactIndex_facts_of_kind x FactKind.ArchitectureRule = FactIndex.architecture_rules x"
| "FactIndex_facts_of_kind x FactKind.Language = FactIndex.languages x"
| "FactIndex_facts_of_kind x FactKind.Framework = FactIndex.frameworks x"
| "FactIndex_facts_of_kind x FactKind.EntryPoint = FactIndex.entry_points x"

definition FactIndex_contains_in_kind :: "FactIndex \<Rightarrow> FactKind \<Rightarrow> FactId \<Rightarrow> bool" where
  "FactIndex_contains_in_kind x k i \<longleftrightarrow>
     (case binary_search (FactIndex_facts_of_kind x k) i of Inl _ \<Rightarrow> False | Inr _ \<Rightarrow> True)"

definition FactIndex_kind_len :: "FactIndex \<Rightarrow> FactKind \<Rightarrow> nat" where
  "FactIndex_kind_len x k = length (FactIndex_facts_of_kind x k)"

definition FactIndex_primary_len :: "FactIndex \<Rightarrow> nat" where
  "FactIndex_primary_len x =
     length (FactIndex.workspaces x) +
     length (FactIndex.modules x) +
     length (FactIndex.packages x) +
     length (FactIndex.symbols x) +
     length (FactIndex.tests x) +
     length (FactIndex.build_targets x) +
     length (FactIndex.dependencies x) +
     length (FactIndex.relationships x) +
     length (FactIndex.references x) +
     length (FactIndex.diagnostics x) +
     length (FactIndex.architecture_rules x)"

definition FactIndex_reverse_len :: "FactIndex \<Rightarrow> nat" where
  "FactIndex_reverse_len x =
     ReverseIndex_len (by_workspace x) + ReverseIndex_len (by_package x) +
     ReverseIndex_len (by_module x) + ReverseIndex_len (by_symbol x)"

definition FactIndex_facts_in_workspace :: "FactIndex \<Rightarrow> WorkspaceId \<Rightarrow> FactIdPair list" where
  "FactIndex_facts_in_workspace x ow = ReverseIndex_get (by_workspace x) (FactId.Workspace ow)"

definition FactIndex_facts_in_package :: "FactIndex \<Rightarrow> PackageId \<Rightarrow> FactIdPair list" where
  "FactIndex_facts_in_package x ow = ReverseIndex_get (by_package x) (FactId.Package ow)"

definition FactIndex_facts_in_module :: "FactIndex \<Rightarrow> ModuleId \<Rightarrow> FactIdPair list" where
  "FactIndex_facts_in_module x ow = ReverseIndex_get (by_module x) (FactId.Module ow)"

definition FactIndex_facts_in_symbol :: "FactIndex \<Rightarrow> SymbolId \<Rightarrow> FactIdPair list" where
  "FactIndex_facts_in_symbol x ow = ReverseIndex_get (by_symbol x) (FactId.Symbol ow)"

section \<open>Reverse index laws\<close>

lemma range_end_takeWhile:
  "e \<le> length es \<Longrightarrow>
   range_end es ow e = e + length (takeWhile (\<lambda>p. pair_owner p = ow) (drop e es))"
proof (induction es ow e rule: range_end.induct)
  case (1 es ow e)
  show ?case
  proof (cases "e < length es")
    case True
    then have "drop e es = es ! e # drop (Suc e) es" by (simp add: Cons_nth_drop_Suc)
    with 1 True show ?thesis by (simp add: range_end.simps [of es ow e])
  next
    case False
    with "1.prems" have "e = length es" by simp
    then show ?thesis by (subst range_end.simps) simp
  qed
qed

lemma sorted_owners: "sorted es \<Longrightarrow> sorted (map pair_owner es)"
  by (simp add: sorted_map) (erule sorted_wrt_mono_rel [rotated], auto simp: less_eq_FactIdPair_def)

lemma ReverseIndex_get_sorted:
  assumes "sorted (entries r)"
  shows "ReverseIndex_get r ow = filter (\<lambda>p. pair_owner p = ow) (entries r)"
proof -
  let ?s = "partition_point (\<lambda>p. pair_owner p < ow) (entries r)"
  note owners = sorted_owners [OF assms]
  have "?s \<le> length (entries r)"
    by (simp add: sorted_partition_point [OF owners] length_takeWhile_le)
  then have "ReverseIndex_get r ow = takeWhile (\<lambda>p. pair_owner p = ow) (drop ?s (entries r))"
    by (simp add: ReverseIndex_get_def Let_def range_end_takeWhile takeWhile_eq_take [symmetric])
  then show ?thesis by (simp only: sorted_range_at_partition_point [OF owners])
qed

lemma ReverseIndex_get_new:
  "ReverseIndex_get (ReverseIndex_new es) ow = filter (\<lambda>p. pair_owner p = ow) (sort_dedup es)"
  by (simp add: ReverseIndex_get_sorted ReverseIndex_new_def)

section \<open>The contract of a scope query\<close>

locale scope_query =
  fixes owner_id :: "'i \<Rightarrow> FactId"
    and declared :: "FactCollection \<Rightarrow> FactIdPair list"
    and query :: "FactIndex \<Rightarrow> 'i \<Rightarrow> FactIdPair list"
  assumes query_build:
    "query (FactIndex_build c) i = ReverseIndex_get (ReverseIndex_new (declared c)) (owner_id i)"
begin

lemma query_filter:
  "query (FactIndex_build c) i = filter (\<lambda>p. pair_owner p = owner_id i) (sort_dedup (declared c))"
  by (simp add: query_build ReverseIndex_get_new)

lemma query_exact:
  "set (query (FactIndex_build c) i) = {p \<in> set (declared c). pair_owner p = owner_id i}"
  by (auto simp: query_filter)

lemma query_sorted: "sorted (query (FactIndex_build c) i)"
  by (simp add: query_filter sorted_wrt_filter)

lemma query_distinct: "distinct (query (FactIndex_build c) i)"
  by (simp add: query_filter)

lemma query_members:
  "pair_member ` set (query (FactIndex_build c) i) =
   {x. FactIdPair (owner_id i) x \<in> set (declared c)}"
proof (intro set_eqI iffI)
  fix x assume "x \<in> pair_member ` set (query (FactIndex_build c) i)"
  then obtain p where p: "p \<in> set (declared c)" "pair_owner p = owner_id i" "x = pair_member p"
    by (auto simp: query_exact)
  have "FactIdPair (owner_id i) x = p"
    using FactIdPair.collapse [of p] by (simp only: p(2) p(3) [symmetric])
  with p(1) show "x \<in> {x. FactIdPair (owner_id i) x \<in> set (declared c)}" by simp
next
  fix x assume "x \<in> {x. FactIdPair (owner_id i) x \<in> set (declared c)}"
  then have "FactIdPair (owner_id i) x \<in> set (query (FactIndex_build c) i)" by (simp add: query_exact)
  then show "x \<in> pair_member ` set (query (FactIndex_build c) i)"
    by (rule rev_image_eqI) simp
qed

end

lemmas facts_in_defs =
  FactIndex_facts_in_workspace_def FactIndex_facts_in_package_def
  FactIndex_facts_in_module_def FactIndex_facts_in_symbol_def

interpretation workspace_query: scope_query FactId.Workspace index_workspace FactIndex_facts_in_workspace
  by unfold_locales (simp add: facts_in_defs FactIndex_build_def)

interpretation package_query: scope_query FactId.Package index_package FactIndex_facts_in_package
  by unfold_locales (simp add: facts_in_defs FactIndex_build_def)

interpretation module_query: scope_query FactId.Module index_module FactIndex_facts_in_module
  by unfold_locales (simp add: facts_in_defs FactIndex_build_def)

interpretation symbol_query: scope_query FactId.Symbol index_symbol FactIndex_facts_in_symbol
  by unfold_locales (simp add: facts_in_defs FactIndex_build_def)

section \<open>Primary index laws\<close>

lemma facts_of_kind_build:
  "FactIndex_facts_of_kind (FactIndex_build c) k = sort (map fact_id_of (category (model c) k))"
  by (cases k) (simp_all add: FactIndex_build_def indexed_def comp_def)

lemma contains_in_kind_sorted:
  "sorted (FactIndex_facts_of_kind x k) \<Longrightarrow>
   FactIndex_contains_in_kind x k i \<longleftrightarrow> i \<in> set (FactIndex_facts_of_kind x k)"
  using binary_search_ok_iff [of "FactIndex_facts_of_kind x k" i]
  by (cases "binary_search (FactIndex_facts_of_kind x k) i") (auto simp: FactIndex_contains_in_kind_def)

lemma contains_in_kind_build:
  "FactIndex_contains_in_kind (FactIndex_build c) k i \<longleftrightarrow> i \<in> fact_id_of ` set (category (model c) k)"
  by (simp add: contains_in_kind_sorted facts_of_kind_build)

lemma kind_len_build: "FactIndex_kind_len (FactIndex_build c) k = length (category (model c) k)"
  by (simp add: FactIndex_kind_len_def facts_of_kind_build)

lemma primary_len_build:
  "FactIndex_primary_len (FactIndex_build c) + length (FactsModel.languages (model c)) +
     length (FactsModel.frameworks (model c)) + length (FactsModel.entry_points (model c)) =
   FactCollection_len c"
  by (simp add: FactIndex_primary_len_def FactIndex_build_def indexed_def FactCollection_len_def
      FactsModel_len_def)

section \<open>What the scope indexes declare\<close>

text \<open>
  The members of each scope, written over the fields of the facts and without reference to the
  way the index collects them.
\<close>

definition located_in :: "(SourceLocation \<Rightarrow> 'i option) \<Rightarrow> FactsModel \<Rightarrow> 'i \<Rightarrow> FactId set" where
  "located_in sel m i =
     {FactId.Relationship (RelationshipFact.id f) | f l. f \<in> set (FactsModel.relationships m) \<and>
        RelationshipFact.location f = Some l \<and> sel l = Some i} \<union>
     {FactId.Reference (ReferenceFact.id f) | f l. f \<in> set (FactsModel.references m) \<and>
        ReferenceFact.location f = Some l \<and> sel l = Some i} \<union>
     {FactId.Test (TestFact.id f) | f l. f \<in> set (FactsModel.tests m) \<and>
        TestFact.location f = Some l \<and> sel l = Some i} \<union>
     {FactId.Diagnostic (DiagnosticFact.id f) | f l. f \<in> set (FactsModel.diagnostics m) \<and>
        DiagnosticFact.location f = Some l \<and> sel l = Some i} \<union>
     {FactId.Symbol (SymbolFact.id f) | f. f \<in> set (FactsModel.symbols m) \<and>
        sel (SymbolFact.location f) = Some i}"

definition modules_located_in :: "(SourceLocation \<Rightarrow> 'i option) \<Rightarrow> FactsModel \<Rightarrow> 'i \<Rightarrow> FactId set" where
  "modules_located_in sel m i =
     {FactId.Module (ModuleFact.id f) | f. f \<in> set (FactsModel.modules m) \<and>
        sel (ModuleFact.location f) = Some i}"

definition workspace_scope :: "FactsModel \<Rightarrow> WorkspaceId \<Rightarrow> FactId set" where
  "workspace_scope m w =
     {FactId.Package p | p f. f \<in> set (FactsModel.workspaces m) \<and> WorkspaceFact.id f = w \<and>
        p \<in> set (WorkspaceFact.packages f)} \<union>
     {FactId.Package (PackageFact.id f) | f. f \<in> set (FactsModel.packages m) \<and>
        PackageFact.workspace f = Some w} \<union>
     modules_located_in SourceLocation.workspace m w \<union> located_in SourceLocation.workspace m w"

definition package_scope :: "FactsModel \<Rightarrow> PackageId \<Rightarrow> FactId set" where
  "package_scope m p =
     {FactId.Module (ModuleFact.id f) | f. f \<in> set (FactsModel.modules m) \<and> ModuleFact.package f = Some p} \<union>
     {FactId.BuildTarget (BuildTargetFact.id f) | f. f \<in> set (FactsModel.build_targets m) \<and>
        BuildTargetFact.package f = Some p} \<union>
     {FactId.EntryPoint (EntryPointFact.id f) | f. f \<in> set (FactsModel.entry_points m) \<and>
        EntryPointFact.package f = Some p} \<union>
     modules_located_in SourceLocation.package m p \<union> located_in SourceLocation.package m p"

definition module_scope :: "FactsModel \<Rightarrow> ModuleId \<Rightarrow> FactId set" where
  "module_scope m md =
     {FactId.Symbol (SymbolFact.id f) | f. f \<in> set (FactsModel.symbols m) \<and> SymbolFact.module f = Some md} \<union>
     {FactId.Relationship (RelationshipFact.id f) | f. f \<in> set (FactsModel.relationships m) \<and>
        (RelationshipFact.source f = FactId.Module md \<or> RelationshipFact.target f = FactId.Module md)} \<union>
     located_in SourceLocation.module m md"

definition symbol_scope :: "FactsModel \<Rightarrow> SymbolId \<Rightarrow> FactId set" where
  "symbol_scope m s =
     {FactId.Test (TestFact.id f) | f. f \<in> set (FactsModel.tests m) \<and> s \<in> set (TestFact.tested f)} \<union>
     {FactId.Reference (ReferenceFact.id f) | f. f \<in> set (FactsModel.references m) \<and>
        (ReferenceFact.target f = FactId.Symbol s \<or> ReferenceFact.referrer f = FactId.Symbol s)} \<union>
     {FactId.Relationship (RelationshipFact.id f) | f. f \<in> set (FactsModel.relationships m) \<and>
        (RelationshipFact.source f = FactId.Symbol s \<or> RelationshipFact.target f = FactId.Symbol s)} \<union>
     {FactId.Diagnostic (DiagnosticFact.id f) | f. f \<in> set (FactsModel.diagnostics m) \<and>
        FactId.Symbol s \<in> set (DiagnosticFact.related f)} \<union>
     {FactId.Module (ModuleFact.id f) | f. f \<in> set (FactsModel.modules m) \<and>
        (s \<in> set (ApiSurface.exports (ModuleFact.api f)) \<or> s \<in> set (ApiSurface.entry_points (ModuleFact.api f)))} \<union>
     {FactId.ArchitectureRule (ArchitectureRuleFact.id f) | f. f \<in> set (FactsModel.architecture_rules m) \<and>
        (ArchitectureRuleFact.rule_from f = Some (FactId.Symbol s) \<or>
         ArchitectureRuleFact.rule_to f = Some (FactId.Symbol s))}"

lemma mem_concat_map: "p \<in> set (concat (map g xs)) \<longleftrightarrow> (\<exists>f \<in> set xs. p \<in> set (g f))"
  by simp

lemma mem_map: "p \<in> set (map g xs) \<longleftrightarrow> (\<exists>x \<in> set xs. p = g x)"
  by auto

lemma mem_when_some: "p \<in> set (when_some v g) \<longleftrightarrow> (\<exists>x. v = Some x \<and> p \<in> set (g x))"
  by (cases v) auto

lemma mem_if_module:
  "FactIdPair (FactId.Module md) x \<in> set (if FactId_kind i = FactKind.Module then [FactIdPair i y] else [])
   \<longleftrightarrow> i = FactId.Module md \<and> x = y"
  by auto

lemma mem_if_symbol:
  "FactIdPair (FactId.Symbol s) x \<in> set (if FactId_kind i = FactKind.Symbol then [FactIdPair i y] else [])
   \<longleftrightarrow> i = FactId.Symbol s \<and> x = y"
  by auto

lemma opt_scope_eq: "opt_scope sel l = Some x \<longleftrightarrow> (\<exists>loc. l = Some loc \<and> sel loc = Some x)"
  by (cases l) (auto simp: opt_scope_def)

lemmas pair_membership =
  mem_concat_map mem_map mem_when_some mem_if_module mem_if_symbol opt_scope_eq pair_def mem_Collect_eq

lemma index_workspace_declares:
  "FactIdPair (FactId.Workspace w) x \<in> set (index_workspace c) \<longleftrightarrow> x \<in> workspace_scope (model c) w"
  unfolding index_workspace_def workspace_scope_def located_in_def modules_located_in_def
    set_append Un_iff pair_membership
  by (cases x) auto

lemma index_package_declares:
  "FactIdPair (FactId.Package p) x \<in> set (index_package c) \<longleftrightarrow> x \<in> package_scope (model c) p"
  unfolding index_package_def package_scope_def located_in_def modules_located_in_def
    set_append Un_iff pair_membership
  by (cases x) auto

lemma index_module_declares:
  "FactIdPair (FactId.Module md) x \<in> set (index_module c) \<longleftrightarrow> x \<in> module_scope (model c) md"
  unfolding index_module_def module_scope_def located_in_def
    set_append Un_iff pair_membership
  by (cases x) auto

lemma index_symbol_declares:
  "FactIdPair (FactId.Symbol s) x \<in> set (index_symbol c) \<longleftrightarrow> x \<in> symbol_scope (model c) s"
  unfolding index_symbol_def symbol_scope_def set_append Un_iff pair_membership
  by (cases x) auto

section \<open>Properties\<close>

text \<open>C5: the four scope queries are exact. On a built index, the partition-point search of a reverse
  index returns for an owner precisely the facts that declare it, the set written over the fields
  of the facts, for workspaces, packages, modules and symbols.\<close>

theorem scope_queries_exact:
  "pair_member ` set (FactIndex_facts_in_workspace (FactIndex_build c) w) = workspace_scope (model c) w \<and>
   pair_member ` set (FactIndex_facts_in_package (FactIndex_build c) p) = package_scope (model c) p \<and>
   pair_member ` set (FactIndex_facts_in_module (FactIndex_build c) md) = module_scope (model c) md \<and>
   pair_member ` set (FactIndex_facts_in_symbol (FactIndex_build c) s) = symbol_scope (model c) s"
  by (simp only: workspace_query.query_members package_query.query_members module_query.query_members
      symbol_query.query_members index_workspace_declares index_package_declares index_module_declares
      index_symbol_declares Collect_mem_eq simp_thms)

text \<open>The result of a scope query is canonical: strictly sorted pairs, all of them owned by the id
  that was asked for.\<close>

theorem scope_queries_canonical:
  "sorted_wrt (<) (FactIndex_facts_in_workspace (FactIndex_build c) w) \<and>
   sorted_wrt (<) (FactIndex_facts_in_package (FactIndex_build c) p) \<and>
   sorted_wrt (<) (FactIndex_facts_in_module (FactIndex_build c) md) \<and>
   sorted_wrt (<) (FactIndex_facts_in_symbol (FactIndex_build c) s) \<and>
   pair_owner ` set (FactIndex_facts_in_workspace (FactIndex_build c) w) \<subseteq> {FactId.Workspace w} \<and>
   pair_owner ` set (FactIndex_facts_in_package (FactIndex_build c) p) \<subseteq> {FactId.Package p} \<and>
   pair_owner ` set (FactIndex_facts_in_module (FactIndex_build c) md) \<subseteq> {FactId.Module md} \<and>
   pair_owner ` set (FactIndex_facts_in_symbol (FactIndex_build c) s) \<subseteq> {FactId.Symbol s}"
  by (auto simp: strict_sorted_iff workspace_query.query_sorted package_query.query_sorted
      module_query.query_sorted symbol_query.query_sorted workspace_query.query_distinct
      package_query.query_distinct module_query.query_distinct symbol_query.query_distinct
      workspace_query.query_exact package_query.query_exact module_query.query_exact symbol_query.query_exact)

text \<open>The primary index of a kind is the sorted list of the ids of that kind, whatever the order
  of the collection, and its binary-searched membership test is exact.\<close>

theorem primary_index_exact:
  "FactIndex_facts_of_kind (FactIndex_build c) k = sort (map fact_id_of (category (model c) k)) \<and>
   (FactIndex_contains_in_kind (FactIndex_build c) k i \<longleftrightarrow> i \<in> fact_id_of ` set (category (model c) k)) \<and>
   FactIndex_kind_len (FactIndex_build c) k = length (category (model c) k)"
  by (simp add: facts_of_kind_build contains_in_kind_build kind_len_build)

text \<open>\<open>primary_len\<close>, documented as the total over all kinds, leaves out languages, frameworks and
  entry points: it falls short of the number of facts by exactly those.\<close>

theorem primary_len_shortfall:
  "FactIndex_primary_len (FactIndex_build c) + length (FactsModel.languages (model c)) +
     length (FactsModel.frameworks (model c)) + length (FactsModel.entry_points (model c)) =
   FactCollection_len c"
  by (rule primary_len_build)

end
