(* ===== verification/Fact_Store.thy ===== *)
theory Fact_Store
  imports Fact_Index
begin

text \<open>
  The immutable store aggregate and its read surfaces: \<^verbatim>\<open>fact_store/store.rs\<close>, \<^verbatim>\<open>lookup.rs\<close>,
  \<^verbatim>\<open>query.rs\<close>, \<^verbatim>\<open>snapshot.rs\<close> and \<^verbatim>\<open>statistics.rs\<close>. A borrowed surface (\<open>FactLookup\<close>, \<open>FactQuery\<close>)
  is the store it borrows.

  Snapshots serialise the model with \<open>serde_json\<close>, which is outside the repository: the encoder
  and decoder are parameters (\<open>to_vec\<close>, \<open>from_slice\<close>), and what the code relies on is
  \<open>json_codec\<close>: decoding an encoded model gives the model back.

  The lemmas show that a frozen store answers exactly for the facts it was built from, that a
  snapshot restores to the same store, and how the digest reacts to a changed byte.
\<close>

unbundle bit_operations_syntax

section \<open>The store\<close>

record FactStore =
  collection :: FactCollection
  index :: FactIndex

definition FactStore_build :: "FactsModel \<Rightarrow> FactStore" where
  "FactStore_build m =
     (let c = FactCollection_from_model m; x = FactIndex_build c
      in \<lparr>collection = c, index = x\<rparr>)"

definition FactStore_empty :: FactStore where
  "FactStore_empty = FactStore_build FactsModel_empty"

definition FactStore_len :: "FactStore \<Rightarrow> nat" where
  "FactStore_len s = FactCollection_len (collection s)"

definition FactStore_is_empty :: "FactStore \<Rightarrow> bool" where
  "FactStore_is_empty s = FactCollection_is_empty (collection s)"

section \<open>The store builder\<close>

record FactStoreBuilder =
  facts :: FactsBuilder

definition FactStoreBuilder_new :: FactStoreBuilder where
  "FactStoreBuilder_new = \<lparr>facts = FactsBuilder_new\<rparr>"

definition FactStoreBuilder_add_workspace :: "FactStoreBuilder \<Rightarrow> WorkspaceFact \<Rightarrow> FactStoreBuilder" where
  "FactStoreBuilder_add_workspace b f = b\<lparr>facts := FactsBuilder_add_workspace (facts b) f\<rparr>"

definition FactStoreBuilder_add_module :: "FactStoreBuilder \<Rightarrow> ModuleFact \<Rightarrow> FactStoreBuilder" where
  "FactStoreBuilder_add_module b f = b\<lparr>facts := FactsBuilder_add_module (facts b) f\<rparr>"

definition FactStoreBuilder_add_package :: "FactStoreBuilder \<Rightarrow> PackageFact \<Rightarrow> FactStoreBuilder" where
  "FactStoreBuilder_add_package b f = b\<lparr>facts := FactsBuilder_add_package (facts b) f\<rparr>"

definition FactStoreBuilder_add_symbol :: "FactStoreBuilder \<Rightarrow> SymbolFact \<Rightarrow> FactStoreBuilder" where
  "FactStoreBuilder_add_symbol b f = b\<lparr>facts := FactsBuilder_add_symbol (facts b) f\<rparr>"

definition FactStoreBuilder_add_test :: "FactStoreBuilder \<Rightarrow> TestFact \<Rightarrow> FactStoreBuilder" where
  "FactStoreBuilder_add_test b f = b\<lparr>facts := FactsBuilder_add_test (facts b) f\<rparr>"

definition FactStoreBuilder_add_build_target :: "FactStoreBuilder \<Rightarrow> BuildTargetFact \<Rightarrow> FactStoreBuilder" where
  "FactStoreBuilder_add_build_target b f = b\<lparr>facts := FactsBuilder_add_build_target (facts b) f\<rparr>"

definition FactStoreBuilder_add_dependency :: "FactStoreBuilder \<Rightarrow> DependencyFact \<Rightarrow> FactStoreBuilder" where
  "FactStoreBuilder_add_dependency b f = b\<lparr>facts := FactsBuilder_add_dependency (facts b) f\<rparr>"

definition FactStoreBuilder_add_relationship :: "FactStoreBuilder \<Rightarrow> RelationshipFact \<Rightarrow> FactStoreBuilder" where
  "FactStoreBuilder_add_relationship b f = b\<lparr>facts := FactsBuilder_add_relationship (facts b) f\<rparr>"

definition FactStoreBuilder_add_reference :: "FactStoreBuilder \<Rightarrow> ReferenceFact \<Rightarrow> FactStoreBuilder" where
  "FactStoreBuilder_add_reference b f = b\<lparr>facts := FactsBuilder_add_reference (facts b) f\<rparr>"

definition FactStoreBuilder_add_diagnostic :: "FactStoreBuilder \<Rightarrow> DiagnosticFact \<Rightarrow> FactStoreBuilder" where
  "FactStoreBuilder_add_diagnostic b f = b\<lparr>facts := FactsBuilder_add_diagnostic (facts b) f\<rparr>"

definition FactStoreBuilder_add_architecture_rule :: "FactStoreBuilder \<Rightarrow> ArchitectureRuleFact \<Rightarrow> FactStoreBuilder" where
  "FactStoreBuilder_add_architecture_rule b f = b\<lparr>facts := FactsBuilder_add_architecture_rule (facts b) f\<rparr>"

definition FactStoreBuilder_add_model :: "FactStoreBuilder \<Rightarrow> FactsModel \<Rightarrow> FactStoreBuilder" where
  "FactStoreBuilder_add_model b m =
     (let
        b1 = foldl FactsBuilder_add_workspace (facts b) (FactsModel.workspaces m);
        b2 = foldl FactsBuilder_add_module b1 (FactsModel.modules m);
        b3 = foldl FactsBuilder_add_package b2 (FactsModel.packages m);
        b4 = foldl FactsBuilder_add_symbol b3 (FactsModel.symbols m);
        b5 = foldl FactsBuilder_add_test b4 (FactsModel.tests m);
        b6 = foldl FactsBuilder_add_build_target b5 (FactsModel.build_targets m);
        b7 = foldl FactsBuilder_add_dependency b6 (FactsModel.dependencies m);
        b8 = foldl FactsBuilder_add_relationship b7 (FactsModel.relationships m);
        b9 = foldl FactsBuilder_add_reference b8 (FactsModel.references m);
        b10 = foldl FactsBuilder_add_diagnostic b9 (FactsModel.diagnostics m);
        b11 = foldl FactsBuilder_add_architecture_rule b10 (FactsModel.architecture_rules m);
        b12 = foldl FactsBuilder_add_language b11 (FactsModel.languages m);
        b13 = foldl FactsBuilder_add_framework b12 (FactsModel.frameworks m);
        b14 = foldl FactsBuilder_add_entry_point b13 (FactsModel.entry_points m)
      in b\<lparr>facts := b14\<rparr>)"

definition FactStoreBuilder_build :: "FactStoreBuilder \<Rightarrow> FactStore" where
  "FactStoreBuilder_build b = FactStore_build (FactsBuilder_build (facts b))"

section \<open>Lookup and query surfaces\<close>

definition FactLookup_find :: "FactStore \<Rightarrow> FactId \<Rightarrow> FactRef option" where
  "FactLookup_find s i = FactCollection_find (collection s) i"

definition FactLookup_contains :: "FactStore \<Rightarrow> FactId \<Rightarrow> bool" where
  "FactLookup_contains s i = FactCollection_contains (collection s) i"

definition FactLookup_facts_of_kind :: "FactStore \<Rightarrow> FactKind \<Rightarrow> FactId list" where
  "FactLookup_facts_of_kind s k = FactIndex_facts_of_kind (index s) k"

definition FactLookup_contains_in_kind :: "FactStore \<Rightarrow> FactKind \<Rightarrow> FactId \<Rightarrow> bool" where
  "FactLookup_contains_in_kind s k i = FactIndex_contains_in_kind (index s) k i"

definition FactQuery_by_id :: "FactStore \<Rightarrow> FactId \<Rightarrow> FactRef option" where
  "FactQuery_by_id s i = FactCollection_find (collection s) i"

definition FactQuery_by_kind :: "FactStore \<Rightarrow> FactKind \<Rightarrow> FactId list" where
  "FactQuery_by_kind s k = FactIndex_facts_of_kind (index s) k"

definition FactQuery_by_workspace :: "FactStore \<Rightarrow> WorkspaceId \<Rightarrow> FactIdPair list" where
  "FactQuery_by_workspace s i = FactIndex_facts_in_workspace (index s) i"

definition FactQuery_by_package :: "FactStore \<Rightarrow> PackageId \<Rightarrow> FactIdPair list" where
  "FactQuery_by_package s i = FactIndex_facts_in_package (index s) i"

definition FactQuery_by_module :: "FactStore \<Rightarrow> ModuleId \<Rightarrow> FactIdPair list" where
  "FactQuery_by_module s i = FactIndex_facts_in_module (index s) i"

definition FactQuery_by_symbol :: "FactStore \<Rightarrow> SymbolId \<Rightarrow> FactIdPair list" where
  "FactQuery_by_symbol s i = FactIndex_facts_in_symbol (index s) i"

definition FactQuery_enumerate :: "FactStore \<Rightarrow> FactRef list" where
  "FactQuery_enumerate s = FactCollection_iter (collection s)"

definition FactQuery_filter :: "FactStore \<Rightarrow> (FactId \<Rightarrow> FactRef \<Rightarrow> bool) \<Rightarrow> FactId list" where
  "FactQuery_filter s predicate =
     sort_dedup (map fact_id_of
       (filter (\<lambda>f. predicate (fact_id_of f) f) (FactCollection_iter (collection s))))"

section \<open>Snapshots\<close>

type_synonym bytes = "8 word list"

record FactSnapshot =
  bytes :: bytes
  digest :: string

definition fnv1a64 :: "bytes \<Rightarrow> 64 word" where
  "fnv1a64 bs = foldl (\<lambda>h b. (h XOR ucast b) * 0x100000001b3) 0xcbf29ce484222325 bs"

definition hex_char :: "nat \<Rightarrow> char" where
  "hex_char d = (if d < 10 then char_of (48 + d) else char_of (87 + d) :: char)"

text \<open>The last \<open>w\<close> hexadecimal digits, which for a \<open>u64\<close> and \<open>w = 16\<close> is \<^verbatim>\<open>{:016x}\<close>.\<close>

fun hex_fixed :: "nat \<Rightarrow> nat \<Rightarrow> string" where
  "hex_fixed 0 n = []"
| "hex_fixed (Suc w) n = hex_fixed w (n div 16) @ [hex_char (n mod 16)]"

definition hex_digest :: "bytes \<Rightarrow> string" where
  "hex_digest bs = hex_fixed 16 (unat (fnv1a64 bs))"

definition FactSnapshot_capture :: "(FactsModel \<Rightarrow> bytes) \<Rightarrow> FactStore \<Rightarrow> FactSnapshot" where
  "FactSnapshot_capture to_vec s =
     (let bs = to_vec (model (collection s)) in \<lparr>bytes = bs, digest = hex_digest bs\<rparr>)"

definition FactSnapshot_from_bytes :: "(bytes \<Rightarrow> 'e + FactsModel) \<Rightarrow> bytes \<Rightarrow> 'e + FactSnapshot" where
  "FactSnapshot_from_bytes from_slice bs =
     (case from_slice bs of
        Inl e \<Rightarrow> Inl e
      | Inr _ \<Rightarrow> Inr \<lparr>bytes = bs, digest = hex_digest bs\<rparr>)"

definition FactSnapshot_model :: "(bytes \<Rightarrow> 'e + FactsModel) \<Rightarrow> FactSnapshot \<Rightarrow> 'e + FactsModel" where
  "FactSnapshot_model from_slice sn = from_slice (bytes sn)"

definition FactSnapshot_restore :: "(bytes \<Rightarrow> 'e + FactsModel) \<Rightarrow> FactSnapshot \<Rightarrow> 'e + FactStore" where
  "FactSnapshot_restore from_slice sn =
     (case from_slice (bytes sn) of Inl e \<Rightarrow> Inl e | Inr m \<Rightarrow> Inr (FactStore_build m))"

definition json_codec :: "(FactsModel \<Rightarrow> bytes) \<Rightarrow> (bytes \<Rightarrow> 'e + FactsModel) \<Rightarrow> FactsModel \<Rightarrow> bool" where
  "json_codec to_vec from_slice m \<longleftrightarrow> from_slice (to_vec m) = Inr m"

section \<open>Statistics\<close>

record IndexSizes =
  workspaces :: nat
  modules :: nat
  packages :: nat
  symbols :: nat
  tests :: nat
  build_targets :: nat
  dependencies :: nat
  relationships :: nat
  references :: nat
  diagnostics :: nat
  architecture_rules :: nat
  languages :: nat
  frameworks :: nat
  entry_points :: nat
  total :: nat

record ReverseIndexSizes =
  by_workspace :: nat
  by_package :: nat
  by_module :: nat
  by_symbol :: nat
  total :: nat

record FactStatistics =
  total_facts :: nat
  counts :: ModelCounts
  primary_index :: IndexSizes
  reverse_index :: ReverseIndexSizes
  snapshot_digest :: string

definition primary_sizes :: "FactIndex \<Rightarrow> IndexSizes" where
  "primary_sizes x = \<lparr>
     IndexSizes.workspaces = FactIndex_kind_len x FactKind.Workspace,
     modules = FactIndex_kind_len x FactKind.Module,
     packages = FactIndex_kind_len x FactKind.Package,
     symbols = FactIndex_kind_len x FactKind.Symbol,
     tests = FactIndex_kind_len x FactKind.Test,
     build_targets = FactIndex_kind_len x FactKind.BuildTarget,
     dependencies = FactIndex_kind_len x FactKind.Dependency,
     relationships = FactIndex_kind_len x FactKind.Relationship,
     references = FactIndex_kind_len x FactKind.Reference,
     diagnostics = FactIndex_kind_len x FactKind.Diagnostic,
     architecture_rules = FactIndex_kind_len x FactKind.ArchitectureRule,
     languages = FactIndex_kind_len x FactKind.Language,
     frameworks = FactIndex_kind_len x FactKind.Framework,
     entry_points = FactIndex_kind_len x FactKind.EntryPoint,
     total = FactIndex_primary_len x\<rparr>"

definition reverse_sizes :: "FactIndex \<Rightarrow> ReverseIndexSizes" where
  "reverse_sizes x = \<lparr>
     ReverseIndexSizes.by_workspace = ReverseIndex_len (FactIndex.by_workspace x),
     by_package = ReverseIndex_len (FactIndex.by_package x),
     by_module = ReverseIndex_len (FactIndex.by_module x),
     by_symbol = ReverseIndex_len (FactIndex.by_symbol x),
     total = FactIndex_reverse_len x\<rparr>"

definition FactStatistics_collect :: "(FactsModel \<Rightarrow> bytes) \<Rightarrow> FactStore \<Rightarrow> FactStatistics" where
  "FactStatistics_collect to_vec s = \<lparr>
     FactStatistics.total_facts = FactStore_len s,
     counts = FactCollection_counts (collection s),
     primary_index = primary_sizes (index s),
     reverse_index = reverse_sizes (index s),
     snapshot_digest = digest (FactSnapshot_capture to_vec s)\<rparr>"

fun FactStatistics_count_by_kind :: "FactStatistics \<Rightarrow> FactKind \<Rightarrow> nat" where
  "FactStatistics_count_by_kind st FactKind.Workspace = ModelCounts.workspaces (counts st)"
| "FactStatistics_count_by_kind st FactKind.Module = ModelCounts.modules (counts st)"
| "FactStatistics_count_by_kind st FactKind.Package = ModelCounts.packages (counts st)"
| "FactStatistics_count_by_kind st FactKind.Symbol = ModelCounts.symbols (counts st)"
| "FactStatistics_count_by_kind st FactKind.Test = ModelCounts.tests (counts st)"
| "FactStatistics_count_by_kind st FactKind.BuildTarget = ModelCounts.build_targets (counts st)"
| "FactStatistics_count_by_kind st FactKind.Dependency = ModelCounts.dependencies (counts st)"
| "FactStatistics_count_by_kind st FactKind.Relationship = ModelCounts.relationships (counts st)"
| "FactStatistics_count_by_kind st FactKind.Reference = ModelCounts.references (counts st)"
| "FactStatistics_count_by_kind st FactKind.Diagnostic = ModelCounts.diagnostics (counts st)"
| "FactStatistics_count_by_kind st FactKind.ArchitectureRule = ModelCounts.architecture_rules (counts st)"
| "FactStatistics_count_by_kind st FactKind.Language = ModelCounts.languages (counts st)"
| "FactStatistics_count_by_kind st FactKind.Framework = ModelCounts.frameworks (counts st)"
| "FactStatistics_count_by_kind st FactKind.EntryPoint = ModelCounts.entry_points (counts st)"

section \<open>A frozen store\<close>

definition frozen :: "FactStore \<Rightarrow> bool" where
  "frozen s \<longleftrightarrow> model_sorted (model (collection s)) \<and> index s = FactIndex_build (collection s)"

abbreviation store_facts :: "FactStore \<Rightarrow> FactRef list" where
  "store_facts s \<equiv> model_facts (model (collection s))"

lemma model_build [simp]: "model (collection (FactStore_build m)) = m"
  by (simp add: FactStore_build_def FactCollection_from_model_def Let_def)

lemma index_build [simp]: "index (FactStore_build m) = FactIndex_build (collection (FactStore_build m))"
  by (simp add: FactStore_build_def Let_def)

lemma frozen_build: "frozen (FactStore_build m) \<longleftrightarrow> model_sorted m"
  by (simp add: frozen_def)

lemma frozen_builder: "frozen (FactStoreBuilder_build b)"
  by (simp add: FactStoreBuilder_build_def frozen_build build_sorted)

lemma frozen_contains: "frozen s \<Longrightarrow> FactLookup_contains s i \<longleftrightarrow> i \<in> fact_id_of ` set (store_facts s)"
  by (simp add: FactLookup_contains_def FactCollection_contains_def frozen_def contains_iff)

lemma category_ids: "i \<in> fact_id_of ` set (category m k) \<longleftrightarrow>
    i \<in> fact_id_of ` set (model_facts m) \<and> FactId_kind i = k"
proof
  assume "i \<in> fact_id_of ` set (category m k)"
  then obtain f where f: "f \<in> set (category m k)" "i = fact_id_of f" by blast
  then have "FactId_kind (fact_id_of f) = k" by (simp add: category_kind)
  moreover from this f(1) have "f \<in> set (model_facts m)" by (simp add: mem_model_facts_kind)
  ultimately show "i \<in> fact_id_of ` set (model_facts m) \<and> FactId_kind i = k" using f(2) by blast
next
  assume "i \<in> fact_id_of ` set (model_facts m) \<and> FactId_kind i = k"
  then obtain f where f: "f \<in> set (model_facts m)" "i = fact_id_of f" "FactId_kind (fact_id_of f) = k" by blast
  then have "f \<in> set (category m k)" by (simp add: mem_model_facts_kind)
  then show "i \<in> fact_id_of ` set (category m k)" using f(2) by blast
qed

lemma frozen_contains_in_kind:
  "frozen s \<Longrightarrow> FactLookup_contains_in_kind s k i \<longleftrightarrow> FactLookup_contains s i \<and> FactId_kind i = k"
  by (simp add: frozen_contains FactLookup_contains_in_kind_def frozen_def contains_in_kind_build category_ids)

lemma frozen_find:
  assumes "frozen s" "model_ids_unique (model (collection s))"
  shows "FactLookup_find s i = Some f \<longleftrightarrow> f \<in> set (store_facts s) \<and> fact_id_of f = i"
proof
  assume "FactLookup_find s i = Some f"
  then show "f \<in> set (store_facts s) \<and> fact_id_of f = i"
    by (simp add: FactLookup_find_def FactCollection_find_def find_sound)
next
  assume "f \<in> set (store_facts s) \<and> fact_id_of f = i"
  with assms find_unique show "FactLookup_find s i = Some f"
    by (auto simp: FactLookup_find_def FactCollection_find_def frozen_def)
qed

lemma foldl_add:
  "foldl FactsBuilder_add_workspace b ws = b\<lparr>FactsBuilder.workspaces := FactsBuilder.workspaces b @ ws\<rparr>"
  "foldl FactsBuilder_add_module b ms = b\<lparr>FactsBuilder.modules := FactsBuilder.modules b @ ms\<rparr>"
  "foldl FactsBuilder_add_package b ps = b\<lparr>FactsBuilder.packages := FactsBuilder.packages b @ ps\<rparr>"
  "foldl FactsBuilder_add_symbol b ss = b\<lparr>FactsBuilder.symbols := FactsBuilder.symbols b @ ss\<rparr>"
  "foldl FactsBuilder_add_test b ts = b\<lparr>FactsBuilder.tests := FactsBuilder.tests b @ ts\<rparr>"
  "foldl FactsBuilder_add_build_target b bs = b\<lparr>FactsBuilder.build_targets := FactsBuilder.build_targets b @ bs\<rparr>"
  "foldl FactsBuilder_add_dependency b ds = b\<lparr>FactsBuilder.dependencies := FactsBuilder.dependencies b @ ds\<rparr>"
  "foldl FactsBuilder_add_relationship b rs = b\<lparr>FactsBuilder.relationships := FactsBuilder.relationships b @ rs\<rparr>"
  "foldl FactsBuilder_add_reference b fs = b\<lparr>FactsBuilder.references := FactsBuilder.references b @ fs\<rparr>"
  "foldl FactsBuilder_add_diagnostic b gs = b\<lparr>FactsBuilder.diagnostics := FactsBuilder.diagnostics b @ gs\<rparr>"
  "foldl FactsBuilder_add_architecture_rule b as = b\<lparr>FactsBuilder.architecture_rules := FactsBuilder.architecture_rules b @ as\<rparr>"
  "foldl FactsBuilder_add_language b ls = b\<lparr>FactsBuilder.languages := FactsBuilder.languages b @ ls\<rparr>"
  "foldl FactsBuilder_add_framework b ks = b\<lparr>FactsBuilder.frameworks := FactsBuilder.frameworks b @ ks\<rparr>"
  "foldl FactsBuilder_add_entry_point b es = b\<lparr>FactsBuilder.entry_points := FactsBuilder.entry_points b @ es\<rparr>"
proof -
  show "foldl FactsBuilder_add_workspace b ws = b\<lparr>FactsBuilder.workspaces := FactsBuilder.workspaces b @ ws\<rparr>"
    by (induction ws arbitrary: b) (simp_all add: FactsBuilder_add_workspace_def)
  show "foldl FactsBuilder_add_module b ms = b\<lparr>FactsBuilder.modules := FactsBuilder.modules b @ ms\<rparr>"
    by (induction ms arbitrary: b) (simp_all add: FactsBuilder_add_module_def)
  show "foldl FactsBuilder_add_package b ps = b\<lparr>FactsBuilder.packages := FactsBuilder.packages b @ ps\<rparr>"
    by (induction ps arbitrary: b) (simp_all add: FactsBuilder_add_package_def)
  show "foldl FactsBuilder_add_symbol b ss = b\<lparr>FactsBuilder.symbols := FactsBuilder.symbols b @ ss\<rparr>"
    by (induction ss arbitrary: b) (simp_all add: FactsBuilder_add_symbol_def)
  show "foldl FactsBuilder_add_test b ts = b\<lparr>FactsBuilder.tests := FactsBuilder.tests b @ ts\<rparr>"
    by (induction ts arbitrary: b) (simp_all add: FactsBuilder_add_test_def)
  show "foldl FactsBuilder_add_build_target b bs = b\<lparr>FactsBuilder.build_targets := FactsBuilder.build_targets b @ bs\<rparr>"
    by (induction bs arbitrary: b) (simp_all add: FactsBuilder_add_build_target_def)
  show "foldl FactsBuilder_add_dependency b ds = b\<lparr>FactsBuilder.dependencies := FactsBuilder.dependencies b @ ds\<rparr>"
    by (induction ds arbitrary: b) (simp_all add: FactsBuilder_add_dependency_def)
  show "foldl FactsBuilder_add_relationship b rs = b\<lparr>FactsBuilder.relationships := FactsBuilder.relationships b @ rs\<rparr>"
    by (induction rs arbitrary: b) (simp_all add: FactsBuilder_add_relationship_def)
  show "foldl FactsBuilder_add_reference b fs = b\<lparr>FactsBuilder.references := FactsBuilder.references b @ fs\<rparr>"
    by (induction fs arbitrary: b) (simp_all add: FactsBuilder_add_reference_def)
  show "foldl FactsBuilder_add_diagnostic b gs = b\<lparr>FactsBuilder.diagnostics := FactsBuilder.diagnostics b @ gs\<rparr>"
    by (induction gs arbitrary: b) (simp_all add: FactsBuilder_add_diagnostic_def)
  show "foldl FactsBuilder_add_architecture_rule b as = b\<lparr>FactsBuilder.architecture_rules := FactsBuilder.architecture_rules b @ as\<rparr>"
    by (induction as arbitrary: b) (simp_all add: FactsBuilder_add_architecture_rule_def)
  show "foldl FactsBuilder_add_language b ls = b\<lparr>FactsBuilder.languages := FactsBuilder.languages b @ ls\<rparr>"
    by (induction ls arbitrary: b) (simp_all add: FactsBuilder_add_language_def)
  show "foldl FactsBuilder_add_framework b ks = b\<lparr>FactsBuilder.frameworks := FactsBuilder.frameworks b @ ks\<rparr>"
    by (induction ks arbitrary: b) (simp_all add: FactsBuilder_add_framework_def)
  show "foldl FactsBuilder_add_entry_point b es = b\<lparr>FactsBuilder.entry_points := FactsBuilder.entry_points b @ es\<rparr>"
    by (induction es arbitrary: b) (simp_all add: FactsBuilder_add_entry_point_def)
qed

text \<open>
  Absorbing a sorted model into a fresh builder rebuilds its facts; the generation-time
  repository state and the file digests are not absorbed.
\<close>

lemma add_model_new_build:
  assumes "model_sorted m"
  shows "FactsBuilder_build (facts (FactStoreBuilder_add_model FactStoreBuilder_new m)) =
         m\<lparr>FactsModel.generation_repo_state := None, FactsModel.file_digests := None\<rparr>"
  using model_sortedD [OF assms]
  by (simp add: FactStoreBuilder_add_model_def FactStoreBuilder_new_def FactsBuilder_new_def
      FactsBuilder_build_def foldl_add carrier_sorted_id)

section \<open>Query results\<close>

lemma filter_exact:
  "set (FactQuery_filter s P) = {fact_id_of f | f. f \<in> set (store_facts s) \<and> P (fact_id_of f) f}"
  by (auto simp: FactQuery_filter_def iter_eq_model_facts)

lemma filter_canonical: "sorted (FactQuery_filter s P)" "distinct (FactQuery_filter s P)"
  by (simp_all add: FactQuery_filter_def)

lemma counts_by_kind:
  "FactStatistics_count_by_kind (FactStatistics_collect to_vec s) k = length (category (model (collection s)) k)"
  by (cases k) (simp_all add: FactStatistics_collect_def FactCollection_counts_def FactsModel_counts_def)

section \<open>Digests\<close>

text \<open>The FNV prime is odd, hence invertible modulo \<open>2 ^ 64\<close>: no step of the hash loses information.\<close>

lemma fnv_prime_inverse: "(0x100000001b3 :: 64 word) * 14886173955864302971 = 1"
  by simp

lemma fnv_prime_cancel: "x * 0x100000001b3 = y * (0x100000001b3 :: 64 word) \<longleftrightarrow> x = y"
proof
  assume "x * 0x100000001b3 = y * (0x100000001b3 :: 64 word)"
  then have "x * (0x100000001b3 * 14886173955864302971) = y * (0x100000001b3 * 14886173955864302971)"
    unfolding mult.assoc [symmetric] by (rule arg_cong)
  then show "x = y" unfolding fnv_prime_inverse by simp
qed simp

lemma xor_cancel_right: "g XOR (w :: 64 word) = h XOR w \<longleftrightarrow> g = h"
  by (auto simp: bit_eq_iff bit_xor_iff)

lemma xor_cancel_left: "(w :: 64 word) XOR g = w XOR h \<longleftrightarrow> g = h"
  by (auto simp: bit_eq_iff bit_xor_iff)

lemma fnv_suffix_inj:
  "foldl (\<lambda>h b. (h XOR ucast b) * 0x100000001b3) g bs =
   foldl (\<lambda>h b. (h XOR ucast (b :: 8 word)) * 0x100000001b3) h bs \<longleftrightarrow> g = (h :: 64 word)"
  by (induction bs arbitrary: g h) (simp_all add: fnv_prime_cancel xor_cancel_right)

lemma ucast_8_64_inj: "(ucast (a :: 8 word) :: 64 word) = ucast b \<longleftrightarrow> a = b"
proof
  assume "(ucast a :: 64 word) = ucast b"
  then have "bit (ucast a :: 64 word) n = bit (ucast b :: 64 word) n" for n by simp
  then have "n < 64 \<and> bit a n \<longleftrightarrow> n < 64 \<and> bit b n" for n by (simp add: bit_ucast_iff)
  then have "bit a n = bit b n" if "n < 8" for n
  proof -
    have "n < 64" using that by simp
    with \<open>\<And>n. n < 64 \<and> bit a n \<longleftrightarrow> n < 64 \<and> bit b n\<close> [of n] show ?thesis by simp
  qed
  then show "a = b" by (intro bit_word_eqI) simp
qed simp

lemma fnv_byte_sensitive:
  "fnv1a64 (xs @ a # ys) = fnv1a64 (xs @ b # ys) \<longleftrightarrow> a = b"
  by (simp add: fnv1a64_def fnv_suffix_inj fnv_prime_cancel xor_cancel_left ucast_8_64_inj)

lemma of_char_hex_char: "d < 16 \<Longrightarrow> of_char (hex_char d) = (if d < 10 then 48 + d else 87 + d)"
  by (simp add: hex_char_def take_bit_nat_eq_self)

lemma hex_char_inj: "a < 16 \<Longrightarrow> b < 16 \<Longrightarrow> hex_char a = hex_char b \<longleftrightarrow> a = b"
proof
  assume ab: "a < 16" "b < 16" and eq: "hex_char a = hex_char b"
  have "(if a < 10 then 48 + a else 87 + a) = (if b < 10 then 48 + b else 87 + b)"
    using arg_cong [OF eq, of "of_char :: char \<Rightarrow> nat"] by (simp only: of_char_hex_char ab)
  then show "a = b" using ab by (simp split: if_splits)
qed simp

lemma hex_fixed_inj:
  "a < 16 ^ w \<Longrightarrow> b < 16 ^ w \<Longrightarrow> hex_fixed w a = hex_fixed w b \<longleftrightarrow> a = b"
proof (induction w arbitrary: a b)
  case 0
  then show ?case by simp
next
  case (Suc w)
  then have "a div 16 < 16 ^ w" "b div 16 < 16 ^ w" by (simp_all add: less_mult_imp_div_less mult.commute)
  with Suc.IH have "hex_fixed (Suc w) a = hex_fixed (Suc w) b \<longleftrightarrow> a div 16 = b div 16 \<and> a mod 16 = b mod 16"
    by (simp add: hex_char_inj)
  also have "\<dots> \<longleftrightarrow> a = b" by (metis div_mult_mod_eq)
  finally show ?case .
qed

lemma length_hex_fixed [simp]: "length (hex_fixed w n) = w"
  by (induction w arbitrary: n) simp_all

lemma hex_digest_iff: "hex_digest xs = hex_digest ys \<longleftrightarrow> fnv1a64 xs = fnv1a64 ys"
proof -
  have "unat (w :: 64 word) < 16 ^ 16" for w using unsigned_less [of w, where 'a = nat] by simp
  then show ?thesis by (simp add: hex_digest_def hex_fixed_inj word_unat_eq_iff)
qed

section \<open>Properties\<close>

text \<open>A store built from a builder refines the finite map from ids to facts: \<open>contains\<close> holds
  exactly for the ids of the added facts, and the index-backed \<open>contains_in_kind\<close> exactly for
  those of the given kind.\<close>

theorem store_membership_exact:
  "(FactLookup_contains (FactStoreBuilder_build b) i \<longleftrightarrow>
      i \<in> fact_id_of ` set (model_facts (builder_as_model (facts b)))) \<and>
   (FactLookup_contains_in_kind (FactStoreBuilder_build b) k i \<longleftrightarrow>
      FactLookup_contains (FactStoreBuilder_build b) i \<and> FactId_kind i = k)"
proof -
  have "FactLookup_contains (FactStoreBuilder_build b) i \<longleftrightarrow>
      i \<in> fact_id_of ` set (model_facts (builder_as_model (facts b)))"
    using frozen_contains [OF frozen_builder, of b i] by (simp add: FactStoreBuilder_build_def set_build)
  then show ?thesis using frozen_contains_in_kind [OF frozen_builder, of b k i] by blast
qed

text \<open>A filter query returns precisely the ids of the stored facts that satisfy the predicate, in
  strictly ascending order.\<close>

theorem filter_query_exact:
  "set (FactQuery_filter s P) = {fact_id_of f | f. f \<in> set (store_facts s) \<and> P (fact_id_of f) f} \<and>
   sorted_wrt (<) (FactQuery_filter s P)"
  using filter_exact filter_canonical by (simp add: strict_sorted_iff)

lemma frozen_rebuild: "frozen s \<Longrightarrow> FactStore_build (model (collection s)) = s"
proof -
  assume f: "frozen s"
  have "FactCollection_from_model (model (collection s)) = collection s"
    by (cases "collection s") (simp add: FactCollection_from_model_def)
  with f show ?thesis by (simp add: FactStore_build_def Let_def frozen_def)
qed


lemma category_empty: "category FactsModel_empty k = []"
  by (cases k) (simp_all add: FactsModel_empty_def)

lemma frozen_empty: "frozen FactStore_empty"
  by (simp add: FactStore_empty_def frozen_build model_sorted_def category_empty)


text \<open>The snapshot digest (FNV-1a over the bytes, printed as sixteen hexadecimal digits) changes
  whenever a single byte changes, at every position and for every value of the rest.\<close>

theorem digest_detects_byte_change:
  "hex_digest (xs @ a # ys) = hex_digest (xs @ b # ys) \<longleftrightarrow> a = b"
  by (simp add: hex_digest_iff fnv_byte_sensitive)

text \<open>Absorbing a sorted model into an empty store builder and freezing it again reproduces all
  its facts; only the generation-time repository state and the file digests are dropped.\<close>

theorem add_model_rebuilds_store:
  assumes "model_sorted m"
  shows "FactStoreBuilder_build (FactStoreBuilder_add_model FactStoreBuilder_new m) =
    FactStore_build (m\<lparr>FactsModel.generation_repo_state := None, FactsModel.file_digests := None\<rparr>)"
  by (simp add: FactStoreBuilder_build_def add_model_new_build [OF assms])

lemma add_model_rebuilds_store_witness:
  "FactStoreBuilder_build (FactStoreBuilder_add_model FactStoreBuilder_new (FactsBuilder_build sample_facts)) =
   FactStore_build (FactsBuilder_build sample_facts)"
  using add_model_rebuilds_store [OF build_sorted, of sample_facts]
  by (simp add: FactsBuilder_build_def sample_facts_simps)

text \<open>The statistics of a frozen store agree with its contents: the per-kind counts and primary
  index sizes are the category sizes, and the total is their sum over all kinds.\<close>

lemma statistics_agree:
  assumes "frozen s"
  shows "FactStatistics_count_by_kind (FactStatistics_collect to_vec s) k = length (category (model (collection s)) k) \<and>
    FactIndex_kind_len (index s) k = FactStatistics_count_by_kind (FactStatistics_collect to_vec s) k \<and>
    FactStatistics.total_facts (FactStatistics_collect to_vec s) =
      (\<Sum>j \<leftarrow> FactKind_ALL. FactStatistics_count_by_kind (FactStatistics_collect to_vec s) j)"
proof -
  have "FactStatistics.total_facts (FactStatistics_collect to_vec s) = FactsModel_len (model (collection s))"
    by (simp add: FactStatistics_collect_def FactStore_len_def FactCollection_len_def)
  then show ?thesis
    using assms by (simp add: counts_by_kind len_eq_sum_kinds kind_len_build frozen_def)
qed

end
