(* ===== verification/Facts_Validation.thy ===== *)
theory Facts_Validation
  imports Facts_Model
begin

text \<open>
  The deterministic validator of the facts model (\<^verbatim>\<open>engineering_facts/validation.rs\<close>): the id
  universe, the eight rules in source order, and the sorted report. Each rule of the source's
  \<open>validate\<close> is one definition returning the issues it pushes; \<open>FactsValidator_validate\<close>
  concatenates them and sorts. Rule 2 iterates over a \<open>HashMap\<close>; the order of that iteration is
  a parameter (\<open>visit\<close>), about which only \<open>iteration_order\<close> is assumed.

  The lemmas characterise the report: when it passes (\<open>facts_well_formed\<close>), that its issues
  are sorted and do not depend on the hash order, and which rules may only warn.
\<close>

section \<open>Issues and reports\<close>

record ValidationIssue =
  rule :: ValidationRule
  severity :: Severity
  entity :: FactId
  message :: string

record ValidationReport =
  issues :: "ValidationIssue list"
  checked_entities :: nat

definition is_error :: "Severity \<Rightarrow> bool" where
  "is_error s \<longleftrightarrow> s = Severity.Error \<or> s = Severity.Fatal"

definition ValidationReport_passed :: "ValidationReport \<Rightarrow> bool" where
  "ValidationReport_passed r \<longleftrightarrow>
     \<not> list_ex (\<lambda>i. is_error (ValidationIssue.severity i)) (ValidationReport.issues r)"

definition ValidationReport_issue_count :: "ValidationReport \<Rightarrow> nat" where
  "ValidationReport_issue_count r = length (ValidationReport.issues r)"

definition ValidationReport_count_by_rule :: "ValidationReport \<Rightarrow> ValidationRule \<Rightarrow> nat" where
  "ValidationReport_count_by_rule r rl =
     length (filter (\<lambda>i. ValidationIssue.rule i = rl) (ValidationReport.issues r))"

definition ValidationReport_error_count :: "ValidationReport \<Rightarrow> nat" where
  "ValidationReport_error_count r =
     length (filter (\<lambda>i. is_error (ValidationIssue.severity i)) (ValidationReport.issues r))"

definition ValidationReport_warning_count :: "ValidationReport \<Rightarrow> nat" where
  "ValidationReport_warning_count r =
     length (filter (\<lambda>i. ValidationIssue.severity i = Severity.Warning) (ValidationReport.issues r))"

section \<open>The id universe\<close>

record Universe =
  ordered :: "(FactKind \<times> string) list"
  known :: "string set"

definition FactsValidator_universe :: "FactsModel \<Rightarrow> Universe" where
  "FactsValidator_universe m =
     (let ids =
        map (\<lambda>f. (FactKind.Workspace, id_str (WorkspaceFact.id f))) (FactsModel.workspaces m) @
        map (\<lambda>f. (FactKind.Module, id_str (ModuleFact.id f))) (FactsModel.modules m) @
        map (\<lambda>f. (FactKind.Package, id_str (PackageFact.id f))) (FactsModel.packages m) @
        map (\<lambda>f. (FactKind.Symbol, id_str (SymbolFact.id f))) (FactsModel.symbols m) @
        map (\<lambda>f. (FactKind.Test, id_str (TestFact.id f))) (FactsModel.tests m) @
        map (\<lambda>f. (FactKind.BuildTarget, id_str (BuildTargetFact.id f))) (FactsModel.build_targets m) @
        map (\<lambda>f. (FactKind.Dependency, id_str (DependencyFact.id f))) (FactsModel.dependencies m) @
        map (\<lambda>f. (FactKind.Relationship, id_str (RelationshipFact.id f))) (FactsModel.relationships m) @
        map (\<lambda>f. (FactKind.Reference, id_str (ReferenceFact.id f))) (FactsModel.references m) @
        map (\<lambda>f. (FactKind.Diagnostic, id_str (DiagnosticFact.id f))) (FactsModel.diagnostics m) @
        map (\<lambda>f. (FactKind.ArchitectureRule, id_str (ArchitectureRuleFact.id f))) (FactsModel.architecture_rules m) @
        map (\<lambda>f. (FactKind.Language, id_str (LanguageFact.id f))) (FactsModel.languages m) @
        map (\<lambda>f. (FactKind.Framework, id_str (FrameworkFact.id f))) (FactsModel.frameworks m) @
        map (\<lambda>f. (FactKind.EntryPoint, id_str (EntryPointFact.id f))) (FactsModel.entry_points m)
      in \<lparr>ordered = ids, known = set (map snd ids)\<rparr>)"

section \<open>The checks\<close>

definition check_endpoint :: "Universe \<Rightarrow> string \<Rightarrow> FactId \<Rightarrow> ValidationIssue list" where
  "check_endpoint u what i =
     (if FactId_as_str i \<notin> known u
      then [\<lparr>ValidationIssue.rule = ValidationRule.InvalidReference, severity = Severity.Error,
             entity = i, message = what @ '' does not resolve to a known fact''\<rparr>]
      else [])"

text \<open>The generic parameter \<open>K: FactIdKind\<close> enters through its constant \<open>K::KIND\<close> only.\<close>

definition check_typed_endpoint :: "FactKind \<Rightarrow> Universe \<Rightarrow> string \<Rightarrow> 'k opaque_id \<Rightarrow> ValidationIssue list" where
  "check_typed_endpoint k u what i =
     (if id_str i \<notin> known u
      then [\<lparr>ValidationIssue.rule = ValidationRule.InvalidReference, severity = Severity.Error,
             entity = FactId_new k (id_str i),
             message = what @ '' does not resolve to a known fact''\<rparr>]
      else [])"

definition broken_location :: "FactKind \<Rightarrow> string \<Rightarrow> string \<Rightarrow> ValidationIssue" where
  "broken_location k s msg =
     \<lparr>ValidationIssue.rule = ValidationRule.BrokenLocation, severity = Severity.Error,
      entity = FactId_new k s, message = msg\<rparr>"

definition check_location :: "Universe \<Rightarrow> string \<Rightarrow> SourceLocation \<Rightarrow> ValidationIssue list" where
  "check_location u holder loc =
     (case SourceLocation.workspace loc of
        None \<Rightarrow> []
      | Some w \<Rightarrow> if id_str w \<notin> known u
          then [broken_location FactKind.Workspace (id_str w) (holder @ '' location workspace does not resolve'')]
          else []) @
     (case SourceLocation.package loc of
        None \<Rightarrow> []
      | Some p \<Rightarrow> if id_str p \<notin> known u
          then [broken_location FactKind.Package (id_str p) (holder @ '' location package does not resolve'')]
          else []) @
     (case SourceLocation.module loc of
        None \<Rightarrow> []
      | Some md \<Rightarrow> if id_str md \<notin> known u
          then [broken_location FactKind.Module (id_str md) (holder @ '' location module does not resolve'')]
          else [])"

section \<open>The eight rules\<close>

definition id_string_order :: "FactKind \<times> string \<Rightarrow> string \<times> FactKind" where
  "id_string_order p = (snd p, fst p)"

definition duplicate_id_issues :: "Universe \<Rightarrow> ValidationIssue list" where
  "duplicate_id_issues u =
     concat (map (\<lambda>((k, s), n).
         if n > 1 then
           [\<lparr>ValidationIssue.rule = ValidationRule.DuplicateIds, severity = Severity.Error,
             entity = FactId_new k s,
             message = ''id appears '' @ show_nat n @ '' times in the model''\<rparr>]
         else [])
       (id_runs (sort_key id_string_order (ordered u))))"

definition edge_key :: "RelationshipFact \<Rightarrow> RelationshipKind \<times> string \<times> string" where
  "edge_key r = (RelationshipFact.kind r, FactId_as_str (RelationshipFact.source r),
     FactId_as_str (RelationshipFact.target r))"

type_synonym edge_entry = "(RelationshipKind \<times> string \<times> string) \<times> string list"

definition edge_keys :: "FactsModel \<Rightarrow> edge_entry list" where
  "edge_keys m = group_pushes edge_key (\<lambda>r. id_str (RelationshipFact.id r)) (FactsModel.relationships m)"

definition duplicate_edge_issue :: "edge_entry \<Rightarrow> ValidationIssue list" where
  "duplicate_edge_issue e =
     (if length (snd e) > 1 then
        [\<lparr>ValidationIssue.rule = ValidationRule.DuplicateRelationships, severity = Severity.Error,
          entity = FactId_new FactKind.Relationship (RelationshipKind_as_str (fst (fst e))),
          message = show_nat (length (snd e)) @
            '' duplicate relationships share (kind, source, target): '' @ join '', '' (snd e)\<rparr>]
      else [])"

definition duplicate_relationship_issues ::
    "(edge_entry list \<Rightarrow> edge_entry list) \<Rightarrow> FactsModel \<Rightarrow> ValidationIssue list" where
  "duplicate_relationship_issues visit m = concat (map duplicate_edge_issue (visit (edge_keys m)))"

definition invalid_reference_issues :: "Universe \<Rightarrow> FactsModel \<Rightarrow> ValidationIssue list" where
  "invalid_reference_issues u m =
     concat (map (\<lambda>r. check_endpoint u ''relationship source'' (RelationshipFact.source r) @
                      check_endpoint u ''relationship target'' (RelationshipFact.target r))
       (FactsModel.relationships m)) @
     concat (map (\<lambda>r. check_endpoint u ''reference referrer'' (ReferenceFact.referrer r) @
                      check_endpoint u ''reference target'' (ReferenceFact.target r))
       (FactsModel.references m)) @
     concat (map (\<lambda>d. check_endpoint u ''dependency source'' (DependencyFact.source d) @
                      check_endpoint u ''dependency target'' (DependencyFact.target d))
       (FactsModel.dependencies m)) @
     concat (map (\<lambda>s. when_some (SymbolFact.module s)
                        (check_typed_endpoint FactKind.Module u ''symbol module''))
       (FactsModel.symbols m)) @
     concat (map (\<lambda>md. when_some (ModuleFact.package md)
                          (check_typed_endpoint FactKind.Package u ''module package'') @
                       concat (map (check_typed_endpoint FactKind.Symbol u ''module api export'')
                          (ApiSurface.exports (ModuleFact.api md))) @
                       concat (map (check_typed_endpoint FactKind.Symbol u ''module api entry point'')
                          (ApiSurface.entry_points (ModuleFact.api md))))
       (FactsModel.modules m)) @
     concat (map (\<lambda>p. when_some (PackageFact.workspace p)
                        (check_typed_endpoint FactKind.Workspace u ''package workspace'') @
                      concat (map (check_typed_endpoint FactKind.BuildTarget u ''package build target'')
                        (PackageFact.build_targets p)))
       (FactsModel.packages m)) @
     concat (map (\<lambda>w. concat (map (check_typed_endpoint FactKind.Package u ''workspace package'')
                        (WorkspaceFact.packages w)))
       (FactsModel.workspaces m)) @
     concat (map (\<lambda>t. when_some (TestFact.target t) (check_endpoint u ''test target'') @
                      concat (map (check_typed_endpoint FactKind.Symbol u ''test tested symbol'')
                        (TestFact.tested t)))
       (FactsModel.tests m)) @
     concat (map (\<lambda>b. when_some (BuildTargetFact.package b)
                        (check_typed_endpoint FactKind.Package u ''build target package''))
       (FactsModel.build_targets m)) @
     concat (map (\<lambda>d. concat (map (check_endpoint u ''diagnostic related'') (DiagnosticFact.related d)))
       (FactsModel.diagnostics m)) @
     concat (map (\<lambda>a. when_some (ArchitectureRuleFact.rule_from a) (check_endpoint u ''rule from'') @
                      when_some (ArchitectureRuleFact.rule_to a) (check_endpoint u ''rule to''))
       (FactsModel.architecture_rules m))"

definition self_reference_issues :: "FactsModel \<Rightarrow> ValidationIssue list" where
  "self_reference_issues m =
     concat (map (\<lambda>r. if RelationshipFact.source r = RelationshipFact.target r then
         [\<lparr>ValidationIssue.rule = ValidationRule.SelfReference, severity = Severity.Error,
           entity = FactId_new FactKind.Relationship (id_str (RelationshipFact.id r)),
           message = ''relationship '' @ RelationshipKind_as_str (RelationshipFact.kind r) @
             '' is a self-reference ('' @ FactId_as_str (RelationshipFact.source r) @ '')''\<rparr>]
         else []) (FactsModel.relationships m)) @
     concat (map (\<lambda>r. if ReferenceFact.referrer r = ReferenceFact.target r then
         [\<lparr>ValidationIssue.rule = ValidationRule.SelfReference, severity = Severity.Error,
           entity = FactId_new FactKind.Reference (id_str (ReferenceFact.id r)),
           message = ''reference points to its own referrer''\<rparr>]
         else []) (FactsModel.references m))"

definition self_dependency_issues :: "FactsModel \<Rightarrow> ValidationIssue list" where
  "self_dependency_issues m =
     concat (map (\<lambda>d. if DependencyFact.source d = DependencyFact.target d then
         [\<lparr>ValidationIssue.rule = ValidationRule.SelfDependency, severity = Severity.Error,
           entity = FactId_new FactKind.Dependency (id_str (DependencyFact.id d)),
           message = ''dependency '' @ DependencyKind_as_str (DependencyFact.kind d) @
             '' is a self-dependency ('' @ FactId_as_str (DependencyFact.source d) @ '')''\<rparr>]
         else []) (FactsModel.dependencies m))"

definition broken_location_issues :: "Universe \<Rightarrow> FactsModel \<Rightarrow> ValidationIssue list" where
  "broken_location_issues u m =
     concat (map (\<lambda>s. check_location u ''symbol'' (SymbolFact.location s)) (FactsModel.symbols m)) @
     concat (map (\<lambda>md. check_location u ''module'' (ModuleFact.location md)) (FactsModel.modules m)) @
     concat (map (\<lambda>r. when_some (RelationshipFact.location r) (check_location u ''relationship''))
       (FactsModel.relationships m)) @
     concat (map (\<lambda>r. when_some (ReferenceFact.location r) (check_location u ''reference''))
       (FactsModel.references m)) @
     concat (map (\<lambda>t. when_some (TestFact.location t) (check_location u ''test''))
       (FactsModel.tests m)) @
     concat (map (\<lambda>d. when_some (DiagnosticFact.location d) (check_location u ''diagnostic''))
       (FactsModel.diagnostics m))"

definition visibility_issues :: "FactsModel \<Rightarrow> ValidationIssue list" where
  "visibility_issues m =
     concat (map (\<lambda>s. if SymbolFact.visibility s = Visibility.Unknown then
         [\<lparr>ValidationIssue.rule = ValidationRule.InvalidVisibility, severity = Severity.Warning,
           entity = FactId_new FactKind.Symbol (id_str (SymbolFact.id s)),
           message = ''symbol visibility is unknown/unresolved''\<rparr>]
         else []) (FactsModel.symbols m)) @
     concat (map (\<lambda>md. if ModuleFact.visibility md = Visibility.Unknown then
         [\<lparr>ValidationIssue.rule = ValidationRule.InvalidVisibility, severity = Severity.Warning,
           entity = FactId_new FactKind.Module (id_str (ModuleFact.id md)),
           message = ''module visibility is unknown/unresolved''\<rparr>]
         else []) (FactsModel.modules m))"

definition claims_target :: "RelationshipKind \<Rightarrow> bool" where
  "claims_target k \<longleftrightarrow> k = RelationshipKind.Owns \<or> k = RelationshipKind.Contains \<or>
     k = RelationshipKind.Defines \<or> k = RelationshipKind.Declares"

definition claimed_ids :: "FactsModel \<Rightarrow> string set" where
  "claimed_ids m = set (map (\<lambda>r. FactId_as_str (RelationshipFact.target r))
     (filter (\<lambda>r. claims_target (RelationshipFact.kind r)) (FactsModel.relationships m)))"

definition orphan_symbol_issues :: "FactsModel \<Rightarrow> ValidationIssue list" where
  "orphan_symbol_issues m =
     concat (map (\<lambda>s. if SymbolFact.module s = None \<and> id_str (SymbolFact.id s) \<notin> claimed_ids m then
         [\<lparr>ValidationIssue.rule = ValidationRule.OrphanSymbol, severity = Severity.Warning,
           entity = FactId_new FactKind.Symbol (id_str (SymbolFact.id s)),
           message = ''symbol is not owned by any module''\<rparr>]
         else []) (FactsModel.symbols m))"

definition issue_order :: "ValidationIssue \<Rightarrow> ValidationRule \<times> FactId \<times> string" where
  "issue_order i = (ValidationIssue.rule i, ValidationIssue.entity i, ValidationIssue.message i)"

definition raw_issues :: "(edge_entry list \<Rightarrow> edge_entry list) \<Rightarrow> FactsModel \<Rightarrow> ValidationIssue list" where
  "raw_issues visit m =
     (let u = FactsValidator_universe m in
      duplicate_id_issues u @ duplicate_relationship_issues visit m @ invalid_reference_issues u m @
      self_reference_issues m @ self_dependency_issues m @ broken_location_issues u m @
      visibility_issues m @ orphan_symbol_issues m)"

definition FactsValidator_validate ::
    "(edge_entry list \<Rightarrow> edge_entry list) \<Rightarrow> FactsModel \<Rightarrow> ValidationReport" where
  "FactsValidator_validate visit m =
     \<lparr>ValidationReport.issues = sort_key issue_order (raw_issues visit m),
      checked_entities = length (ordered (FactsValidator_universe m))\<rparr>"

section \<open>What it means for a model to be well formed\<close>

definition resolves :: "FactsModel \<Rightarrow> string \<Rightarrow> bool" where
  "resolves m s \<longleftrightarrow> s \<in> fact_key ` set (model_facts m)"

definition references_resolve :: "FactsModel \<Rightarrow> bool" where
  "references_resolve m \<longleftrightarrow>
     (\<forall>r \<in> set (FactsModel.relationships m).
        resolves m (FactId_as_str (RelationshipFact.source r)) \<and>
        resolves m (FactId_as_str (RelationshipFact.target r))) \<and>
     (\<forall>r \<in> set (FactsModel.references m).
        resolves m (FactId_as_str (ReferenceFact.referrer r)) \<and>
        resolves m (FactId_as_str (ReferenceFact.target r))) \<and>
     (\<forall>d \<in> set (FactsModel.dependencies m).
        resolves m (FactId_as_str (DependencyFact.source d)) \<and>
        resolves m (FactId_as_str (DependencyFact.target d))) \<and>
     (\<forall>s \<in> set (FactsModel.symbols m). \<forall>md \<in> set_option (SymbolFact.module s). resolves m (id_str md)) \<and>
     (\<forall>md \<in> set (FactsModel.modules m).
        (\<forall>p \<in> set_option (ModuleFact.package md). resolves m (id_str p)) \<and>
        (\<forall>e \<in> set (ApiSurface.exports (ModuleFact.api md)). resolves m (id_str e)) \<and>
        (\<forall>e \<in> set (ApiSurface.entry_points (ModuleFact.api md)). resolves m (id_str e))) \<and>
     (\<forall>p \<in> set (FactsModel.packages m).
        (\<forall>w \<in> set_option (PackageFact.workspace p). resolves m (id_str w)) \<and>
        (\<forall>b \<in> set (PackageFact.build_targets p). resolves m (id_str b))) \<and>
     (\<forall>w \<in> set (FactsModel.workspaces m). \<forall>p \<in> set (WorkspaceFact.packages w). resolves m (id_str p)) \<and>
     (\<forall>t \<in> set (FactsModel.tests m).
        (\<forall>i \<in> set_option (TestFact.target t). resolves m (FactId_as_str i)) \<and>
        (\<forall>s \<in> set (TestFact.tested t). resolves m (id_str s))) \<and>
     (\<forall>b \<in> set (FactsModel.build_targets m). \<forall>p \<in> set_option (BuildTargetFact.package b). resolves m (id_str p)) \<and>
     (\<forall>d \<in> set (FactsModel.diagnostics m). \<forall>i \<in> set (DiagnosticFact.related d). resolves m (FactId_as_str i)) \<and>
     (\<forall>a \<in> set (FactsModel.architecture_rules m).
        (\<forall>i \<in> set_option (ArchitectureRuleFact.rule_from a). resolves m (FactId_as_str i)) \<and>
        (\<forall>i \<in> set_option (ArchitectureRuleFact.rule_to a). resolves m (FactId_as_str i)))"

definition location_resolves :: "FactsModel \<Rightarrow> SourceLocation \<Rightarrow> bool" where
  "location_resolves m l \<longleftrightarrow>
     (\<forall>w \<in> set_option (SourceLocation.workspace l). resolves m (id_str w)) \<and>
     (\<forall>p \<in> set_option (SourceLocation.package l). resolves m (id_str p)) \<and>
     (\<forall>md \<in> set_option (SourceLocation.module l). resolves m (id_str md))"

definition locations_resolve :: "FactsModel \<Rightarrow> bool" where
  "locations_resolve m \<longleftrightarrow>
     (\<forall>s \<in> set (FactsModel.symbols m). location_resolves m (SymbolFact.location s)) \<and>
     (\<forall>md \<in> set (FactsModel.modules m). location_resolves m (ModuleFact.location md)) \<and>
     (\<forall>r \<in> set (FactsModel.relationships m). \<forall>l \<in> set_option (RelationshipFact.location r). location_resolves m l) \<and>
     (\<forall>r \<in> set (FactsModel.references m). \<forall>l \<in> set_option (ReferenceFact.location r). location_resolves m l) \<and>
     (\<forall>t \<in> set (FactsModel.tests m). \<forall>l \<in> set_option (TestFact.location t). location_resolves m l) \<and>
     (\<forall>d \<in> set (FactsModel.diagnostics m). \<forall>l \<in> set_option (DiagnosticFact.location d). location_resolves m l)"

definition no_self_links :: "FactsModel \<Rightarrow> bool" where
  "no_self_links m \<longleftrightarrow>
     (\<forall>r \<in> set (FactsModel.relationships m). RelationshipFact.source r \<noteq> RelationshipFact.target r) \<and>
     (\<forall>r \<in> set (FactsModel.references m). ReferenceFact.referrer r \<noteq> ReferenceFact.target r) \<and>
     (\<forall>d \<in> set (FactsModel.dependencies m). DependencyFact.source d \<noteq> DependencyFact.target d)"

definition facts_well_formed :: "FactsModel \<Rightarrow> bool" where
  "facts_well_formed m \<longleftrightarrow>
     distinct (map fact_key (model_facts m)) \<and> distinct (map edge_key (FactsModel.relationships m)) \<and>
     references_resolve m \<and> no_self_links m \<and> locations_resolve m"

section \<open>The rules against the specification\<close>

definition no_errors :: "ValidationIssue list \<Rightarrow> bool" where
  "no_errors is \<longleftrightarrow> (\<forall>i \<in> set is. \<not> is_error (ValidationIssue.severity i))"

lemma is_error_simps [simp]:
  "is_error Severity.Error" "is_error Severity.Fatal"
  "\<not> is_error Severity.Warning" "\<not> is_error Severity.Info"
  by (simp_all add: is_error_def)

lemma no_errors_simps [simp]:
  "no_errors []"
  "no_errors (xs @ ys) \<longleftrightarrow> no_errors xs \<and> no_errors ys"
  "no_errors (i # is) \<longleftrightarrow> \<not> is_error (ValidationIssue.severity i) \<and> no_errors is"
  "no_errors (concat (map g zs)) \<longleftrightarrow> (\<forall>z \<in> set zs. no_errors (g z))"
  "no_errors (when_some x f) \<longleftrightarrow> (\<forall>v \<in> set_option x. no_errors (f v))"
  by (auto simp: no_errors_def when_some_def split: option.splits)

lemma no_errors_if [simp]:
  "no_errors (if P then xs else []) \<longleftrightarrow> (P \<longrightarrow> no_errors xs)"
  by simp

lemma passed_iff: "ValidationReport_passed r \<longleftrightarrow> no_errors (ValidationReport.issues r)"
  by (simp add: ValidationReport_passed_def no_errors_def list_ex_iff)

lemma ordered_universe:
  "ordered (FactsValidator_universe m) =
     map (\<lambda>f. (FactId_kind (fact_id_of f), fact_key f)) (model_facts m)"
  by (simp add: FactsValidator_universe_def model_facts_def FactKind_ALL_def fact_key_def Let_def comp_def)

lemma known_universe [simp]: "s \<in> known (FactsValidator_universe m) \<longleftrightarrow> resolves m s"
proof -
  have "known (FactsValidator_universe m) = set (map snd (ordered (FactsValidator_universe m)))"
    unfolding FactsValidator_universe_def Let_def by (simp only: Universe.simps)
  then show ?thesis by (auto simp: ordered_universe resolves_def)
qed

lemma duplicate_ids_ok:
  "no_errors (duplicate_id_issues (FactsValidator_universe m)) \<longleftrightarrow> distinct (map fact_key (model_facts m))"
proof -
  let ?xs = "sort_key id_string_order (ordered (FactsValidator_universe m))"
  have "sorted (map id_string_order ?xs)" by simp
  then have s: "sorted (map snd ?xs)"
    by (simp add: sorted_map) (erule sorted_wrt_mono_rel [rotated], auto simp: id_string_order_def)
  have "no_errors (duplicate_id_issues (FactsValidator_universe m)) \<longleftrightarrow>
        (\<forall>(x, n) \<in> set (id_runs ?xs). n \<le> 1)"
    by (simp add: duplicate_id_issues_def split_beta not_less)
  also have "\<dots> \<longleftrightarrow> distinct (map snd ?xs)" by (rule id_runs_single_iff [OF s])
  also have "\<dots> \<longleftrightarrow> distinct (map snd (ordered (FactsValidator_universe m)))"
    by (rule mset_eq_imp_distinct_iff) simp
  finally show ?thesis by (simp add: ordered_universe comp_def)
qed

lemma duplicate_relationships_ok:
  assumes "iteration_order visit"
  shows "no_errors (duplicate_relationship_issues visit m) \<longleftrightarrow>
         distinct (map edge_key (FactsModel.relationships m))"
proof -
  have "no_errors (duplicate_relationship_issues visit m) \<longleftrightarrow>
        (\<forall>(k, vs) \<in> set (edge_keys m). length vs \<le> 1)"
    by (simp add: duplicate_relationship_issues_def duplicate_edge_issue_def split_beta
        set_iteration_order [OF assms] not_less)
  then show ?thesis by (simp only: edge_keys_def group_pushes_small_iff_distinct)
qed

lemma check_endpoint_ok [simp]:
  "no_errors (check_endpoint (FactsValidator_universe m) what i) \<longleftrightarrow> resolves m (FactId_as_str i)"
  by (simp add: check_endpoint_def)

lemma check_typed_endpoint_ok [simp]:
  "no_errors (check_typed_endpoint k (FactsValidator_universe m) what i) \<longleftrightarrow> resolves m (id_str i)"
  by (simp add: check_typed_endpoint_def)

lemma check_location_ok [simp]:
  "no_errors (check_location (FactsValidator_universe m) holder l) \<longleftrightarrow> location_resolves m l"
  by (auto simp: check_location_def location_resolves_def broken_location_def split: option.splits)

lemma invalid_references_ok:
  "no_errors (invalid_reference_issues (FactsValidator_universe m) m) \<longleftrightarrow> references_resolve m"
  by (simp add: invalid_reference_issues_def references_resolve_def ball_conj_distrib)

lemma broken_locations_ok:
  "no_errors (broken_location_issues (FactsValidator_universe m) m) \<longleftrightarrow> locations_resolve m"
  by (simp add: broken_location_issues_def locations_resolve_def)

lemma self_links_ok:
  "no_errors (self_reference_issues m) \<and> no_errors (self_dependency_issues m) \<longleftrightarrow> no_self_links m"
  by (simp add: self_reference_issues_def self_dependency_issues_def no_self_links_def)

lemma warnings_ok [simp]: "no_errors (visibility_issues m)" "no_errors (orphan_symbol_issues m)"
  by (simp_all add: visibility_issues_def orphan_symbol_issues_def)

lemma raw_issues_ok:
  assumes "iteration_order visit"
  shows "no_errors (raw_issues visit m) \<longleftrightarrow> facts_well_formed m"
  using self_links_ok [of m]
  by (simp add: raw_issues_def facts_well_formed_def duplicate_ids_ok invalid_references_ok
      broken_locations_ok duplicate_relationships_ok [OF assms] Let_def) blast

lemma validate_passed_iff:
  assumes "iteration_order visit"
  shows "ValidationReport_passed (FactsValidator_validate visit m) \<longleftrightarrow> facts_well_formed m"
  by (simp add: passed_iff FactsValidator_validate_def raw_issues_ok [OF assms, symmetric])
     (simp add: no_errors_def)

section \<open>Severities, order and determinism\<close>

fun rule_severity :: "ValidationRule \<Rightarrow> Severity" where
  "rule_severity ValidationRule.InvalidVisibility = Severity.Warning"
| "rule_severity ValidationRule.OrphanSymbol = Severity.Warning"
| "rule_severity _ = Severity.Error"

definition rated :: "ValidationIssue list \<Rightarrow> bool" where
  "rated is \<longleftrightarrow> (\<forall>i \<in> set is. ValidationIssue.severity i = rule_severity (ValidationIssue.rule i))"

lemma rated_simps [simp]:
  "rated []"
  "rated (xs @ ys) \<longleftrightarrow> rated xs \<and> rated ys"
  "rated (i # is) \<longleftrightarrow> ValidationIssue.severity i = rule_severity (ValidationIssue.rule i) \<and> rated is"
  "rated (concat (map g zs)) \<longleftrightarrow> (\<forall>z \<in> set zs. rated (g z))"
  "rated (when_some x f) \<longleftrightarrow> (\<forall>v \<in> set_option x. rated (f v))"
  by (auto simp: rated_def when_some_def split: option.splits)

lemma rated_checks [simp]:
  "rated (check_endpoint u w i)" "rated (check_typed_endpoint k u w t)" "rated (check_location u h l)"
  by (auto simp: check_endpoint_def check_typed_endpoint_def check_location_def broken_location_def
      split: option.splits)

lemma raw_issues_rated: "rated (raw_issues visit m)"
  by (simp add: raw_issues_def Let_def duplicate_id_issues_def duplicate_relationship_issues_def
      duplicate_edge_issue_def invalid_reference_issues_def self_reference_issues_def
      self_dependency_issues_def broken_location_issues_def visibility_issues_def
      orphan_symbol_issues_def split_beta)

lemma issue_order_inj: "rated is \<Longrightarrow> inj_on issue_order (set is)"
  by (rule inj_onI) (auto simp: rated_def issue_order_def intro!: ValidationIssue.equality)

lemma mset_raw_issues:
  assumes "iteration_order visit"
  shows "mset (raw_issues visit m) = mset (raw_issues (\<lambda>es. es) m)"
proof -
  have "mset (duplicate_relationship_issues visit m) = mset (duplicate_relationship_issues (\<lambda>es. es) m)"
    unfolding duplicate_relationship_issues_def mset_concat sum_mset_sum_list [symmetric]
      map_map mset_map iteration_orderD [OF assms] by (rule refl)
  then show ?thesis by (simp add: raw_issues_def Let_def)
qed

lemma validate_order_irrelevant:
  assumes "iteration_order visit"
  shows "FactsValidator_validate visit m = FactsValidator_validate (\<lambda>es. es) m"
  using sort_key_perm_cong [OF mset_raw_issues [OF assms] issue_order_inj [OF raw_issues_rated]]
  by (simp add: FactsValidator_validate_def)

section \<open>Properties\<close>

lemma iteration_order_rev: "iteration_order rev"
  by (simp add: iteration_order_def)

text \<open>C4: the facts validator decides well-formedness: for whatever order the hash map of edges is
  iterated in, validation passes exactly when all id strings are distinct, no two relationships
  share kind, source and target, every referenced id and location id occurs in the model, and no
  edge or dependency links a fact to itself. Warnings never fail it.\<close>

theorem validator_decides_well_formedness:
  assumes "iteration_order visit"
  shows "ValidationReport_passed (FactsValidator_validate visit m) \<longleftrightarrow> facts_well_formed m"
  by (rule validate_passed_iff [OF assms])

lemma validator_decides_well_formedness_witness:
  "ValidationReport_passed (FactsValidator_validate rev FactsModel_empty) \<longleftrightarrow> facts_well_formed FactsModel_empty"
  by (rule validator_decides_well_formedness [OF iteration_order_rev])

text \<open>The validation report is deterministic although one rule iterates a \<open>HashMap\<close>: any two
  iteration orders give the same report, and its issues are sorted by rule, entity and
  message.\<close>

theorem validation_report_deterministic:
  assumes "iteration_order visit" "iteration_order visit'"
  shows "FactsValidator_validate visit m = FactsValidator_validate visit' m \<and>
    sorted (map issue_order (ValidationReport.issues (FactsValidator_validate visit m)))"
  using validate_order_irrelevant [OF assms(1), of m] validate_order_irrelevant [OF assms(2), of m]
  by (simp add: FactsValidator_validate_def)

lemma validation_report_deterministic_witness:
  "FactsValidator_validate rev FactsModel_empty = FactsValidator_validate (\<lambda>es. es) FactsModel_empty"
  using validation_report_deterministic [OF iteration_order_rev, of "\<lambda>es. es" FactsModel_empty]
  by (simp add: iteration_order_def)

text \<open>Every issue carries the severity of its rule (warning for unresolved visibility and orphan
  symbols, error for the other six), so the report's error and warning counters add up to its
  issue count and the report passes exactly when it counts no error.\<close>

lemma validation_counters_consistent:
  "let r = FactsValidator_validate visit m in
   list_all (\<lambda>i. ValidationIssue.severity i = rule_severity (ValidationIssue.rule i)) (ValidationReport.issues r) \<and>
   ValidationReport_issue_count r = ValidationReport_error_count r + ValidationReport_warning_count r \<and>
   (ValidationReport_passed r \<longleftrightarrow> ValidationReport_error_count r = 0)"
proof -
  let ?is = "ValidationReport.issues (FactsValidator_validate visit m)"
  have r: "list_all (\<lambda>i. ValidationIssue.severity i = rule_severity (ValidationIssue.rule i)) ?is"
    using raw_issues_rated [of visit m] by (simp add: FactsValidator_validate_def rated_def list_all_iff)
  have w: "ValidationIssue.severity i = Severity.Warning \<longleftrightarrow> \<not> is_error (ValidationIssue.severity i)"
    if "i \<in> set ?is" for i
  proof -
    have "ValidationIssue.severity i = rule_severity (ValidationIssue.rule i)"
      using r that by (simp add: list_all_iff)
    then show ?thesis by (cases "ValidationIssue.rule i") simp_all
  qed
  have "filter (\<lambda>i. ValidationIssue.severity i = Severity.Warning) ?is =
    filter (\<lambda>i. \<not> is_error (ValidationIssue.severity i)) ?is"
    by (rule filter_cong) (auto simp: w)
  then have "ValidationReport_issue_count (FactsValidator_validate visit m) =
    ValidationReport_error_count (FactsValidator_validate visit m) +
    ValidationReport_warning_count (FactsValidator_validate visit m)"
    using sum_length_filter_compl [of "\<lambda>i. is_error (ValidationIssue.severity i)" ?is]
    by (simp add: ValidationReport_issue_count_def ValidationReport_error_count_def ValidationReport_warning_count_def)
  moreover have "ValidationReport_passed (FactsValidator_validate visit m) \<longleftrightarrow>
    ValidationReport_error_count (FactsValidator_validate visit m) = 0"
    by (simp add: ValidationReport_passed_def ValidationReport_error_count_def list_ex_iff filter_empty_conv)
  ultimately show ?thesis using r by (simp add: Let_def)
qed

end
