(* ===== verification/Fact_Store_Validation.thy ===== *)
theory Fact_Store_Validation
  imports Fact_Store Facts_Validation
begin

text \<open>
  Validation of a frozen store (\<^verbatim>\<open>fact_store/validation.rs\<close>) and its diagnostics summary
  (\<^verbatim>\<open>fact_store/diagnostics.rs\<close>). The five rules of \<open>FactValidation::validate\<close> are one definition
  each, concatenated in the order of the code and sorted by rule, entity and message.

  The lemmas show which rules a frozen store can violate at all: its primary indexes are always
  complete, resolvable and of the right kind, so validation passes exactly when no id string
  occurs twice and every owner of a reverse index entry is a fact of the store.
\<close>

section \<open>Issues and reports\<close>

record FactValidationIssue =
  rule :: FactValidationRule
  severity :: Severity
  entity :: FactId
  message :: string

record FactValidationReport =
  issues :: "FactValidationIssue list"
  checked_entities :: nat
  checked_index_entries :: nat

definition FactValidationReport_passed :: "FactValidationReport \<Rightarrow> bool" where
  "FactValidationReport_passed r \<longleftrightarrow>
     \<not> list_ex (\<lambda>i. is_error (FactValidationIssue.severity i)) (FactValidationReport.issues r)"

definition FactValidationReport_issue_count :: "FactValidationReport \<Rightarrow> nat" where
  "FactValidationReport_issue_count r = length (FactValidationReport.issues r)"

definition FactValidationReport_count_by_rule :: "FactValidationReport \<Rightarrow> FactValidationRule \<Rightarrow> nat" where
  "FactValidationReport_count_by_rule r rl =
     length (filter (\<lambda>i. FactValidationIssue.rule i = rl) (FactValidationReport.issues r))"

definition FactValidationReport_error_count :: "FactValidationReport \<Rightarrow> nat" where
  "FactValidationReport_error_count r =
     length (filter (\<lambda>i. is_error (FactValidationIssue.severity i)) (FactValidationReport.issues r))"

definition FactValidationReport_warning_count :: "FactValidationReport \<Rightarrow> nat" where
  "FactValidationReport_warning_count r =
     length (filter (\<lambda>i. FactValidationIssue.severity i = Severity.Warning) (FactValidationReport.issues r))"

section \<open>The five rules\<close>

definition collection_ids :: "FactCollection \<Rightarrow> (FactKind \<times> string) list" where
  "collection_ids c =
     map (\<lambda>f. (FactId_kind (fact_id_of f), FactId_as_str (fact_id_of f))) (FactCollection_iter c)"

definition duplicate_fact_issues :: "FactCollection \<Rightarrow> FactValidationIssue list" where
  "duplicate_fact_issues c =
     concat (map (\<lambda>((k, s), n).
         if n > 1 then
           [\<lparr>FactValidationIssue.rule = FactValidationRule.DuplicateFacts, severity = Severity.Error,
             entity = FactId_new k s,
             message = ''id appears '' @ show_nat n @ '' times in the collection''\<rparr>]
         else [])
       (id_runs (sort_key id_string_order (collection_ids c))))"

definition missing_id_issues :: "FactCollection \<Rightarrow> FactIndex \<Rightarrow> FactValidationIssue list" where
  "missing_id_issues c x =
     concat (map (\<lambda>f. let i = fact_id_of f; k = FactId_kind i in
         if \<not> FactIndex_contains_in_kind x k i then
           [\<lparr>FactValidationIssue.rule = FactValidationRule.MissingIds, severity = Severity.Error,
             entity = i,
             message = FactKind_as_str k @ '' fact is absent from the '' @ FactKind_as_str k @
               '' primary index''\<rparr>]
         else [])
       (FactCollection_iter c))"

definition reverse_indexes :: "FactIndex \<Rightarrow> ReverseIndex list" where
  "reverse_indexes x = [FactIndex.by_workspace x, FactIndex.by_package x,
     FactIndex.by_module x, FactIndex.by_symbol x]"

definition broken_primary_issues :: "FactCollection \<Rightarrow> FactIndex \<Rightarrow> FactValidationIssue list" where
  "broken_primary_issues c x =
     concat (map (\<lambda>k. concat (map (\<lambda>i.
         if \<not> FactCollection_contains c i then
           [\<lparr>FactValidationIssue.rule = FactValidationRule.BrokenIndex, severity = Severity.Error,
             entity = i,
             message = ''primary index entry does not resolve to a known fact ('' @ FactKind_as_str k @ '')''\<rparr>]
         else [])
       (FactIndex_facts_of_kind x k))) FactKind_ALL)"

definition broken_reverse_issues :: "FactCollection \<Rightarrow> FactIndex \<Rightarrow> FactValidationIssue list" where
  "broken_reverse_issues c x =
     concat (map (\<lambda>r. concat (map (\<lambda>p.
         (if \<not> FactCollection_contains c (pair_owner p) then
           [\<lparr>FactValidationIssue.rule = FactValidationRule.BrokenIndex, severity = Severity.Error,
             entity = pair_owner p,
             message = ''reverse index owner does not resolve to a known fact''\<rparr>]
          else []) @
         (if \<not> FactCollection_contains c (pair_member p) then
           [\<lparr>FactValidationIssue.rule = FactValidationRule.BrokenIndex, severity = Severity.Error,
             entity = pair_member p,
             message = ''reverse index member does not resolve to a known fact''\<rparr>]
          else []))
       (entries r))) (reverse_indexes x))"

definition schema_mismatch_issues :: "FactIndex \<Rightarrow> FactValidationIssue list" where
  "schema_mismatch_issues x =
     concat (map (\<lambda>k. concat (map (\<lambda>i.
         if FactId_kind i \<noteq> k then
           [\<lparr>FactValidationIssue.rule = FactValidationRule.SchemaMismatch, severity = Severity.Error,
             entity = i,
             message = FactKind_as_str k @ '' primary index holds a '' @ FactKind_as_str (FactId_kind i) @ '' id''\<rparr>]
         else [])
       (FactIndex_facts_of_kind x k))) FactKind_ALL)"

text \<open>Facts that are not expected inside any scope.\<close>

fun scope_exempt :: "FactRef \<Rightarrow> bool" where
  "scope_exempt (FactRef.Workspace _) = True"
| "scope_exempt (FactRef.Dependency _) = True"
| "scope_exempt (FactRef.Language _) = True"
| "scope_exempt (FactRef.Framework _) = True"
| "scope_exempt (FactRef.Package p) \<longleftrightarrow> PackageFact.workspace p = None"
| "scope_exempt _ = False"

definition scoped_members :: "FactIndex \<Rightarrow> FactId list" where
  "scoped_members x = concat (map (\<lambda>r. map pair_member (entries r)) (reverse_indexes x))"

definition orphan_record_issues :: "FactCollection \<Rightarrow> FactIndex \<Rightarrow> FactValidationIssue list" where
  "orphan_record_issues c x =
     (let scoped = set (scoped_members x) in
      concat (map (\<lambda>f.
         if scope_exempt f then []
         else if fact_id_of f \<notin> scoped then
           [\<lparr>FactValidationIssue.rule = FactValidationRule.OrphanRecords, severity = Severity.Warning,
             entity = fact_id_of f, message = ''record is scoped by no reverse index''\<rparr>]
         else [])
       (FactCollection_iter c)))"

definition store_issue_order :: "FactValidationIssue \<Rightarrow> FactValidationRule \<times> FactId \<times> string" where
  "store_issue_order i = (FactValidationIssue.rule i, FactValidationIssue.entity i, FactValidationIssue.message i)"

definition store_raw_issues :: "FactStore \<Rightarrow> FactValidationIssue list" where
  "store_raw_issues s =
     (let c = collection s; x = index s in
      duplicate_fact_issues c @ missing_id_issues c x @ broken_primary_issues c x @
      broken_reverse_issues c x @ schema_mismatch_issues x @ orphan_record_issues c x)"

definition FactValidation_validate :: "FactStore \<Rightarrow> FactValidationReport" where
  "FactValidation_validate s =
     \<lparr>FactValidationReport.issues = sort_key store_issue_order (store_raw_issues s),
      checked_entities = length (collection_ids (collection s)),
      checked_index_entries = FactIndex_primary_len (index s) + FactIndex_reverse_len (index s)\<rparr>"

section \<open>Diagnostics\<close>

record FactDiagnosticsSummary =
  total_facts :: nat
  primary_index_entries :: nat
  reverse_index_entries :: nat
  validation_passed :: bool
  validation_issue_count :: nat
  snapshot_digest :: string
  index_sizes :: IndexSizes
  reverse_index_sizes :: ReverseIndexSizes

definition FactDiagnostics_collect :: "(FactsModel \<Rightarrow> bytes) \<Rightarrow> FactStore \<Rightarrow> FactDiagnosticsSummary" where
  "FactDiagnostics_collect to_vec s =
     (let x = index s; stats = FactStatistics_collect to_vec s; report = FactValidation_validate s in
      \<lparr>FactDiagnosticsSummary.total_facts = FactStore_len s,
       primary_index_entries = FactIndex_primary_len x,
       reverse_index_entries = FactIndex_reverse_len x,
       validation_passed = FactValidationReport_passed report,
       validation_issue_count = FactValidationReport_issue_count report,
       snapshot_digest = digest (FactSnapshot_capture to_vec s),
       index_sizes = primary_index stats,
       reverse_index_sizes = reverse_index stats\<rparr>)"

section \<open>Specification\<close>

definition model_ids :: "FactsModel \<Rightarrow> FactId set" where
  "model_ids m = fact_id_of ` set (model_facts m)"

text \<open>The scope pairs a model declares, over the fields of its facts.\<close>

definition scope_pairs :: "FactsModel \<Rightarrow> (FactId \<times> FactId) set" where
  "scope_pairs m =
     {(FactId.Workspace w, i) | w i. i \<in> workspace_scope m w} \<union>
     {(FactId.Package p, i) | p i. i \<in> package_scope m p} \<union>
     {(FactId.Module md, i) | md i. i \<in> module_scope m md} \<union>
     {(FactId.Symbol s, i) | s i. i \<in> symbol_scope m s}"

definition scopes_resolve :: "FactsModel \<Rightarrow> bool" where
  "scopes_resolve m \<longleftrightarrow> (\<forall>(ow, i) \<in> scope_pairs m. ow \<in> model_ids m \<and> i \<in> model_ids m)"

lemma index_workspace_owner: "p \<in> set (index_workspace c) \<Longrightarrow> \<exists>w. pair_owner p = FactId.Workspace w"
  by (auto simp: index_workspace_def pair_def when_some_def split: option.splits)

lemma index_package_owner: "p \<in> set (index_package c) \<Longrightarrow> \<exists>w. pair_owner p = FactId.Package w"
  by (auto simp: index_package_def pair_def when_some_def split: option.splits)

lemma kind_ModuleD: "FactId_kind i = FactKind.Module \<Longrightarrow> \<exists>md. i = FactId.Module md"
  by (cases i) simp_all

lemma kind_SymbolD: "FactId_kind i = FactKind.Symbol \<Longrightarrow> \<exists>s. i = FactId.Symbol s"
  by (cases i) simp_all

lemma index_module_owner: "p \<in> set (index_module c) \<Longrightarrow> \<exists>w. pair_owner p = FactId.Module w"
  by (auto simp: index_module_def pair_def when_some_def dest: kind_ModuleD split: option.splits if_splits)

lemma index_symbol_owner: "p \<in> set (index_symbol c) \<Longrightarrow> \<exists>w. pair_owner p = FactId.Symbol w"
  by (auto simp: index_symbol_def pair_def when_some_def dest: kind_SymbolD split: option.splits if_splits)

definition pair_of :: "FactIdPair \<Rightarrow> FactId \<times> FactId" where
  "pair_of p = (pair_owner p, pair_member p)"

lemma pairs_by_owner:
  assumes "\<And>p. p \<in> set ps \<Longrightarrow> \<exists>w. pair_owner p = C w"
    and "\<And>w x. FactIdPair (C w) x \<in> set ps \<longleftrightarrow> x \<in> S w"
  shows "pair_of ` set ps = {(C w, i) | w i. i \<in> S w}"
proof (intro equalityI subsetI)
  fix q assume "q \<in> pair_of ` set ps"
  then obtain p where p: "p \<in> set ps" "q = pair_of p" by blast
  then obtain w where w: "pair_owner p = C w" using assms(1) by blast
  have "FactIdPair (C w) (pair_member p) \<in> set ps"
    using p(1) FactIdPair.collapse [of p] by (simp only: w)
  with assms(2) p(2) w show "q \<in> {(C w, i) | w i. i \<in> S w}" by (auto simp: pair_of_def)
next
  fix q assume "q \<in> {(C w, i) | w i. i \<in> S w}"
  then obtain w i where "q = (C w, i)" "FactIdPair (C w) i \<in> set ps" using assms(2) by blast
  then show "q \<in> pair_of ` set ps" by (force simp: pair_of_def)
qed

lemma reverse_entries_build:
  "entries (FactIndex.by_workspace (FactIndex_build c)) = sort_dedup (index_workspace c)"
  "entries (FactIndex.by_package (FactIndex_build c)) = sort_dedup (index_package c)"
  "entries (FactIndex.by_module (FactIndex_build c)) = sort_dedup (index_module c)"
  "entries (FactIndex.by_symbol (FactIndex_build c)) = sort_dedup (index_symbol c)"
  by (simp_all add: FactIndex_build_def ReverseIndex_new_def)

definition reverse_pairs :: "FactIndex \<Rightarrow> FactIdPair list" where
  "reverse_pairs x = concat (map entries (reverse_indexes x))"

lemma reverse_pairs_build: "pair_of ` set (reverse_pairs (FactIndex_build c)) = scope_pairs (model c)"
  unfolding reverse_pairs_def reverse_indexes_def scope_pairs_def
  by (simp add: reverse_entries_build image_Un Un_assoc
      pairs_by_owner [OF index_workspace_owner index_workspace_declares]
      pairs_by_owner [OF index_package_owner index_package_declares]
      pairs_by_owner [OF index_module_owner index_module_declares]
      pairs_by_owner [OF index_symbol_owner index_symbol_declares])

section \<open>The rules on a frozen store\<close>

definition no_store_errors :: "FactValidationIssue list \<Rightarrow> bool" where
  "no_store_errors is \<longleftrightarrow> (\<forall>i \<in> set is. \<not> is_error (FactValidationIssue.severity i))"

lemma no_store_errors_simps [simp]:
  "no_store_errors []"
  "no_store_errors (xs @ ys) \<longleftrightarrow> no_store_errors xs \<and> no_store_errors ys"
  "no_store_errors (i # is) \<longleftrightarrow> \<not> is_error (FactValidationIssue.severity i) \<and> no_store_errors is"
  "no_store_errors (concat (map g zs)) \<longleftrightarrow> (\<forall>z \<in> set zs. no_store_errors (g z))"
  by (auto simp: no_store_errors_def)

lemma no_store_errors_sort: "no_store_errors (sort_key f is) = no_store_errors is"
  by (simp add: no_store_errors_def)

lemma store_passed_iff:
  "FactValidationReport_passed r \<longleftrightarrow> no_store_errors (FactValidationReport.issues r)"
  by (simp add: FactValidationReport_passed_def no_store_errors_def list_ex_iff)

lemma frozen_collection_contains:
  "frozen s \<Longrightarrow> FactCollection_contains (collection s) i \<longleftrightarrow> i \<in> model_ids (model (collection s))"
  using frozen_contains [of s i] by (simp add: FactLookup_contains_def model_ids_def)

lemma frozen_facts_of_kind:
  "frozen s \<Longrightarrow> set (FactIndex_facts_of_kind (index s) k) = fact_id_of ` set (category (model (collection s)) k)"
  by (simp add: frozen_def facts_of_kind_build)

lemma frozen_no_missing: "frozen s \<Longrightarrow> missing_id_issues (collection s) (index s) = []"
  by (simp add: missing_id_issues_def Let_def iter_eq_model_facts frozen_def contains_in_kind_build
      mem_model_facts_kind)

lemma frozen_no_broken_primary:
  assumes f: "frozen s"
  shows "broken_primary_issues (collection s) (index s) = []"
proof -
  have "FactCollection_contains (collection s) i" if "i \<in> set (FactIndex_facts_of_kind (index s) k)" for i k
    using that by (simp add: frozen_facts_of_kind [OF f] frozen_collection_contains [OF f] model_ids_def category_ids)
  then show ?thesis by (simp add: broken_primary_issues_def)
qed

lemma frozen_no_schema_mismatch:
  assumes f: "frozen s"
  shows "schema_mismatch_issues (index s) = []"
proof -
  have "FactId_kind i = k" if "i \<in> set (FactIndex_facts_of_kind (index s) k)" for i k
    using that by (simp add: frozen_facts_of_kind [OF f] category_ids)
  then show ?thesis by (simp add: schema_mismatch_issues_def)
qed

lemma collection_ids_eq: "collection_ids c = ordered (FactsValidator_universe (model c))"
  by (simp add: collection_ids_def ordered_universe iter_eq_model_facts fact_key_def)

lemma duplicate_facts_ok:
  "no_store_errors (duplicate_fact_issues c) \<longleftrightarrow> distinct (map fact_key (model_facts (model c)))"
proof -
  have "no_store_errors (duplicate_fact_issues c) \<longleftrightarrow> no_errors (duplicate_id_issues (FactsValidator_universe (model c)))"
    by (simp add: duplicate_fact_issues_def duplicate_id_issues_def collection_ids_eq split_beta)
  then show ?thesis by (simp only: duplicate_ids_ok)
qed

lemma broken_reverse_pairs:
  "no_store_errors (broken_reverse_issues c x) \<longleftrightarrow>
   (\<forall>p \<in> set (reverse_pairs x). FactCollection_contains c (pair_owner p) \<and> FactCollection_contains c (pair_member p))"
  by (simp add: broken_reverse_issues_def reverse_pairs_def) blast

lemma broken_reverse_ok:
  assumes f: "frozen s"
  shows "no_store_errors (broken_reverse_issues (collection s) (index s)) \<longleftrightarrow> scopes_resolve (model (collection s))"
proof -
  let ?m = "model (collection s)"
  have "no_store_errors (broken_reverse_issues (collection s) (index s)) \<longleftrightarrow>
    (\<forall>q \<in> pair_of ` set (reverse_pairs (index s)). fst q \<in> model_ids ?m \<and> snd q \<in> model_ids ?m)"
    by (simp add: broken_reverse_pairs frozen_collection_contains [OF f] pair_of_def)
  also have "pair_of ` set (reverse_pairs (index s)) = scope_pairs ?m"
    using f by (simp add: frozen_def reverse_pairs_build)
  finally show ?thesis by (simp add: scopes_resolve_def split_beta)
qed

lemma orphan_records_ok: "no_store_errors (orphan_record_issues c x)"
  by (simp add: orphan_record_issues_def Let_def)

lemma frozen_validate_passed:
  assumes f: "frozen s"
  shows "FactValidationReport_passed (FactValidation_validate s) \<longleftrightarrow>
    distinct (map fact_key (store_facts s)) \<and> scopes_resolve (model (collection s))"
  by (simp add: store_passed_iff FactValidation_validate_def no_store_errors_sort store_raw_issues_def Let_def
      frozen_no_missing [OF f] frozen_no_broken_primary [OF f] frozen_no_schema_mismatch [OF f]
      duplicate_facts_ok broken_reverse_ok [OF f] orphan_records_ok)

lemma scoped_members_build: "set (scoped_members (FactIndex_build c)) = snd ` scope_pairs (model c)"
proof -
  have "scoped_members (FactIndex_build c) = map pair_member (reverse_pairs (FactIndex_build c))"
    by (simp add: scoped_members_def reverse_pairs_def map_concat comp_def)
  then show ?thesis
    by (simp add: reverse_pairs_build [symmetric] image_image pair_of_def)
qed

lemma frozen_orphans:
  assumes f: "frozen s"
  shows "FactValidationIssue.entity ` {i \<in> set (FactValidationReport.issues (FactValidation_validate s)).
           FactValidationIssue.rule i = FactValidationRule.OrphanRecords} =
         {fact_id_of r | r. r \<in> set (store_facts s) \<and> \<not> scope_exempt r \<and>
           fact_id_of r \<notin> snd ` scope_pairs (model (collection s))}"
    (is "?lhs = ?rhs")
proof -
  let ?orphans = "orphan_record_issues (collection s) (index s)"
  have other: "FactValidationIssue.rule i \<noteq> FactValidationRule.OrphanRecords"
    if "i \<in> set (duplicate_fact_issues (collection s) @ broken_reverse_issues (collection s) (index s))" for i
    using that by (auto simp: duplicate_fact_issues_def broken_reverse_issues_def split: if_splits)
  have own: "FactValidationIssue.rule i = FactValidationRule.OrphanRecords" if "i \<in> set ?orphans" for i
    using that by (auto simp: orphan_record_issues_def Let_def split: if_splits)
  have "set (FactValidationReport.issues (FactValidation_validate s)) =
    set (duplicate_fact_issues (collection s) @ broken_reverse_issues (collection s) (index s)) \<union> set ?orphans"
    by (simp add: FactValidation_validate_def store_raw_issues_def Let_def Un_assoc
        frozen_no_missing [OF f] frozen_no_broken_primary [OF f] frozen_no_schema_mismatch [OF f])
  with other own have "?lhs = FactValidationIssue.entity ` set ?orphans" by blast
  also have "\<dots> = ?rhs"
    using f scoped_members_build [of "collection s"]
    by (auto simp: orphan_record_issues_def Let_def iter_eq_model_facts frozen_def image_UN split: if_splits)
  finally show ?thesis .
qed

section \<open>Properties\<close>

text \<open>C10: validation of a freshly built store passes exactly when no id string is used twice and both
  ends of every declared scope pair are facts of the store.\<close>

theorem store_validation_decides:
  "FactValidationReport_passed (FactValidation_validate (FactStoreBuilder_build b)) \<longleftrightarrow>
   distinct (map fact_key (model_facts (FactsBuilder_build (facts b)))) \<and>
   scopes_resolve (FactsBuilder_build (facts b))"
  using frozen_validate_passed [OF frozen_builder, of b] by (simp add: FactStoreBuilder_build_def)

text \<open>A built store cannot have missing ids or schema mismatches, and its primary indexes always
  resolve: these rules never report on a store that came out of the builder.\<close>

theorem built_store_indexes_sound:
  "let s = FactStoreBuilder_build b in
   FactValidationReport_count_by_rule (FactValidation_validate s) FactValidationRule.MissingIds = 0 \<and>
   FactValidationReport_count_by_rule (FactValidation_validate s) FactValidationRule.SchemaMismatch = 0 \<and>
   broken_primary_issues (collection s) (index s) = []"
proof -
  let ?s = "FactStoreBuilder_build b"
  have r: "FactValidationIssue.rule i \<noteq> FactValidationRule.MissingIds \<and>
      FactValidationIssue.rule i \<noteq> FactValidationRule.SchemaMismatch"
    if "i \<in> set (FactValidationReport.issues (FactValidation_validate ?s))" for i
    using that frozen_no_missing [OF frozen_builder, of b] frozen_no_broken_primary [OF frozen_builder, of b]
      frozen_no_schema_mismatch [OF frozen_builder, of b]
    by (auto simp: FactValidation_validate_def store_raw_issues_def Let_def duplicate_fact_issues_def
        broken_reverse_issues_def orphan_record_issues_def split: if_splits)
  then show ?thesis
    using frozen_no_broken_primary [OF frozen_builder, of b]
    by (auto simp: FactValidationReport_count_by_rule_def Let_def filter_empty_conv)
qed

text \<open>The orphan warnings of a built store name exactly the facts that are expected inside a scope
  (all but workspaces, dependencies, languages, frameworks and workspace-less packages) and that
  no workspace, package, module or symbol scope contains.\<close>

theorem orphan_warnings_exact:
  "FactValidationIssue.entity ` {i \<in> set (FactValidationReport.issues (FactValidation_validate (FactStoreBuilder_build b))).
      FactValidationIssue.rule i = FactValidationRule.OrphanRecords} =
   {fact_id_of r | r. r \<in> set (model_facts (FactsBuilder_build (facts b))) \<and> \<not> scope_exempt r \<and>
      fact_id_of r \<notin> snd ` scope_pairs (FactsBuilder_build (facts b))}"
  using frozen_orphans [OF frozen_builder, of b] by (simp add: FactStoreBuilder_build_def)

text \<open>A relationship whose source is a module id with the string of a symbol.\<close>

definition kind_blind_facts :: FactsBuilder where
  "kind_blind_facts = FactsBuilder_add_relationship (FactsBuilder_add_symbol FactsBuilder_new
     (SymbolFact_new (OpaqueId ''x'') ''f'' SymbolKind.Function))
     (RelationshipFact_new (OpaqueId ''r'') RelationshipKind.Calls (FactId.Module (OpaqueId ''x'')) (FactId.Symbol (OpaqueId ''x'')))"

lemmas kind_blind_simps = kind_blind_facts_def FactsBuilder_new_def FactsBuilder_build_def
  FactsBuilder_add_relationship_def FactsBuilder_add_symbol_def SymbolFact_new_def RelationshipFact_new_def
  sort_by_id_def

lemma kind_blind_well_formed: "facts_well_formed (FactsBuilder_build kind_blind_facts)"
  by (simp add: facts_well_formed_def references_resolve_def resolves_def locations_resolve_def
      location_resolves_def no_self_links_def model_facts_def FactKind_ALL_def fact_key_def
      SourceLocation_new_def kind_blind_simps)

lemma kind_blind_unresolved: "\<not> scopes_resolve (FactsBuilder_build kind_blind_facts)"
proof -
  let ?m = "FactsBuilder_build kind_blind_facts"
  have "FactId.Relationship (OpaqueId ''r'') \<in> module_scope ?m (OpaqueId ''x'')"
    by (simp add: module_scope_def kind_blind_simps)
  then have "(FactId.Module (OpaqueId ''x''), FactId.Relationship (OpaqueId ''r'')) \<in> scope_pairs ?m"
    by (simp add: scope_pairs_def)
  moreover have "FactId.Module (OpaqueId ''x'') \<notin> model_ids ?m"
    by (simp add: model_ids_def model_facts_def FactKind_ALL_def kind_blind_simps)
  ultimately show ?thesis by (auto simp: scopes_resolve_def)
qed

text \<open>Endpoint resolution in the facts validator ignores the kind of an id, while the store checks
  ids exactly: a model whose only relationship starts at a module id carrying a symbol's string
  passes the facts validator and fails store validation.\<close>

theorem validators_disagree_on_kind:
  "ValidationReport_passed (FactsValidator_validate (\<lambda>es. es) (FactsBuilder_build kind_blind_facts)) \<and>
   \<not> FactValidationReport_passed (FactValidation_validate (FactStore_build (FactsBuilder_build kind_blind_facts)))"
proof -
  have "iteration_order (\<lambda>es :: edge_entry list. es)" by (simp add: iteration_order_def)
  moreover have "frozen (FactStore_build (FactsBuilder_build kind_blind_facts))"
    by (simp add: frozen_build build_sorted)
  ultimately show ?thesis
    using kind_blind_well_formed kind_blind_unresolved
    by (simp add: validate_passed_iff frozen_validate_passed)
qed

end
