(* ===== verification/Repo_Identity.thy ===== *)
theory Repo_Identity
  imports Repo_State
begin

text \<open>
  Repository identity (\<^verbatim>\<open>crates/core/src/repo_state.rs\<close>, second half): the canonical workspace
  root, the VCS identity where there is one, and the project id derived from both.

  The lemmas show that the lexical pass of \<open>canonical_root_of\<close> yields a clean absolute path for
  every absolute input and that it is idempotent there, and how it treats leading \<^verbatim>\<open>..\<close> segments of a
  relative path; and that \<open>same_workspace\<close> is equality of canonical roots.
\<close>

section \<open>Canonical roots\<close>

definition slash :: char where
  "slash = CHR ''/''"

definition normalise_separators :: "string \<Rightarrow> string" where
  "normalise_separators s = map (\<lambda>c. if c = CHR 0x5C then slash else c) s"

text \<open>One turn of the loop over \<^verbatim>\<open>raw.split('/')\<close>; the parts are a stack, last pushed last.\<close>

definition root_step :: "bool \<Rightarrow> string list \<Rightarrow> string \<Rightarrow> string list" where
  "root_step absolute parts seg =
     (if seg = '''' \<or> seg = ''.'' then parts
      else if seg = ''..'' then
        (if parts = [] then (if \<not> absolute then [''..''] else []) else butlast parts)
      else parts @ [seg])"

definition lexical_root :: "string \<Rightarrow> string" where
  "lexical_root path =
     (let raw = normalise_separators path;
          absolute = (raw \<noteq> [] \<and> hd raw = slash);
          parts = foldl (root_step absolute) [] (split_char slash raw);
          joined = join [slash] parts;
          out = (if absolute then slash # joined else joined)
      in if out = [] then path else out)"

text \<open>\<open>Path::to_string_lossy\<close> is the lossy decoding of the path's bytes.\<close>

definition canonical_root_of :: "Host \<Rightarrow> string \<Rightarrow> string" where
  "canonical_root_of h path =
     (case host_canonicalize h path of
        Some resolved \<Rightarrow> from_utf8_lossy resolved
      | None \<Rightarrow> lexical_root (from_utf8_lossy path))"

section \<open>Remotes and heads\<close>

fun parse_first_remote_line :: "string list \<Rightarrow> string option" where
  "parse_first_remote_line [] = None"
| "parse_first_remote_line (line # ls) =
     (case split_whitespace line of
        name # url # _ \<Rightarrow> if url = [] then parse_first_remote_line ls else Some url
      | _ \<Rightarrow> parse_first_remote_line ls)"

definition parse_first_remote_url :: "string \<Rightarrow> string option" where
  "parse_first_remote_url text = parse_first_remote_line (str_lines text)"

definition remote_list :: "Host \<Rightarrow> string \<Rightarrow> string option" where
  "remote_list h root =
     (case host_git h root [''remote'', ''-v''] of
        None \<Rightarrow> None
      | Some out \<Rightarrow> if \<not> success out then None
          else parse_first_remote_url (from_utf8_lossy (stdout out)))"

definition git_remote_of :: "Host \<Rightarrow> string \<Rightarrow> string option" where
  "git_remote_of h root =
     (case host_git h root [''remote'', ''get-url'', ''origin''] of
        None \<Rightarrow> None
      | Some out \<Rightarrow>
          if success out \<and> trim (from_utf8_lossy (stdout out)) \<noteq> []
          then Some (trim (from_utf8_lossy (stdout out)))
          else remote_list h root)"

definition git_head_of :: "Host \<Rightarrow> string \<Rightarrow> string option" where
  "git_head_of h root =
     (case host_git h root head_args of
        None \<Rightarrow> None
      | Some out \<Rightarrow>
          if \<not> success out then None
          else let sha = trim (from_utf8_lossy (stdout out)) in if sha = [] then None else Some sha)"

section \<open>Identity\<close>

record RepoIdentity =
  project_id :: string
  root :: string
  repository_type :: string
  canonical_root :: "string option"
  git_remote :: "string option"
  commit_sha :: "string option"

definition repository_type_of :: "Host \<Rightarrow> string \<Rightarrow> string \<Rightarrow> string" where
  "repository_type_of h workspace_root canonical =
     (let raw = (\<lambda>f. host_exists h (path_join workspace_root f));
          canon = (\<lambda>f. host_exists h (path_join canonical f)) in
      if raw ''Cargo.toml'' \<or> canon ''Cargo.toml'' then ''cargo''
      else if raw ''go.mod'' \<or> canon ''go.mod'' then ''go''
      else if raw ''package.json'' \<or> canon ''package.json'' then ''npm''
      else if raw ''pyproject.toml'' \<or> raw ''setup.py'' \<or> raw ''requirements.txt'' \<or> canon ''pyproject.toml''
      then ''python''
      else ''unknown'')"

definition project_id_of :: "Host \<Rightarrow> string \<Rightarrow> string option \<Rightarrow> string" where
  "project_id_of h canonical remote =
     take 16 (host_sha256_hex h (canonical @ nul @ (case remote of None \<Rightarrow> [] | Some r \<Rightarrow> r)))"

definition RepoIdentity_from_workspace :: "Host \<Rightarrow> string \<Rightarrow> RepoIdentity" where
  "RepoIdentity_from_workspace h workspace_root =
     (let canonical = canonical_root_of h workspace_root;
          remote = git_remote_of h canonical in
      \<lparr>project_id = project_id_of h canonical remote,
       root = canonical,
       repository_type = repository_type_of h workspace_root canonical,
       canonical_root = Some canonical,
       git_remote = remote,
       commit_sha = git_head_of h canonical\<rparr>)"

definition RepoIdentity_canonical :: "RepoIdentity \<Rightarrow> string" where
  "RepoIdentity_canonical i = (case canonical_root i of Some c \<Rightarrow> c | None \<Rightarrow> root i)"

definition RepoIdentity_same_workspace :: "RepoIdentity \<Rightarrow> RepoIdentity \<Rightarrow> bool" where
  "RepoIdentity_same_workspace a b \<longleftrightarrow> RepoIdentity_canonical a = RepoIdentity_canonical b"

section \<open>Clean paths\<close>

definition clean_segment :: "string \<Rightarrow> bool" where
  "clean_segment s \<longleftrightarrow> s \<noteq> '''' \<and> s \<noteq> ''.'' \<and> s \<noteq> ''..'' \<and> slash \<notin> set s \<and> CHR 0x5C \<notin> set s"

definition clean_absolute :: "string \<Rightarrow> bool" where
  "clean_absolute p \<longleftrightarrow> (\<exists>ps. p = slash # join [slash] ps \<and> (\<forall>s \<in> set ps. clean_segment s))"

lemma normalise_no_backslash: "CHR 0x5C \<notin> set (normalise_separators s)"
  by (auto simp: normalise_separators_def slash_def)

lemma normalise_id: "CHR 0x5C \<notin> set s \<Longrightarrow> normalise_separators s = s"
  by (induction s) (auto simp: normalise_separators_def)

lemma split_from_chars: "p \<in> set (split_from d acc s) \<Longrightarrow> set p \<subseteq> set acc \<union> set s"
proof (induction s arbitrary: acc)
  case Nil
  then show ?case by simp
next
  case (Cons c s)
  show ?case
    using Cons.prems Cons.IH [of "[]"] Cons.IH [of "acc @ [c]"] by (cases "c = d") auto
qed

lemma raw_segment:
  assumes "p \<in> set (split_char slash (normalise_separators s))"
  shows "slash \<notin> set p \<and> CHR 0x5C \<notin> set p"
  using split_char_pieces [OF assms] split_from_chars [OF assms [unfolded split_char_def]]
    normalise_no_backslash [of s] by auto

lemma root_steps_clean:
  assumes "\<forall>s \<in> set segs. slash \<notin> set s \<and> CHR 0x5C \<notin> set s" "\<forall>s \<in> set parts. clean_segment s"
  shows "\<forall>s \<in> set (foldl (root_step True) parts segs). clean_segment s"
  using assms
proof (induction segs arbitrary: parts)
  case Nil
  then show ?case by simp
next
  case (Cons g segs)
  have "\<forall>s \<in> set (root_step True parts g). clean_segment s"
    using Cons.prems by (auto simp: root_step_def clean_segment_def dest: in_set_butlastD)
  then show ?case using Cons.IH Cons.prems(1) by simp
qed

lemma root_steps_id:
  assumes "\<forall>s \<in> set segs. clean_segment s"
  shows "foldl (root_step True) parts segs = parts @ segs"
  using assms by (induction segs arbitrary: parts) (auto simp: root_step_def clean_segment_def)

definition is_absolute :: "string \<Rightarrow> bool" where
  "is_absolute p \<longleftrightarrow> (\<exists>c r. p = c # r \<and> (c = slash \<or> c = CHR 0x5C))"

lemma absolute_raw:
  "normalise_separators p \<noteq> [] \<and> hd (normalise_separators p) = slash \<longleftrightarrow> is_absolute p"
  by (cases p) (auto simp: normalise_separators_def is_absolute_def)

lemma lexical_root_absolute:
  "is_absolute p \<Longrightarrow>
   lexical_root p = slash # join [slash] (foldl (root_step True) [] (split_char slash (normalise_separators p)))"
  using absolute_raw [of p] by (simp add: lexical_root_def Let_def)

lemma lexical_root_clean: "is_absolute p \<Longrightarrow> clean_absolute (lexical_root p)"
  using root_steps_clean [of "split_char slash (normalise_separators p)" "[]"] raw_segment [of _ p]
  unfolding clean_absolute_def lexical_root_absolute
  by (intro exI conjI refl) auto

lemma join_chars: "c \<in> set (join [d] ps) \<Longrightarrow> c = d \<or> (\<exists>p \<in> set ps. c \<in> set p)"
  by (induction "[d]" ps rule: join.induct) auto

lemma lexical_root_fixpoint:
  assumes "clean_absolute p"
  shows "lexical_root p = p"
proof -
  obtain ps where p: "p = slash # join [slash] ps" and ps: "\<forall>s \<in> set ps. clean_segment s"
    using assms by (auto simp: clean_absolute_def)
  have "CHR 0x5C \<notin> set p"
    using ps by (auto simp: p slash_def clean_segment_def dest!: join_chars)
  then have n: "normalise_separators p = p" by (rule normalise_id)
  have abs: "is_absolute p" by (simp add: p is_absolute_def)
  have split: "split_char slash p = [] # split_char slash (join [slash] ps)"
    by (simp add: p split_char_def)
  show ?thesis
  proof (cases "ps = []")
    case True
    then show ?thesis by (simp add: lexical_root_absolute [OF abs] n split) (simp add: p split_char_def root_step_def)
  next
    case False
    then have "split_char slash (join [slash] ps) = ps"
      using ps by (intro split_char_join) (auto simp: clean_segment_def)
    then have "foldl (root_step True) [] (split_char slash p) = ps"
      using root_steps_id [OF ps, of "[]"] by (simp add: split root_step_def)
    then show ?thesis by (simp add: lexical_root_absolute [OF abs] n) (simp add: p)
  qed
qed

section \<open>Properties\<close>

text \<open>The lexical pass of \<open>canonical_root_of\<close> cleans every absolute path: the result is absolute,
  its segments are neither empty nor \<^verbatim>\<open>.\<close> nor \<^verbatim>\<open>..\<close>, and cleaning it again changes nothing.\<close>

theorem lexical_root_canonical:
  assumes "is_absolute p"
  shows "clean_absolute (lexical_root p) \<and> lexical_root (lexical_root p) = lexical_root p"
  using lexical_root_clean [OF assms] lexical_root_fixpoint by blast

lemma lexical_root_canonical_witness:
  "lexical_root ''/a/./b/../../../c//d'' = ''/c/d'' \<and> clean_absolute (lexical_root ''/a/./b/../../../c//d'')"
proof -
  have "is_absolute ''/a/./b/../../../c//d''" by (simp add: is_absolute_def slash_def)
  from lexical_root_canonical [OF this] show ?thesis
    by (simp add: lexical_root_def normalise_separators_def slash_def split_char_def root_step_def)
qed

lemma root_steps_dots:
  "foldl (root_step False) [] (replicate (2 * n) ''..'') = []"
  by (induction n) (simp_all add: root_step_def)

lemma root_steps_clean_relative:
  "\<forall>s \<in> set segs. clean_segment s \<Longrightarrow> foldl (root_step False) parts segs = parts @ segs"
  by (induction segs arbitrary: parts) (auto simp: root_step_def clean_segment_def)

lemma join_front: "q \<noteq> [] \<Longrightarrow> join d (q # r) \<noteq> [] \<and> hd (join d (q # r)) = hd q"
  by (cases r) simp_all

lemma dotted_segments:
  assumes "\<forall>s \<in> set ps. clean_segment s"
  shows "\<forall>s \<in> set (replicate k ''..'' @ ps). s \<noteq> [] \<and> slash \<notin> set s \<and> CHR 0x5C \<notin> set s"
proof
  fix s assume "s \<in> set (replicate k ''..'' @ ps)"
  then consider "s = ''..''" | "s \<in> set ps" by (auto simp only: set_append Un_iff in_set_replicate)
  then show "s \<noteq> [] \<and> slash \<notin> set s \<and> CHR 0x5C \<notin> set s"
  proof cases
    case 1
    then show ?thesis by (simp add: slash_def)
  next
    case 2
    then show ?thesis using assms by (simp add: clean_segment_def)
  qed
qed

text \<open>On a relative path a \<^verbatim>\<open>..\<close> segment pops an earlier \<^verbatim>\<open>..\<close>, so leading pairs of them cancel:
  the path that climbs an even number of directories before descending is normalised to the path
  that does not climb at all.\<close>

theorem leading_dotdots_cancel:
  assumes "ps \<noteq> []" "\<forall>s \<in> set ps. clean_segment s"
  shows "lexical_root (join [slash] (replicate (2 * n) ''..'' @ ps)) = join [slash] ps"
proof -
  let ?segs = "replicate (2 * n) ''..'' @ ps"
  note segs = dotted_segments [OF assms(2), of "2 * n"]
  have ne: "?segs \<noteq> []" using assms(1) by simp
  have n: "normalise_separators (join [slash] ?segs) = join [slash] ?segs"
  proof (rule normalise_id, rule notI)
    assume "CHR 0x5C \<in> set (join [slash] ?segs)"
    then have "CHR 0x5C = slash \<or> (\<exists>s \<in> set ?segs. CHR 0x5C \<in> set s)" by (rule join_chars)
    then show False using segs by (simp add: slash_def)
  qed
  have sp: "split_char slash (join [slash] ?segs) = ?segs"
    using segs by (intro split_char_join [OF ne]) blast
  have hd: "join [slash] qs \<noteq> [] \<and> hd (join [slash] qs) \<noteq> slash"
    if qs: "qs \<noteq> []" "\<forall>s \<in> set qs. s \<noteq> [] \<and> slash \<notin> set s" for qs
  proof -
    obtain q r where q: "qs = q # r" "q \<noteq> []" "slash \<notin> set q" using qs by (cases qs) auto
    then have "hd q \<noteq> slash" using hd_in_set [of q] by metis
    with q show ?thesis using join_front [of q "[slash]" r] by simp
  qed
  have "\<not> (join [slash] ?segs \<noteq> [] \<and> hd (join [slash] ?segs) = slash)" using hd [OF ne] segs by blast
  moreover have "join [slash] ps \<noteq> []"
    using hd [OF assms(1)] assms(2) by (simp add: clean_segment_def)
  ultimately show ?thesis
    by (simp only: lexical_root_def Let_def n sp foldl_append root_steps_dots
        root_steps_clean_relative [OF assms(2)] append_Nil if_False)
qed

lemma leading_dotdots_cancel_witness: "lexical_root ''../../a'' = ''a''"
proof -
  have "\<forall>s \<in> set [''a'']. clean_segment s" by (simp add: clean_segment_def slash_def)
  from leading_dotdots_cancel [OF _ this, of 1] show ?thesis by (simp add: numeral_2_eq_2 slash_def)
qed

text \<open>Identities derived on one host denote the same workspace exactly when their paths have the
  same canonical root, and then they agree on project id, root, remote and head commit.\<close>

lemma same_workspace_iff_canonical_root:
  "RepoIdentity_same_workspace (RepoIdentity_from_workspace h p) (RepoIdentity_from_workspace h q) =
     (canonical_root_of h p = canonical_root_of h q) \<and>
   RepoIdentity_same_workspace (RepoIdentity_from_workspace h p) (RepoIdentity_from_workspace h q) =
     (RepoIdentity_from_workspace h p =
      (RepoIdentity_from_workspace h q)\<lparr>repository_type := repository_type (RepoIdentity_from_workspace h p)\<rparr>)"
  by (auto simp: RepoIdentity_same_workspace_def RepoIdentity_canonical_def RepoIdentity_from_workspace_def Let_def)

text \<open>The parser of \<^verbatim>\<open>git remote -v\<close> skips blank and malformed lines: it returns the second word of
  the first line that has two, and nothing when no line has.\<close>

theorem first_remote_url_spec:
  "parse_first_remote_url text =
     (case filter (\<lambda>l. 2 \<le> length (split_whitespace l)) (str_lines text) of
        [] \<Rightarrow> None
      | l # _ \<Rightarrow> Some (split_whitespace l ! 1))"
proof -
  have "parse_first_remote_line ls =
      (case filter (\<lambda>l. 2 \<le> length (split_whitespace l)) ls of [] \<Rightarrow> None | l # _ \<Rightarrow> Some (split_whitespace l ! 1))" for ls
  proof (induction ls)
    case Nil
    then show ?case by simp
  next
    case (Cons l ls)
    then show ?case using split_whitespace_nonempty [of l]
      by (auto split: list.split)
  qed
  then show ?thesis by (simp add: parse_first_remote_url_def)
qed

end
