(* ===== verification/Host_Fs.thy ===== *)
theory Host_Fs
  imports Rust_Text
begin

text \<open>
  What the change engine uses of \<open>std::path\<close> and \<open>std::fs\<close>, with the errors of the crate
  (\<^verbatim>\<open>core/src/error.rs\<close>) and the atomic write of \<^verbatim>\<open>core/src/persistence.rs\<close>.

  A path is its text; \<open>path_components\<close> is \<open>Path::components\<close> on Unix, and paths are compared by
  components as Rust does. A file system holds the contents and directories by location;
  \<open>links\<close> is the location a path denotes once symbolic links are followed. The fault tables say
  which operations fail, and how many bytes a failing \<open>fs::write\<close> leaves in the file it has
  already truncated. Beside a value or an error, an operation can panic or run forever
  (\<open>Panics\<close>, \<open>Diverges\<close>).
\<close>

section \<open>Errors and outcomes\<close>

datatype CodeBroError =
    Io string | Json string | Toml string | Provider string | Tool string | Permission string
  | Patch string | Index string | Context string | Scan string | Session string | Config string

fun error_text :: "CodeBroError \<Rightarrow> string" where
  "error_text (Io e) = ''IO error: '' @ e"
| "error_text (Json e) = ''JSON error: '' @ e"
| "error_text (Toml e) = ''TOML error: '' @ e"
| "error_text (Provider e) = ''Provider error: '' @ e"
| "error_text (Tool e) = ''Tool error: '' @ e"
| "error_text (Permission e) = ''Permission error: '' @ e"
| "error_text (Patch e) = ''Patch error: '' @ e"
| "error_text (Index e) = ''Index error: '' @ e"
| "error_text (Context e) = ''Context error: '' @ e"
| "error_text (Scan e) = ''Scan error: '' @ e"
| "error_text (Session e) = ''Session error: '' @ e"
| "error_text (Config e) = ''Config error: '' @ e"

datatype 'a outcome = Ok 'a | Err CodeBroError | Panics | Diverges

fun outcome_bind :: "'a outcome \<Rightarrow> ('a \<Rightarrow> 'b outcome) \<Rightarrow> 'b outcome" where
  "outcome_bind (Ok x) f = f x"
| "outcome_bind (Err e) f = Err e"
| "outcome_bind Panics f = Panics"
| "outcome_bind Diverges f = Diverges"

lemma outcome_bind_Ok: "outcome_bind r f = Ok y \<longleftrightarrow> (\<exists>x. r = Ok x \<and> f x = Ok y)"
  by (cases r) auto

lemma outcome_bind_Diverges: "outcome_bind r f = Diverges \<longleftrightarrow> r = Diverges \<or> (\<exists>x. r = Ok x \<and> f x = Diverges)"
  by (cases r) auto

text \<open>The em dash of the messages, in UTF-8.\<close>

definition em_dash :: string where
  "em_dash = [CHR 0xE2, CHR 0x80, CHR 0x94]"

section \<open>Paths\<close>

datatype component = RootDir | CurDir | ParentDir | Normal string

definition absolute_path :: "string \<Rightarrow> bool" where
  "absolute_path p \<longleftrightarrow> p \<noteq> [] \<and> hd p = CHR ''/''"

fun segment_component :: "string \<Rightarrow> component list" where
  "segment_component s =
     (if s = '''' \<or> s = ''.'' then [] else if s = ''..'' then [ParentDir] else [Normal s])"

definition path_components :: "string \<Rightarrow> component list" where
  "path_components p =
     (let segs = split_char (CHR ''/'') p in
      (if absolute_path p then [RootDir] else if hd segs = ''.'' then [CurDir] else []) @
      concat (map segment_component segs))"

definition path_eq :: "string \<Rightarrow> string \<Rightarrow> bool" where
  "path_eq p q \<longleftrightarrow> path_components p = path_components q"

definition path_starts_with :: "string \<Rightarrow> string \<Rightarrow> bool" where
  "path_starts_with p base \<longleftrightarrow>
     take (length (path_components base)) (path_components p) = path_components base"

fun component_text :: "component \<Rightarrow> string" where
  "component_text RootDir = ''''"
| "component_text CurDir = ''.''"
| "component_text ParentDir = ''..''"
| "component_text (Normal s) = s"

definition path_render :: "component list \<Rightarrow> string" where
  "path_render cs = (if cs = [RootDir] then ''/'' else join ''/'' (map component_text cs))"

definition path_parent :: "string \<Rightarrow> string option" where
  "path_parent p =
     (let cs = path_components p in
      if cs = [] \<or> last cs = RootDir then None else Some (path_render (butlast cs)))"

definition path_file_name :: "string \<Rightarrow> string option" where
  "path_file_name p =
     (let cs = path_components p in
      if cs = [] then None else (case last cs of Normal s \<Rightarrow> Some s | _ \<Rightarrow> None))"

section \<open>The file system\<close>

datatype io_kind = NotFound | PermissionDenied | IsADirectory | InvalidData | OtherIo

datatype io_error = IoError (io_kind: io_kind) (io_text: string)

record FileSystem =
  contents :: "string \<Rightarrow> string option"
  directories :: "string \<Rightarrow> bool"
  links :: "string \<Rightarrow> string"
  read_faults :: "string \<Rightarrow> io_error option"
  write_faults :: "string \<Rightarrow> (io_error \<times> nat option) option"
  atomic_faults :: "string \<Rightarrow> io_error option"
  remove_faults :: "string \<Rightarrow> io_error option"
  mkdir_faults :: "string \<Rightarrow> io_error option"

definition fs_exists :: "FileSystem \<Rightarrow> string \<Rightarrow> bool" where
  "fs_exists fs p \<longleftrightarrow> contents fs (links fs p) \<noteq> None \<or> directories fs (links fs p)"

definition fs_canonicalize :: "FileSystem \<Rightarrow> string \<Rightarrow> string option" where
  "fs_canonicalize fs p = (if fs_exists fs p then Some (links fs p) else None)"

fun valid_utf8 :: "string \<Rightarrow> bool" where
  "valid_utf8 [] = True"
| "valid_utf8 (b # r) =
     (case utf8_front b r of Inl _ \<Rightarrow> False | Inr n \<Rightarrow> valid_utf8 (drop (n - 1) r))"

declare valid_utf8.simps(2) [simp del]

lemma valid_utf8_ascii: "\<forall>c \<in> set s. of_char c < (128 :: nat) \<Longrightarrow> valid_utf8 s"
  by (induction s) (auto simp: valid_utf8.simps utf8_front_def utf8_width_def)

definition fs_read_to_string :: "FileSystem \<Rightarrow> string \<Rightarrow> io_error + string" where
  "fs_read_to_string fs p =
     (case read_faults fs p of
        Some e \<Rightarrow> Inl e
      | None \<Rightarrow>
          (case contents fs (links fs p) of
             None \<Rightarrow> Inl (if directories fs (links fs p) then IoError IsADirectory ''Is a directory (os error 21)''
                          else IoError NotFound ''No such file or directory (os error 2)'')
           | Some s \<Rightarrow> if valid_utf8 s then Inr s
               else Inl (IoError InvalidData ''stream did not contain valid UTF-8'')))"

text \<open>The directory entry a path names, without following a final symbolic link.\<close>

definition entry_location :: "FileSystem \<Rightarrow> string \<Rightarrow> string" where
  "entry_location fs p =
     (case (path_parent p, path_file_name p) of
        (Some d, Some n) \<Rightarrow> path_join (links fs d) n
      | _ \<Rightarrow> links fs p)"

definition parent_is_directory :: "FileSystem \<Rightarrow> string \<Rightarrow> bool" where
  "parent_is_directory fs p \<longleftrightarrow>
     (case path_parent p of None \<Rightarrow> True | Some d \<Rightarrow> d = [] \<or> directories fs (links fs d))"

text \<open>
  \<open>fs::write\<close> opens with truncation and then writes. It fails before the file is touched, or
  after some of the bytes.
\<close>

definition fs_write :: "string \<Rightarrow> string \<Rightarrow> FileSystem \<Rightarrow> (io_error + unit) \<times> FileSystem" where
  "fs_write p data fs =
     (let loc = links fs p in
      if directories fs loc then (Inl (IoError IsADirectory ''Is a directory (os error 21)''), fs)
      else if contents fs loc = None \<and> \<not> parent_is_directory fs p
      then (Inl (IoError NotFound ''No such file or directory (os error 2)''), fs)
      else case write_faults fs p of
        Some (e, None) \<Rightarrow> (Inl e, fs)
      | Some (e, Some n) \<Rightarrow> (Inl e, fs\<lparr>contents := (contents fs)(loc \<mapsto> take n data)\<rparr>)
      | None \<Rightarrow> (Inr (), fs\<lparr>contents := (contents fs)(loc \<mapsto> data)\<rparr>))"

text \<open>\<open>fs::remove_file\<close> removes the entry, which for a symbolic link is the link.\<close>

definition set_link :: "string \<Rightarrow> string \<Rightarrow> FileSystem \<Rightarrow> FileSystem" where
  "set_link p loc fs = fs\<lparr>links := (\<lambda>q. if path_eq q p then loc else links fs q)\<rparr>"

definition fs_remove_file :: "string \<Rightarrow> FileSystem \<Rightarrow> (io_error + unit) \<times> FileSystem" where
  "fs_remove_file p fs =
     (case remove_faults fs p of
        Some e \<Rightarrow> (Inl e, fs)
      | None \<Rightarrow>
          let loc = entry_location fs p in
          if links fs p \<noteq> loc then (Inr (), set_link p loc fs)
          else if contents fs loc \<noteq> None then (Inr (), fs\<lparr>contents := (contents fs)(loc := None)\<rparr>)
          else if directories fs loc then (Inl (IoError IsADirectory ''Is a directory (os error 21)''), fs)
          else (Inl (IoError NotFound ''No such file or directory (os error 2)''), fs))"

function path_ancestors :: "string \<Rightarrow> string list" where
  "path_ancestors p =
     (case path_parent p of
        None \<Rightarrow> [p]
      | Some d \<Rightarrow> if length (path_components d) < length (path_components p) then p # path_ancestors d else [p])"
  by pat_completeness auto
termination
  by (relation "measure (\<lambda>p. length (path_components p))") auto

declare path_ancestors.simps [simp del]

definition fs_create_dir_all :: "string \<Rightarrow> FileSystem \<Rightarrow> (io_error + unit) \<times> FileSystem" where
  "fs_create_dir_all d fs =
     (case mkdir_faults fs d of
        Some e \<Rightarrow> (Inl e, fs)
      | None \<Rightarrow>
          let locs = map (links fs) (path_ancestors d) in
          if list_ex (\<lambda>l. contents fs l \<noteq> None) locs
          then (Inl (IoError OtherIo (if contents fs (links fs d) \<noteq> None then ''File exists (os error 17)''
                  else ''Not a directory (os error 20)'')), fs)
          else (Inr (), fs\<lparr>directories := (\<lambda>l. directories fs l \<or> l \<in> set locs)\<rparr>))"

text \<open>
  \<open>persistence::write_atomic\<close>: the parent directory is created, the content staged in a
  temporary file of that directory and renamed over the entry. A failing step leaves the
  entry as it was. Renaming replaces a symbolic link instead of writing through it.
\<close>

definition write_atomic :: "string \<Rightarrow> string \<Rightarrow> FileSystem \<Rightarrow> (io_error + unit) \<times> FileSystem" where
  "write_atomic p data fs =
     (let dir = (case path_parent p of Some d \<Rightarrow> if d \<noteq> [] then d else ''.'' | None \<Rightarrow> ''.'') in
      case fs_create_dir_all dir fs of
        (Inl e, fs1) \<Rightarrow> (Inl e, fs1)
      | (Inr _, fs1) \<Rightarrow>
          (case atomic_faults fs1 p of
             Some e \<Rightarrow> (Inl e, fs1)
           | None \<Rightarrow>
               let loc = entry_location fs1 p in
               if links fs1 p = loc \<and> directories fs1 loc
               then (Inl (IoError IsADirectory ''Is a directory (os error 21)''), fs1)
               else (Inr (), set_link p loc (fs1\<lparr>contents := (contents fs1)(loc \<mapsto> data)\<rparr>))))"

section \<open>Laws\<close>

text \<open>A path that is not a symbolic link denotes its own entry.\<close>

definition plain_path :: "FileSystem \<Rightarrow> string \<Rightarrow> bool" where
  "plain_path fs p \<longleftrightarrow> links fs p = entry_location fs p"

lemma fs_write_Inr:
  "fs_write p data fs = (Inr u, fs') \<Longrightarrow> fs' = fs\<lparr>contents := (contents fs)(links fs p \<mapsto> data)\<rparr>"
  by (auto simp: fs_write_def Let_def split: if_splits option.splits)

lemma fs_write_frame:
  "fs_write p data fs = (r, fs') \<Longrightarrow>
   (\<exists>c. fs' = fs\<lparr>contents := (contents fs)(links fs p := c)\<rparr>)"
proof -
  have same: "\<exists>c. fs = fs\<lparr>contents := (contents fs)(links fs p := c)\<rparr>"
    by (rule exI [of _ "contents fs (links fs p)"]) simp
  assume "fs_write p data fs = (r, fs')"
  then show ?thesis using same by (auto simp: fs_write_def Let_def split: if_splits option.splits)
qed

lemma fs_read_write:
  "fs_write p data fs = (Inr u, fs') \<Longrightarrow> read_faults fs p = None \<Longrightarrow> valid_utf8 data \<Longrightarrow>
   fs_read_to_string fs' p = Inr data"
  by (drule fs_write_Inr) (simp add: fs_read_to_string_def)

lemma fs_create_dir_all_frame:
  "fs_create_dir_all d fs = (r, fs') \<Longrightarrow> \<exists>ds. fs' = fs\<lparr>directories := ds\<rparr>"
proof -
  have same: "\<exists>ds. fs = fs\<lparr>directories := ds\<rparr>" by (rule exI [of _ "directories fs"]) simp
  assume "fs_create_dir_all d fs = (r, fs')"
  then show ?thesis using same by (auto simp: fs_create_dir_all_def Let_def split: if_splits option.splits)
qed

end
