(* ===== verification/Patch_Engine.thy ===== *)
theory Patch_Engine
  imports Host_Fs
begin

text \<open>
  The patch engine (\<^verbatim>\<open>core/src/tools/patch.rs\<close>) and the reviewable change plan over it
  (\<^verbatim>\<open>core/src/tools/change.rs\<close>): a positional line diff, the hunk parsed back from it, and the
  reconstruction of the target that apply checks byte for byte before writing.

  The lemmas show that the preview is the computed diff, and for which edits the
  reconstruction reproduces the target: exactly those where no unchanged line begins with a
  plus or a minus sign, on targets without carriage returns.
\<close>

section \<open>Patches\<close>

record PatchHunk =
  old_start :: nat
  old_count :: nat
  new_start :: nat
  new_count :: nat
  hunk_lines :: "string list"

record FilePatch =
  patch_path :: string
  hunks :: "PatchHunk list"
  unified_diff :: string
  new_content :: string

definition nl :: string where
  "nl = [newline]"

text \<open>The loop of \<open>compute_diff\<close> over the two line indices; the recursion is on the lines not yet visited.\<close>

fun compute_diff_loop :: "string list \<Rightarrow> string list \<Rightarrow> string" where
  "compute_diff_loop [] [] = []"
| "compute_diff_loop (old # os) (new # ns) =
     (if old = new then '' '' @ old @ nl @ compute_diff_loop os ns
      else ''-'' @ old @ nl @ ''+'' @ new @ nl @ compute_diff_loop os ns)"
| "compute_diff_loop (old # os) [] = ''-'' @ old @ nl @ compute_diff_loop os []"
| "compute_diff_loop [] (new # ns) = ''+'' @ new @ nl @ compute_diff_loop [] ns"

definition compute_diff :: "string \<Rightarrow> string \<Rightarrow> string" where
  "compute_diff old new = compute_diff_loop (str_lines old) (str_lines new)"

definition hunk_step :: "PatchHunk \<Rightarrow> string \<Rightarrow> PatchHunk" where
  "hunk_step h line =
     (case line of
        [] \<Rightarrow> h
      | c # rest \<Rightarrow>
          if c = CHR '' '' then
            h\<lparr>hunk_lines := hunk_lines h @ [rest], old_count := old_count h + 1, new_count := new_count h + 1\<rparr>
          else if c = CHR ''-'' then
            h\<lparr>hunk_lines := hunk_lines h @ [line], old_count := old_count h + 1\<rparr>
          else if c = CHR ''+'' then
            h\<lparr>hunk_lines := hunk_lines h @ [line], new_count := new_count h + 1\<rparr>
          else h)"

definition parse_hunks :: "string \<Rightarrow> PatchHunk list" where
  "parse_hunks diff =
     (let h = foldl hunk_step \<lparr>old_start = 1, old_count = 0, new_start = 1, new_count = 0, hunk_lines = []\<rparr>
                (str_lines diff)
      in if hunk_lines h \<noteq> [] then [h] else [])"

definition generate_unified_diff :: "string \<Rightarrow> string \<Rightarrow> string \<Rightarrow> string" where
  "generate_unified_diff path old new =
     (let os = str_lines old; ns = str_lines new in
      ''--- a/'' @ path @ nl @
      ''+++ b/'' @ path @ nl @
      ''@@ -1,'' @ show_nat (length os) @ '' +1,'' @ show_nat (length ns) @ '' @@'' @ nl @
      concat (map (\<lambda>(old_line, new_line).
          if old_line = new_line then '' '' @ old_line @ nl
          else ''-'' @ old_line @ nl @ ''+'' @ new_line @ nl) (zip os ns)) @
      (if length os > length ns then concat (map (\<lambda>l. ''-'' @ l @ nl) (drop (length ns) os))
       else if length ns > length os then concat (map (\<lambda>l. ''+'' @ l @ nl) (drop (length os) ns))
       else []))"

definition create_patch :: "string \<Rightarrow> string \<Rightarrow> string \<Rightarrow> FilePatch" where
  "create_patch path old new =
     \<lparr>patch_path = path, hunks = parse_hunks (compute_diff old new),
      unified_diff = generate_unified_diff path old new, new_content = new\<rparr>"

definition starts_with_char :: "char \<Rightarrow> string \<Rightarrow> bool" where
  "starts_with_char c s \<longleftrightarrow> s \<noteq> [] \<and> hd s = c"

definition ends_with_newline :: "string \<Rightarrow> bool" where
  "ends_with_newline s \<longleftrightarrow> s \<noteq> [] \<and> last s = newline"

text \<open>The lines of a hunk that go into the result, with the plus sign of added lines removed.\<close>

definition hunk_new_lines :: "string list \<Rightarrow> string list" where
  "hunk_new_lines ls =
     map (\<lambda>l. if starts_with_char (CHR ''+'') l then tl l else l)
       (filter (\<lambda>l. \<not> starts_with_char (CHR ''-'') l) ls)"

definition unlines :: "string list \<Rightarrow> string" where
  "unlines ls = concat (map (\<lambda>l. l @ nl) ls)"

text \<open>One turn of the loop over the hunks; slicing past the end panics.\<close>

definition apply_hunk :: "string list \<Rightarrow> PatchHunk \<Rightarrow> string outcome" where
  "apply_hunk ls h =
     (let start_idx = old_start h - 1;
          end_idx = min (start_idx + old_count h) (length ls) in
      if start_idx > length ls then Panics
      else Ok (unlines (take start_idx ls) @ unlines (hunk_new_lines (hunk_lines h)) @ unlines (drop end_idx ls)))"

fun apply_hunks :: "string list \<Rightarrow> string \<Rightarrow> PatchHunk list \<Rightarrow> string outcome" where
  "apply_hunks ls result [] = Ok result"
| "apply_hunks ls result (h # hs) = outcome_bind (apply_hunk ls h) (\<lambda>r. apply_hunks ls r hs)"

definition trim_newlines :: "string \<Rightarrow> string" where
  "trim_newlines s = rev (dropWhile (\<lambda>c. c = newline) (rev s))"

definition align_final_newline :: "string \<Rightarrow> string \<Rightarrow> string" where
  "align_final_newline target result =
     (if ends_with_newline target
      then (if result \<noteq> [] \<and> \<not> ends_with_newline result then result @ nl else result)
      else trim_newlines result)"

definition reconstruct_from_patch :: "string \<Rightarrow> FilePatch \<Rightarrow> string outcome" where
  "reconstruct_from_patch original patch =
     outcome_bind (apply_hunks (str_lines original) original (hunks patch))
       (\<lambda>result. Ok (align_final_newline (new_content patch) result))"

section \<open>Applying and rolling back\<close>

definition PatchEngine_apply :: "FilePatch \<Rightarrow> bool \<Rightarrow> FileSystem \<Rightarrow> string outcome \<times> FileSystem" where
  "PatchEngine_apply patch dry_run fs =
     (if dry_run then
        (Ok (''Dry run: Would apply patch to '' @ patch_path patch @ nl @ unified_diff patch), fs)
      else case fs_read_to_string fs (patch_path patch) of
        Inl e \<Rightarrow> (Err (Patch (''Failed to read file: '' @ io_text e)), fs)
      | Inr current \<Rightarrow>
          (case reconstruct_from_patch current patch of
             Ok result \<Rightarrow>
               if result \<noteq> new_content patch then
                 (Err (Patch (''patch reconstruction does not match the declared target content for '' @
                    patch_path patch @ '' '' @ em_dash @ '' refusing to write'')), fs)
               else (case fs_write (patch_path patch) result fs of
                   (Inl e, fs') \<Rightarrow> (Err (Patch (''Failed to write file: '' @ io_text e)), fs')
                 | (Inr _, fs') \<Rightarrow> (Ok (''Patch applied to '' @ patch_path patch), fs'))
           | Err e \<Rightarrow> (Err e, fs)
           | Panics \<Rightarrow> (Panics, fs)
           | Diverges \<Rightarrow> (Diverges, fs)))"

definition PatchEngine_rollback :: "string \<Rightarrow> string \<Rightarrow> FileSystem \<Rightarrow> unit outcome \<times> FileSystem" where
  "PatchEngine_rollback path backup fs =
     (case fs_write path backup fs of
        (Inl e, fs') \<Rightarrow> (Err (Patch (''Failed to rollback: '' @ io_text e)), fs')
      | (Inr _, fs') \<Rightarrow> (Ok (), fs'))"

definition validate_patch :: "FilePatch \<Rightarrow> unit outcome" where
  "validate_patch patch =
     (if list_ex (\<lambda>h. old_count h = 0 \<and> new_count h = 0) (hunks patch)
      then Err (Patch ''Empty hunk detected'') else Ok ())"

section \<open>Change plans\<close>

record ChangePlan =
  plan_patch :: FilePatch
  backup_original :: string
  applied :: bool

definition ChangePlan_propose_between :: "string \<Rightarrow> string \<Rightarrow> string \<Rightarrow> ChangePlan outcome" where
  "ChangePlan_propose_between path old_content target =
     Ok \<lparr>plan_patch = create_patch path old_content target, backup_original = old_content, applied = False\<rparr>"

definition ChangePlan_propose :: "FileSystem \<Rightarrow> string \<Rightarrow> string \<Rightarrow> ChangePlan outcome" where
  "ChangePlan_propose fs path target =
     (case fs_read_to_string fs path of
        Inl e \<Rightarrow> Err (Patch (''Cannot read '' @ path @ '' for change proposal: '' @ io_text e))
      | Inr old_content \<Rightarrow>
          Ok \<lparr>plan_patch = create_patch path old_content target, backup_original = old_content, applied = False\<rparr>)"

definition ChangePlan_preview :: "ChangePlan \<Rightarrow> string" where
  "ChangePlan_preview plan = unified_diff (plan_patch plan)"

definition ChangePlan_apply :: "ChangePlan \<Rightarrow> FileSystem \<Rightarrow> (string outcome \<times> ChangePlan) \<times> FileSystem" where
  "ChangePlan_apply plan fs =
     (if applied plan then ((Ok ''Change already applied (no-op).'', plan), fs)
      else case validate_patch (plan_patch plan) of
        Ok _ \<Rightarrow>
          (case PatchEngine_apply (plan_patch plan) False fs of
             (Ok out, fs') \<Rightarrow> ((Ok out, plan\<lparr>applied := True\<rparr>), fs')
           | (r, fs') \<Rightarrow> ((r, plan), fs'))
      | Err e \<Rightarrow> ((Err e, plan), fs)
      | Panics \<Rightarrow> ((Panics, plan), fs)
      | Diverges \<Rightarrow> ((Diverges, plan), fs))"

definition ChangePlan_rollback :: "ChangePlan \<Rightarrow> FileSystem \<Rightarrow> unit outcome \<times> FileSystem" where
  "ChangePlan_rollback plan fs = PatchEngine_rollback (patch_path (plan_patch plan)) (backup_original plan) fs"

section \<open>Lines of a diff\<close>

text \<open>The diff as a list of lines, and what the hunk parsed from it puts into the result.\<close>

fun diff_lines :: "string list \<Rightarrow> string list \<Rightarrow> string list" where
  "diff_lines [] [] = []"
| "diff_lines (old # os) (new # ns) =
     (if old = new then [CHR '' '' # old] else [CHR ''-'' # old, CHR ''+'' # new]) @ diff_lines os ns"
| "diff_lines (old # os) [] = (CHR ''-'' # old) # diff_lines os []"
| "diff_lines [] (new # ns) = (CHR ''+'' # new) # diff_lines [] ns"

lemma unlines_simps [simp]:
  "unlines [] = []" "unlines (l # ls) = l @ nl @ unlines ls" "unlines (ls @ ms) = unlines ls @ unlines ms"
  by (simp_all add: unlines_def)

lemma compute_diff_lines: "compute_diff_loop os ns = unlines (diff_lines os ns)"
  by (induction os ns rule: compute_diff_loop.induct) simp_all

lemma lines_from_run: "newline \<notin> set l \<Longrightarrow> lines_from acc (l @ s) = lines_from (acc @ l) s"
  by (induction l arbitrary: acc) auto

lemma lines_from_Nil_iff: "lines_from acc s = [] \<longleftrightarrow> acc = [] \<and> s = []"
  by (induction s arbitrary: acc) auto

lemma str_lines_unlines:
  "\<forall>l \<in> set ls. newline \<notin> set l \<Longrightarrow> str_lines (unlines ls) = map strip_cr ls"
proof (induction ls)
  case Nil
  then show ?case by (simp add: str_lines_def)
next
  case (Cons l ls)
  then show ?case by (simp add: str_lines_def lines_from_run nl_def)
qed

lemma lines_from_chars: "l \<in> set (lines_from acc s) \<Longrightarrow> newline \<notin> set acc \<Longrightarrow> newline \<notin> set l"
proof (induction s arbitrary: acc)
  case Nil
  then show ?case by (auto split: if_splits)
next
  case (Cons c s)
  have strip: "newline \<notin> set (strip_cr acc)" using Cons.prems(2) by (auto simp: strip_cr_def dest: in_set_butlastD)
  show ?case
    using Cons.prems Cons.IH [of "[]"] Cons.IH [of "acc @ [c]"] strip by (cases "c = newline") auto
qed

lemma str_lines_no_newline: "l \<in> set (str_lines s) \<Longrightarrow> newline \<notin> set l"
  unfolding str_lines_def by (erule lines_from_chars) simp

lemma lines_from_subset: "l \<in> set (lines_from acc s) \<Longrightarrow> set l \<subseteq> set acc \<union> set s"
proof (induction s arbitrary: acc)
  case Nil
  then show ?case by (auto split: if_splits)
next
  case (Cons c s)
  have "set (strip_cr acc) \<subseteq> set acc" by (auto simp: strip_cr_def dest: in_set_butlastD)
  then show ?case
    using Cons.prems Cons.IH [of "[]"] Cons.IH [of "acc @ [c]"] by (cases "c = newline") auto
qed

lemma str_lines_chars: "l \<in> set (str_lines s) \<Longrightarrow> c \<in> set l \<Longrightarrow> c \<in> set s"
  using lines_from_subset [of l "[]" s] by (auto simp: str_lines_def)

lemma diff_lines_no_newline:
  "\<forall>l \<in> set os \<union> set ns. newline \<notin> set l \<Longrightarrow> \<forall>l \<in> set (diff_lines os ns). newline \<notin> set l"
  by (induction os ns rule: diff_lines.induct) auto

text \<open>Reading the hunk back: the lines kept when the diff of \<open>os\<close> and \<open>ns\<close> is applied.\<close>

definition hunk_line :: "string \<Rightarrow> string" where
  "hunk_line l = (if starts_with_char (CHR '' '') l then tl l else l)"

definition is_diff_line :: "string \<Rightarrow> bool" where
  "is_diff_line l \<longleftrightarrow> (\<exists>c r. l = c # r \<and> c \<in> {CHR '' '', CHR ''-'', CHR ''+''})"

lemma hunk_step_counts:
  "is_diff_line l \<Longrightarrow> hunk_lines (hunk_step h l) = hunk_lines h @ [hunk_line l] \<and>
   old_count (hunk_step h l) = old_count h + (if starts_with_char (CHR ''+'') l then 0 else 1) \<and>
   new_count (hunk_step h l) = new_count h + (if starts_with_char (CHR ''-'') l then 0 else 1) \<and>
   old_start (hunk_step h l) = old_start h"
  by (auto simp: is_diff_line_def hunk_step_def hunk_line_def starts_with_char_def)

lemma hunk_steps:
  "\<forall>l \<in> set ls. is_diff_line l \<Longrightarrow> hunk_lines (foldl hunk_step h ls) = hunk_lines h @ map hunk_line ls \<and>
   old_count (foldl hunk_step h ls) = old_count h + length (filter (\<lambda>l. \<not> starts_with_char (CHR ''+'') l) ls) \<and>
   old_start (foldl hunk_step h ls) = old_start h"
  by (induction ls arbitrary: h) (auto simp: hunk_step_counts)

lemma hunk_steps_nonempty:
  "\<forall>l \<in> set ls. is_diff_line l \<Longrightarrow> ls \<noteq> [] \<Longrightarrow>
   old_count (foldl hunk_step h ls) > 0 \<or> new_count (foldl hunk_step h ls) > 0"
proof (induction ls rule: rev_induct)
  case (snoc l ls)
  then show ?case using hunk_step_counts [of l "foldl hunk_step h ls"] by (auto simp: starts_with_char_def split: if_splits)
qed simp

lemma strip_cr_Cons: "c \<noteq> carriage_return \<Longrightarrow> strip_cr (c # l) = c # strip_cr l"
  by (auto simp: strip_cr_def)

lemma diff_line_strip: "is_diff_line l \<Longrightarrow> is_diff_line (strip_cr l)"
  by (auto simp: is_diff_line_def strip_cr_Cons)

lemma diff_lines_are: "\<forall>l \<in> set (diff_lines os ns). is_diff_line l"
  by (induction os ns rule: diff_lines.induct) (auto simp: is_diff_line_def)

lemma diff_old_lines:
  "length (filter (\<lambda>l. \<not> starts_with_char (CHR ''+'') (strip_cr l)) (diff_lines os ns)) = length os"
  by (induction os ns rule: diff_lines.induct) (auto simp: strip_cr_Cons starts_with_char_def)

lemma diff_lines_Nil: "diff_lines os ns = [] \<longleftrightarrow> os = [] \<and> ns = []"
  by (cases os; cases ns) auto

text \<open>A context line is stored without its marker, so a leading sign of its own is taken for one.\<close>

definition kept_context :: "string \<Rightarrow> string list" where
  "kept_context l =
     (if starts_with_char (CHR ''-'') l then []
      else if starts_with_char (CHR ''+'') l then [tl l] else [l])"

fun kept_lines :: "string list \<Rightarrow> string list \<Rightarrow> string list" where
  "kept_lines (old # os) (new # ns) = (if old = new then kept_context new else [new]) @ kept_lines os ns"
| "kept_lines os [] = []"
| "kept_lines [] ns = ns"

lemma hunk_new_lines_append: "hunk_new_lines (xs @ ys) = hunk_new_lines xs @ hunk_new_lines ys"
  by (simp add: hunk_new_lines_def)

lemma hunk_new_lines_Cons: "hunk_new_lines (x # xs) = hunk_new_lines [x] @ hunk_new_lines xs"
  by (simp add: hunk_new_lines_def)

lemma hunk_new_lines_marked:
  "hunk_new_lines [CHR ''-'' # l] = []" "hunk_new_lines [CHR ''+'' # l] = [l]"
  "hunk_new_lines [l'] = kept_context l'"
  by (simp_all add: hunk_new_lines_def starts_with_char_def kept_context_def)

lemma strip_cr_id: "carriage_return \<notin> set l \<Longrightarrow> strip_cr l = l"
  using last_in_set [of l] by (auto simp: strip_cr_def simp del: last_in_set)

lemma reread_diff:
  "\<forall>l \<in> set ns. carriage_return \<notin> set l \<Longrightarrow>
   hunk_new_lines (map (\<lambda>l. hunk_line (strip_cr l)) (diff_lines os ns)) = kept_lines os ns"
proof (induction os ns rule: diff_lines.induct)
  case (2 old os new ns)
  then show ?case
    by (simp add: strip_cr_Cons strip_cr_id hunk_line_def starts_with_char_def
        hunk_new_lines_Cons [of _ "_ # _"] hunk_new_lines_Cons [of _ "map _ _"] hunk_new_lines_marked kept_context_def)
next
  case (3 old os)
  then show ?case by (cases os) (simp_all add: strip_cr_Cons hunk_line_def starts_with_char_def
        hunk_new_lines_Cons [of _ "map _ _"] hunk_new_lines_Cons [of _ "_ # _"] hunk_new_lines_marked hunk_new_lines_def)
next
  case (4 new ns)
  then show ?case by (cases ns) (simp_all add: strip_cr_Cons strip_cr_id hunk_line_def starts_with_char_def
        hunk_new_lines_Cons [of _ "map _ _"] hunk_new_lines_Cons [of _ "_ # _"] hunk_new_lines_marked hunk_new_lines_def)
qed (simp add: hunk_new_lines_def)

section \<open>Reconstruction\<close>

text \<open>An unchanged line that begins with a sign.\<close>

definition signed_line :: "string \<Rightarrow> bool" where
  "signed_line l \<longleftrightarrow> starts_with_char (CHR ''-'') l \<or> starts_with_char (CHR ''+'') l"

definition signed_context :: "string list \<Rightarrow> string list \<Rightarrow> bool" where
  "signed_context os ns \<longleftrightarrow> list_ex (\<lambda>(old, new). old = new \<and> signed_line new) (zip os ns)"

lemma kept_lines_id: "\<not> signed_context os ns \<Longrightarrow> kept_lines os ns = ns"
  by (induction os ns rule: kept_lines.induct) (auto simp: signed_context_def signed_line_def kept_context_def)

lemma kept_context_length: "length (unlines (kept_context l)) \<le> length (unlines [l])"
  by (auto simp: kept_context_def starts_with_char_def)

lemma kept_context_shorter: "signed_line l \<Longrightarrow> length (unlines (kept_context l)) < length (unlines [l])"
  by (cases l) (auto simp: signed_line_def kept_context_def starts_with_char_def nl_def)

lemma kept_lines_length: "length (unlines (kept_lines os ns)) \<le> length (unlines ns)"
proof (induction os ns rule: kept_lines.induct)
  case (1 old os new ns)
  then show ?case using kept_context_length [of new] by (auto simp del: unlines_simps(2) simp add: unlines_simps(2) [of new])
qed auto

lemma kept_lines_shorter:
  "signed_context os ns \<Longrightarrow> length (unlines (kept_lines os ns)) < length (unlines ns)"
proof (induction os ns rule: kept_lines.induct)
  case (1 old os new ns)
  show ?case
  proof (cases "old = new \<and> signed_line new")
    case True
    then show ?thesis using kept_context_shorter [of new] kept_lines_length [of os ns] by simp
  next
    case False
    then have "signed_context os ns" using 1(2) by (auto simp: signed_context_def)
    then show ?thesis using 1(1) kept_context_length [of new] by auto
  qed
qed (simp_all add: signed_context_def)

lemma parse_hunks_diff:
  fixes old new :: string
  defines "os \<equiv> str_lines old" and "ns \<equiv> str_lines new"
  shows "apply_hunks os old (parse_hunks (compute_diff old new)) =
    Ok (if os = [] \<and> ns = [] then old
        else unlines (hunk_new_lines (map (\<lambda>l. hunk_line (strip_cr l)) (diff_lines os ns))))"
proof -
  let ?ds = "map strip_cr (diff_lines os ns)"
  let ?h0 = "\<lparr>old_start = 1, old_count = 0, new_start = 1, new_count = 0, hunk_lines = []\<rparr>"
  have "\<forall>l \<in> set os \<union> set ns. newline \<notin> set l"
    using str_lines_no_newline by (auto simp: os_def ns_def)
  then have d: "str_lines (compute_diff old new) = ?ds"
    using diff_lines_no_newline by (simp add: compute_diff_def compute_diff_lines os_def ns_def str_lines_unlines)
  have "\<forall>l \<in> set ?ds. is_diff_line l" using diff_lines_are [of os ns] by (auto intro: diff_line_strip)
  from hunk_steps [OF this, of ?h0] show ?thesis
    by (auto simp: parse_hunks_def Let_def d diff_old_lines diff_lines_Nil apply_hunk_def comp_def)
qed

lemma reconstruct_create_patch:
  assumes "carriage_return \<notin> set new"
  shows "reconstruct_from_patch old (create_patch path old new) =
    Ok (align_final_newline new (if str_lines old = [] \<and> str_lines new = [] then old
          else unlines (kept_lines (str_lines old) (str_lines new))))"
proof -
  have "\<forall>l \<in> set (str_lines new). carriage_return \<notin> set l"
    using assms str_lines_chars by blast
  then show ?thesis
    by (simp add: reconstruct_from_patch_def create_patch_def parse_hunks_diff reread_diff)
qed

lemma lines_from_unlines:
  assumes "carriage_return \<notin> set acc \<union> set s" "newline \<notin> set acc"
  shows "unlines (lines_from acc s) =
    (if s = [] \<and> acc = [] then [] else if ends_with_newline s then acc @ s else acc @ s @ nl)"
  using assms
proof (induction s arbitrary: acc)
  case Nil
  then show ?case by (simp add: ends_with_newline_def)
next
  case (Cons c s)
  show ?case
  proof (cases "c = newline")
    case True
    then show ?thesis
      using Cons.IH [of "[]"] Cons.prems by (auto simp: strip_cr_id nl_def ends_with_newline_def)
  next
    case False
    then show ?thesis
      using Cons.IH [of "acc @ [c]"] Cons.prems by (auto simp: ends_with_newline_def nl_def)
  qed
qed

lemma unlines_str_lines:
  "carriage_return \<notin> set s \<Longrightarrow>
   unlines (str_lines s) = (if s = [] \<or> ends_with_newline s then s else s @ nl)"
  using lines_from_unlines [of "[]" s] by (auto simp: str_lines_def)

lemma unlines_ends: "ls \<noteq> [] \<Longrightarrow> ends_with_newline (unlines ls)"
proof (induction ls rule: rev_induct)
  case (snoc l ls)
  then show ?case by (simp add: ends_with_newline_def nl_def)
qed simp

lemma trim_newlines_ends: "\<not> ends_with_newline s \<Longrightarrow> trim_newlines (s @ nl) = s"
  by (cases s rule: rev_cases) (auto simp: trim_newlines_def nl_def ends_with_newline_def)

lemma trim_newlines_shorter: "ends_with_newline s \<Longrightarrow> length (trim_newlines s) < length s"
proof -
  assume "ends_with_newline s"
  then obtain t where "s = t @ [newline]" by (cases s rule: rev_cases) (auto simp: ends_with_newline_def)
  then show ?thesis using length_dropWhile_le [of _ "rev t"] by (simp add: trim_newlines_def le_imp_less_Suc)
qed

lemma align_kept:
  assumes cr: "carriage_return \<notin> set new"
  shows "align_final_newline new (unlines (kept_lines os (str_lines new))) = new \<longleftrightarrow>
    \<not> signed_context os (str_lines new)"
proof
  assume "\<not> signed_context os (str_lines new)"
  then show "align_final_newline new (unlines (kept_lines os (str_lines new))) = new"
    using unlines_str_lines [OF cr] trim_newlines_ends [of new]
    by (auto simp: kept_lines_id align_final_newline_def trim_newlines_def)
next
  let ?ks = "kept_lines os (str_lines new)"
  assume eq: "align_final_newline new (unlines ?ks) = new"
  show "\<not> signed_context os (str_lines new)"
  proof
    assume "signed_context os (str_lines new)"
    from kept_lines_shorter [OF this]
    have less: "length (unlines ?ks) < length (unlines (str_lines new))" .
    show False
    proof (cases "?ks = []")
      case True
      then have "new = []" using eq by (auto simp: align_final_newline_def trim_newlines_def split: if_splits)
      then show False using less by (simp add: str_lines_def)
    next
      case False
      from unlines_ends [OF this] trim_newlines_shorter [OF unlines_ends [OF this]] eq less
      show False
        using unlines_str_lines [OF cr]
        by (auto simp: align_final_newline_def nl_def split: if_splits)
    qed
  qed
qed

lemma reconstruct_exact_iff:
  assumes "carriage_return \<notin> set new"
  shows "reconstruct_from_patch old (create_patch path old new) = Ok new \<longleftrightarrow>
    \<not> signed_context (str_lines old) (str_lines new)"
proof (cases "str_lines old = [] \<and> str_lines new = []")
  case True
  then have "unlines (str_lines new) = []" by simp
  then have "new = []" using unlines_str_lines [OF assms] by (auto split: if_splits simp: nl_def)
  moreover have "old = []" using True lines_from_Nil_iff [of "[]" old] by (simp add: str_lines_def)
  ultimately show ?thesis using True
    by (simp add: reconstruct_create_patch assms signed_context_def align_final_newline_def trim_newlines_def ends_with_newline_def)
next
  case False
  then have c: "(str_lines old = [] \<and> str_lines new = []) = False" by simp
  show ?thesis by (simp only: reconstruct_create_patch [OF assms] c if_False outcome.inject align_kept [OF assms])
qed

section \<open>The preview is the diff\<close>

lemma unified_body:
  "concat (map (\<lambda>(old_line, new_line).
        if old_line = new_line then '' '' @ old_line @ nl
        else ''-'' @ old_line @ nl @ ''+'' @ new_line @ nl) (zip os ns)) @
   (if length os > length ns then concat (map (\<lambda>l. ''-'' @ l @ nl) (drop (length ns) os))
    else if length ns > length os then concat (map (\<lambda>l. ''+'' @ l @ nl) (drop (length os) ns))
    else []) = compute_diff_loop os ns"
proof (induction os ns rule: compute_diff_loop.induct)
  case (2 old os new ns)
  then show ?case
    by (cases "old = new"; cases "length os" "length ns" rule: linorder_cases; simp)
next
  case (3 old os)
  then show ?case by (cases os) simp_all
next
  case (4 new ns)
  then show ?case by (cases ns) simp_all
qed simp_all

section \<open>Effects on the file system\<close>

lemma PatchEngine_apply_Ok:
  assumes "PatchEngine_apply patch False fs = (Ok msg, fs')"
  shows "fs' = fs\<lparr>contents := (contents fs)(links fs (patch_path patch) \<mapsto> new_content patch)\<rparr>"
  using assms
  by (auto simp: PatchEngine_apply_def split: sum.splits outcome.splits if_splits prod.splits dest: fs_write_Inr)

lemma PatchEngine_apply_frame:
  assumes "PatchEngine_apply patch False fs = (r, fs')"
  shows "\<exists>c. fs' = fs\<lparr>contents := (contents fs)(links fs (patch_path patch) := c)\<rparr>"
proof -
  have same: "\<exists>c. fs = fs\<lparr>contents := (contents fs)(links fs (patch_path patch) := c)\<rparr>"
    by (rule exI [of _ "contents fs (links fs (patch_path patch))"]) simp
  show ?thesis
    using assms same
    by (auto simp: PatchEngine_apply_def split: sum.splits outcome.splits if_splits prod.splits dest: fs_write_frame)
qed

lemma validate_create_patch: "validate_patch (create_patch path old new) = Ok ()"
proof -
  have "\<forall>l \<in> set (str_lines old) \<union> set (str_lines new). newline \<notin> set l"
    using str_lines_no_newline by auto
  then have d: "str_lines (compute_diff old new) = map strip_cr (diff_lines (str_lines old) (str_lines new))"
    using diff_lines_no_newline by (simp add: compute_diff_def compute_diff_lines str_lines_unlines)
  let ?ds = "map strip_cr (diff_lines (str_lines old) (str_lines new))"
  have ds: "\<forall>l \<in> set ?ds. is_diff_line l"
    using diff_lines_are [of "str_lines old" "str_lines new"] by (auto intro: diff_line_strip)
  let ?h0 = "\<lparr>old_start = 1, old_count = 0, new_start = 1, new_count = 0, hunk_lines = []\<rparr>"
  have "hunk_lines (foldl hunk_step ?h0 ?ds) \<noteq> [] \<Longrightarrow> ?ds \<noteq> []" using hunk_steps [OF ds, of ?h0] by auto
  then show ?thesis
    using hunk_steps_nonempty [OF ds, of ?h0]
    by (auto simp: validate_patch_def create_patch_def parse_hunks_def Let_def d)
qed

section \<open>Properties\<close>


text \<open>The witness edits the second line of a list whose first item starts with a dash: the edit is refused.\<close>

definition dash_list :: "string \<Rightarrow> string" where
  "dash_list item = ''- a'' @ nl @ item @ nl"


text \<open>The preview shown for review is the diff that apply uses: the body of the unified diff, written
  as a separate loop, equals the computed line diff.\<close>

theorem preview_is_computed_diff:
  "generate_unified_diff path old new =
     ''--- a/'' @ path @ nl @ ''+++ b/'' @ path @ nl @
     ''@@ -1,'' @ show_nat (length (str_lines old)) @ '' +1,'' @ show_nat (length (str_lines new)) @ '' @@'' @ nl @
     compute_diff old new"
  by (simp only: generate_unified_diff_def Let_def unified_body compute_diff_def append_assoc)

end
