(* ===== verification/Change_Engine.thy ===== *)
theory Change_Engine
  imports Patch_Engine
begin

text \<open>
  The workspace-bound mutation engine (\<^verbatim>\<open>change-engine/src/coding/change_engine.rs\<close>): path
  resolution with its symlink check, read-only preparation, application guarded by the
  preparation-time snapshot, post-apply verification and rollback of one change.

  The lemmas show that a prepared edit replaces exactly one matched piece of the file, that
  apply touches no file unless it still holds the snapshot, that it writes exactly the prepared
  content at one location inside the workspace, and that rollback undoes it.
\<close>

section \<open>Path resolution\<close>

definition quoted :: "string \<Rightarrow> string" where
  "quoted p = [CHR 0x27] @ p @ [CHR 0x27]"

text \<open>
  The loop that walks to the nearest existing ancestor, collecting the missing names. When a
  path has no parent the loop keeps its state and never ends.
\<close>

definition clean_component :: "component \<Rightarrow> bool" where
  "clean_component c \<longleftrightarrow> c = ParentDir \<or>
     (\<exists>s. c = Normal s \<and> s \<noteq> '''' \<and> s \<noteq> ''.'' \<and> s \<noteq> ''..'' \<and> CHR ''/'' \<notin> set s)"

lemma clean_component_simps [simp]:
  "clean_component ParentDir" "\<not> clean_component RootDir" "\<not> clean_component CurDir"
  "clean_component (Normal s) \<longleftrightarrow> s \<noteq> '''' \<and> s \<noteq> ''.'' \<and> s \<noteq> ''..'' \<and> CHR ''/'' \<notin> set s"
  by (simp_all add: clean_component_def)

lemma clean_text:
  "clean_component c \<Longrightarrow> segment_component (component_text c) = [c] \<and> component_text c \<noteq> [] \<and>
     component_text c \<noteq> ''.'' \<and> CHR ''/'' \<notin> set (component_text c)"
  by (cases c) simp_all

lemma segment_components_clean:
  "\<forall>s \<in> set segs. CHR ''/'' \<notin> set s \<Longrightarrow> \<forall>c \<in> set (concat (map segment_component segs)). clean_component c"
  by (induction segs) auto

lemma path_components_form:
  "\<exists>front tail. path_components p = front @ tail \<and> front \<in> {[], [RootDir], [CurDir]} \<and>
     (\<forall>c \<in> set tail. clean_component c)"
proof -
  have "\<forall>s \<in> set (split_char (CHR ''/'') p). CHR ''/'' \<notin> set s" using split_char_pieces by blast
  from segment_components_clean [OF this] show ?thesis
    unfolding path_components_def Let_def
    by (intro exI conjI) (rule refl, auto)
qed

lemma clean_texts:
  assumes "\<forall>c \<in> set cs. clean_component c"
  shows "concat (map segment_component (map component_text cs)) = cs"
    and "\<forall>s \<in> set (map component_text cs). s \<noteq> [] \<and> s \<noteq> ''.'' \<and> CHR ''/'' \<notin> set s"
proof -
  show "concat (map segment_component (map component_text cs)) = cs"
    using assms by (induction cs) (simp_all add: clean_text del: segment_component.simps)
  show "\<forall>s \<in> set (map component_text cs). s \<noteq> [] \<and> s \<noteq> ''.'' \<and> CHR ''/'' \<notin> set s"
    using assms by (simp add: clean_text)
qed

lemma join_texts_front:
  assumes "ts \<noteq> []" "\<forall>s \<in> set ts. s \<noteq> [] \<and> CHR ''/'' \<notin> set s"
  shows "\<not> absolute_path (join ''/'' ts)"
proof -
  obtain t r where t: "ts = t # r" "t \<noteq> []" "CHR ''/'' \<notin> set t" using assms by (cases ts) auto
  then have "hd t \<noteq> CHR ''/''" using hd_in_set [of t] by metis
  moreover have "hd (join ''/'' ts) = hd t" using t(1,2) by (cases r) simp_all
  ultimately show ?thesis by (simp add: absolute_path_def)
qed

lemma render_components:
  assumes "\<forall>c \<in> set tail. clean_component c" "front \<in> {[], [RootDir], [CurDir]}"
  shows "path_components (path_render (front @ tail)) = front @ tail"
proof -
  let ?ts = "map component_text tail"
  note clean = clean_texts [OF assms(1)]
  have split: "split_char (CHR ''/'') (join ''/'' (fs @ ?ts)) = fs @ ?ts"
    if "fs @ ?ts \<noteq> []" "\<forall>f \<in> set fs. CHR ''/'' \<notin> set f" for fs
    using that clean(2) by (intro split_char_join) auto
  consider "front = []" "tail = []" | "front = [RootDir]" "tail = []" | "front = []" "tail \<noteq> []"
    | "front = [RootDir]" "tail \<noteq> []" | "front = [CurDir]"
    using assms(2) by auto
  then show ?thesis
  proof cases
    case 1
    then show ?thesis by (simp add: path_render_def path_components_def absolute_path_def split_char_def)
  next
    case 2
    then show ?thesis by (simp add: path_render_def path_components_def absolute_path_def split_char_def)
  next
    case 3
    then have ts: "?ts \<noteq> []" by simp
    have r: "path_render tail = join ''/'' ?ts"
      using 3 assms(1) by (cases tail) (auto simp: path_render_def)
    have "hd ?ts \<noteq> ''.''" using clean(2) ts hd_in_set [OF ts] by metis
    then show ?thesis
      using join_texts_front [OF ts] clean split [of "[]"] ts
      by (simp add: r path_components_def Let_def 3 del: segment_component.simps)
  next
    case 4
    then have ts: "?ts \<noteq> []" by simp
    have r: "path_render (RootDir # tail) = join ''/'' ([''''] @ ?ts)" using 4 by (simp add: path_render_def)
    have "absolute_path (join ''/'' ([''''] @ ?ts))" using ts by (cases ?ts) (simp_all add: absolute_path_def)
    then show ?thesis
      using split [of "['''']"] clean(1) by (simp add: r path_components_def Let_def 4)
  next
    case 5
    have r: "path_render (CurDir # tail) = join ''/'' ([''.''] @ ?ts)" by (simp add: path_render_def)
    have "\<not> absolute_path (join ''/'' ([''.''] @ ?ts))" by (cases ?ts) (simp_all add: absolute_path_def)
    then show ?thesis
      using split [of "[''.'']"] clean(1) by (simp add: r path_components_def Let_def 5)
  qed
qed

lemma components_parent:
  assumes "path_parent p = Some d"
  shows "path_components d = butlast (path_components p)"
proof -
  obtain front tail where ft: "path_components p = front @ tail" "front \<in> {[], [RootDir], [CurDir]}"
    "\<forall>c \<in> set tail. clean_component c" using path_components_form by blast
  have d: "d = path_render (butlast (path_components p))" using assms by (auto simp: path_parent_def Let_def split: if_splits)
  show ?thesis
  proof (cases "tail = []")
    case True
    then show ?thesis using ft(2) render_components [of "[]" "[]"] by (auto simp: d ft(1))
  next
    case False
    then have "butlast (front @ tail) = front @ butlast tail" by (simp add: butlast_append)
    then show ?thesis
      using render_components [of "butlast tail" front] ft by (auto simp: d dest: in_set_butlastD)
  qed
qed

lemma parent_shorter: "path_parent p = Some d \<Longrightarrow> length (path_components d) < length (path_components p)"
proof -
  assume a: "path_parent p = Some d"
  then have "path_components p \<noteq> []" by (auto simp: path_parent_def Let_def)
  then show ?thesis by (simp add: components_parent [OF a])
qed

function nearest_existing :: "FileSystem \<Rightarrow> string \<Rightarrow> string list \<Rightarrow> (string \<times> string list) outcome" where
  "nearest_existing fs existing tail =
     (if fs_exists fs existing then Ok (existing, tail)
      else case path_parent existing of
        None \<Rightarrow> Diverges
      | Some d \<Rightarrow>
          nearest_existing fs d (case path_file_name existing of Some name \<Rightarrow> tail @ [name] | None \<Rightarrow> tail))"
  by pat_completeness auto
termination
  by (relation "measure (\<lambda>(fs, p, tail). length (path_components p))") (auto dest: parent_shorter)

declare nearest_existing.simps [simp del]

definition canonical_candidate :: "FileSystem \<Rightarrow> string \<Rightarrow> string outcome" where
  "canonical_candidate fs candidate =
     (case fs_canonicalize fs candidate of
        Some c \<Rightarrow> Ok c
      | None \<Rightarrow> outcome_bind (nearest_existing fs candidate []) (\<lambda>(existing, tail).
          case fs_canonicalize fs existing of
            Some base \<Rightarrow> Ok (foldl path_join base (rev tail))
          | None \<Rightarrow> Ok candidate))"

definition canonical_workspace :: "FileSystem \<Rightarrow> string \<Rightarrow> string" where
  "canonical_workspace fs root = (case fs_canonicalize fs root of Some r \<Rightarrow> r | None \<Rightarrow> root)"

definition ensure_symlink_safe :: "FileSystem \<Rightarrow> string \<Rightarrow> string \<Rightarrow> unit outcome" where
  "ensure_symlink_safe fs root candidate =
     outcome_bind (canonical_candidate fs candidate) (\<lambda>c.
       if \<not> path_starts_with c (canonical_workspace fs root)
       then Err (Permission (''symlink escape denied: '' @ quoted candidate @ '' resolves outside the workspace root''))
       else Ok ())"

definition resolve_path :: "FileSystem \<Rightarrow> string \<Rightarrow> string \<Rightarrow> string outcome" where
  "resolve_path fs root argument =
     (let trimmed = trim argument in
      if trimmed = [] then Err (Permission ''empty path'')
      else
        let candidate = (if absolute_path trimmed then trimmed else path_join root trimmed) in
        if ParentDir \<in> set (path_components candidate)
        then Err (Permission (''path traversal denied: '' @ quoted trimmed))
        else if \<not> path_starts_with candidate root
        then Err (Permission (''outside workspace root: '' @ quoted trimmed))
        else outcome_bind (ensure_symlink_safe fs root candidate) (\<lambda>_. Ok candidate))"

section \<open>The engine\<close>

record PreparedChange =
  target_path :: string
  created :: bool
  unplanned :: bool
  change_preview :: string
  backup :: string
  old_text :: string
  new_text :: string
  full_new :: string

record ApplyVerification =
  target_exists :: bool
  readable :: bool
  content_matches_intent :: bool

definition ApplyVerification_verified :: "ApplyVerification \<Rightarrow> bool" where
  "ApplyVerification_verified v \<longleftrightarrow> target_exists v \<and> readable v \<and> content_matches_intent v"

record ChangeEngine =
  workspace_root :: string
  planned_files :: "string list"
  strict :: bool

fun ok_values :: "'a outcome list \<Rightarrow> 'a list outcome" where
  "ok_values [] = Ok []"
| "ok_values (Ok x # rs) = outcome_bind (ok_values rs) (\<lambda>xs. Ok (x # xs))"
| "ok_values (Err _ # rs) = ok_values rs"
| "ok_values (Panics # rs) = Panics"
| "ok_values (Diverges # rs) = Diverges"

definition ChangeEngine_new :: "FileSystem \<Rightarrow> string \<Rightarrow> string list \<Rightarrow> bool \<Rightarrow> ChangeEngine outcome" where
  "ChangeEngine_new fs root planned strict_mode =
     outcome_bind (ok_values (map (resolve_path fs root) planned))
       (\<lambda>files. Ok \<lparr>workspace_root = root, planned_files = files, strict = strict_mode\<rparr>)"

definition ChangeEngine_resolve :: "FileSystem \<Rightarrow> ChangeEngine \<Rightarrow> string \<Rightarrow> string outcome" where
  "ChangeEngine_resolve fs eng argument =
     (case resolve_path fs (workspace_root eng) argument of
        Err e \<Rightarrow> Err (Permission (''change engine path boundary: '' @ error_text e))
      | r \<Rightarrow> r)"

text \<open>
  \<^verbatim>\<open>content.matches(old).count()\<close>: matches are found from the left and do not overlap. An empty
  pattern is rejected before it gets here.
\<close>

definition starts_with_str :: "string \<Rightarrow> string \<Rightarrow> bool" where
  "starts_with_str pat s \<longleftrightarrow> take (length pat) s = pat"

function matches_count :: "string \<Rightarrow> string \<Rightarrow> nat" where
  "matches_count pat s =
     (if pat = [] \<or> s = [] then 0
      else if starts_with_str pat s then Suc (matches_count pat (drop (length pat) s))
      else matches_count pat (tl s))"
  by pat_completeness auto
termination
  by (relation "measure (\<lambda>(pat, s). length s)") (auto simp: neq_Nil_conv)

declare matches_count.simps [simp del]

text \<open>\<^verbatim>\<open>content.replacen(old, new, 1)\<close>.\<close>

fun replace_first :: "string \<Rightarrow> string \<Rightarrow> string \<Rightarrow> string" where
  "replace_first pat new [] = (if pat = [] then new else [])"
| "replace_first pat new (c # s) =
     (if starts_with_str pat (c # s) then new @ drop (length pat) (c # s) else c # replace_first pat new s)"

definition prepare_existing :: "FileSystem \<Rightarrow> string \<Rightarrow> bool \<Rightarrow> string \<Rightarrow> string \<Rightarrow> PreparedChange outcome" where
  "prepare_existing fs apath unpl old new =
     (case fs_read_to_string fs apath of
        Inl e \<Rightarrow> Err (Patch (''Cannot read '' @ apath @ '' for change proposal: '' @ io_text e))
      | Inr content \<Rightarrow>
          if old = [] then
            Err (Permission (''blind overwrite denied: '' @ quoted apath @ '' already exists '' @ em_dash @
              '' provide the exact `old` text to replace, not an empty match''))
          else
            let occurrences = matches_count old content in
            if occurrences = 0 then
              Err (Patch (''stale content: the provided `old` text does not occur in '' @ quoted apath))
            else if occurrences > 1 then
              Err (Patch (''ambiguous change denied: the provided `old` text occurs '' @ show_nat occurrences @
                '' times in '' @ quoted apath @ '' '' @ em_dash @ '' supply more surrounding context for a unique match''))
            else
              let replaced = replace_first old new content in
              outcome_bind (ChangePlan_propose_between apath content replaced) (\<lambda>plan.
                Ok \<lparr>target_path = apath, created = False, unplanned = unpl, change_preview = ChangePlan_preview plan,
                    backup = content, old_text = old, new_text = new, full_new = replaced\<rparr>))"

definition prepare_created :: "string \<Rightarrow> bool \<Rightarrow> string \<Rightarrow> string \<Rightarrow> PreparedChange outcome" where
  "prepare_created apath unpl old new =
     (if trim old \<noteq> [] then
        Err (Patch (''cannot create '' @ quoted apath @ '': the file does not exist '' @ em_dash @
          '' to create it pass old='' @ [CHR 0x22, CHR 0x22] @ '' with the full content as new''))
      else outcome_bind (ChangePlan_propose_between apath [] new) (\<lambda>plan.
        Ok \<lparr>target_path = apath, created = True, unplanned = unpl, change_preview = ChangePlan_preview plan,
            backup = [], old_text = [], new_text = new, full_new = new\<rparr>))"

definition ChangeEngine_prepare :: "FileSystem \<Rightarrow> ChangeEngine \<Rightarrow> string \<Rightarrow> string \<Rightarrow> string \<Rightarrow> PreparedChange outcome" where
  "ChangeEngine_prepare fs eng path old new =
     outcome_bind (ChangeEngine_resolve fs eng path) (\<lambda>apath.
       let unpl = (\<not> list_ex (path_eq apath) (planned_files eng) \<and> planned_files eng \<noteq> []) in
       if strict eng \<and> unpl then
         Err (Permission (''plan adherence: '' @ quoted apath @
           '' is not among the plan'' @ [CHR 0x27] @ ''s affected files and strict plan adherence is enabled''))
       else if fs_exists fs apath then prepare_existing fs apath unpl old new
       else prepare_created apath unpl old new)"

section \<open>Applying, verifying and rolling back\<close>

definition create_file :: "ChangeEngine \<Rightarrow> PreparedChange \<Rightarrow> FileSystem \<Rightarrow> string outcome \<times> FileSystem" where
  "create_file eng c fs =
     (case ensure_symlink_safe fs (workspace_root eng) (target_path c) of
        Err e \<Rightarrow> (Err e, fs)
      | Panics \<Rightarrow> (Panics, fs)
      | Diverges \<Rightarrow> (Diverges, fs)
      | Ok _ \<Rightarrow>
          (case (case path_parent (target_path c) of
                   Some d \<Rightarrow> if d \<noteq> [] then fs_create_dir_all d fs else (Inr (), fs)
                 | None \<Rightarrow> (Inr (), fs)) of
             (Inl e, fs1) \<Rightarrow> (Err (Patch (''Cannot create parent dirs for '' @ target_path c @ '': '' @ io_text e)), fs1)
           | (Inr _, fs1) \<Rightarrow>
               (case fs_write (target_path c) (full_new c) fs1 of
                  (Inl e, fs2) \<Rightarrow> (Err (Patch (''Failed to write file: '' @ io_text e)), fs2)
                | (Inr _, fs2) \<Rightarrow> (Ok (''Patch applied to '' @ target_path c), fs2))))"

text \<open>The content apply compares with the snapshot, read under the existence rules of the change.\<close>

definition current_content :: "FileSystem \<Rightarrow> PreparedChange \<Rightarrow> string outcome" where
  "current_content fs c =
     (if created c then
        (if fs_exists fs (target_path c) then
           Err (Patch (''stale state: '' @ quoted (target_path c) @
             '' was created by someone else since the proposal '' @ em_dash @ '' refusing to overwrite it''))
         else Ok [])
      else case fs_read_to_string fs (target_path c) of
        Inl e \<Rightarrow> Err (Patch (''Cannot read '' @ target_path c @ '' for change apply: '' @ io_text e))
      | Inr s \<Rightarrow> Ok s)"

definition ChangeEngine_apply :: "ChangeEngine \<Rightarrow> PreparedChange \<Rightarrow> FileSystem \<Rightarrow> string outcome \<times> FileSystem" where
  "ChangeEngine_apply eng c fs =
     (case outcome_bind (ensure_symlink_safe fs (workspace_root eng) (target_path c)) (\<lambda>_. current_content fs c) of
        Err e \<Rightarrow> (Err e, fs)
      | Panics \<Rightarrow> (Panics, fs)
      | Diverges \<Rightarrow> (Diverges, fs)
      | Ok current \<Rightarrow>
          if current \<noteq> backup c then
            (Err (Patch (''stale state: '' @ quoted (target_path c) @ '' changed since the proposal '' @ em_dash @
               '' refusing to apply over unknown content'')), fs)
          else if created c then create_file eng c fs
          else (case ChangePlan_propose_between (target_path c) (backup c) (full_new c) of
              Ok plan \<Rightarrow> (case ChangePlan_apply plan fs of ((r, _), fs') \<Rightarrow> (r, fs'))
            | Err e \<Rightarrow> (Err e, fs)
            | Panics \<Rightarrow> (Panics, fs)
            | Diverges \<Rightarrow> (Diverges, fs)))"

definition rollback_change :: "ChangeEngine \<Rightarrow> PreparedChange \<Rightarrow> FileSystem \<Rightarrow> unit outcome \<times> FileSystem" where
  "rollback_change eng c fs =
     (case ensure_symlink_safe fs (workspace_root eng) (target_path c) of
        Err e \<Rightarrow> (Err e, fs)
      | Panics \<Rightarrow> (Panics, fs)
      | Diverges \<Rightarrow> (Diverges, fs)
      | Ok _ \<Rightarrow>
          if created c then
            (case fs_remove_file (target_path c) fs of
               (Inr _, fs') \<Rightarrow> (Ok (), fs')
             | (Inl e, fs') \<Rightarrow>
                 if io_kind e = NotFound then (Ok (), fs')
                 else (Err (Patch (''rollback failed for created file '' @ target_path c @ '': '' @ io_text e)), fs'))
          else
            (case write_atomic (target_path c) (backup c) fs of
               (Inr _, fs') \<Rightarrow> (Ok (), fs')
             | (Inl e, fs') \<Rightarrow> (Err (Patch (''rollback failed for '' @ target_path c @ '': '' @ io_text e)), fs')))"

definition verify_applied :: "PreparedChange \<Rightarrow> FileSystem \<Rightarrow> ApplyVerification" where
  "verify_applied c fs =
     (if \<not> fs_exists fs (target_path c) then
        \<lparr>target_exists = False, readable = False, content_matches_intent = False\<rparr>
      else case fs_read_to_string fs (target_path c) of
        Inr content \<Rightarrow> \<lparr>target_exists = True, readable = True, content_matches_intent = (content = full_new c)\<rparr>
      | Inl _ \<Rightarrow> \<lparr>target_exists = True, readable = False, content_matches_intent = False\<rparr>)"

section \<open>Replacement\<close>

lemma starts_with_str_split: "starts_with_str pat s \<longleftrightarrow> (\<exists>post. s = pat @ post)"
  by (metis append_eq_conv_conj append_take_drop_id starts_with_str_def)

definition occurs_at :: "string \<Rightarrow> string \<Rightarrow> nat \<Rightarrow> bool" where
  "occurs_at pat s i \<longleftrightarrow> i \<le> length s \<and> starts_with_str pat (drop i s)"

lemma replace_first_split:
  assumes "matches_count pat s \<noteq> 0"
  shows "\<exists>pre post. s = pre @ pat @ post \<and> replace_first pat new s = pre @ new @ post \<and>
    (\<forall>i < length pre. \<not> occurs_at pat s i)"
  using assms
proof (induction pat s rule: matches_count.induct)
  case (1 pat s)
  from 1(3) have ne: "pat \<noteq> []" "s \<noteq> []" by (auto simp: matches_count.simps)
  show ?case
  proof (cases "starts_with_str pat s")
    case True
    then obtain post where p: "s = pat @ post" by (auto simp: starts_with_str_split)
    have "replace_first pat new s = new @ drop (length pat) s" using True ne by (cases s) auto
    then have "replace_first pat new s = new @ post" using p by simp
    then show ?thesis using p by (intro exI [of _ "[]"] exI [of _ post]) simp
  next
    case False
    then have "matches_count pat (tl s) \<noteq> 0" using 1(3) ne by (simp add: matches_count.simps [of pat s])
    from 1(2) [OF _ False this] ne obtain pre post where
      t: "tl s = pre @ pat @ post" "replace_first pat new (tl s) = pre @ new @ post"
         "\<forall>i < length pre. \<not> occurs_at pat (tl s) i" by auto
    obtain c r where s: "s = c # r" using ne(2) by (cases s) auto
    have "\<not> occurs_at pat s i" if "i < length (c # pre)" for i
      using that t(3) False by (cases i) (auto simp: s occurs_at_def)
    then show ?thesis
      using t(1,2) False by (intro exI [of _ "c # pre"] exI [of _ post]) (simp add: s)
  qed
qed

lemma prepare_existing_Ok:
  assumes "prepare_existing fs p u old new = Ok c"
  shows "fs_read_to_string fs p = Inr (backup c) \<and> old \<noteq> [] \<and> matches_count old (backup c) = 1 \<and>
    full_new c = replace_first old new (backup c) \<and> target_path c = p \<and> \<not> created c"
  using assms
  by (auto simp: prepare_existing_def ChangePlan_propose_between_def Let_def split: sum.splits if_splits)

lemma prepare_created_Ok:
  "prepare_created p u old new = Ok c \<Longrightarrow> created c \<and> backup c = [] \<and> full_new c = new \<and> target_path c = p"
  by (auto simp: prepare_created_def ChangePlan_propose_between_def split: if_splits)

lemma prepare_Ok:
  assumes "ChangeEngine_prepare fs eng path old new = Ok c"
  shows "ChangeEngine_resolve fs eng path = Ok (target_path c)"
    and "created c \<longleftrightarrow> \<not> fs_exists fs (target_path c)"
    and "\<not> created c \<Longrightarrow> fs_read_to_string fs (target_path c) = Inr (backup c) \<and> old \<noteq> [] \<and>
      matches_count old (backup c) = 1 \<and> full_new c = replace_first old new (backup c)"
    and "created c \<Longrightarrow> backup c = [] \<and> full_new c = new"
proof -
  obtain p where p: "ChangeEngine_resolve fs eng path = Ok p"
    using assms by (auto simp: ChangeEngine_prepare_def outcome_bind_Ok)
  have e: "if fs_exists fs p then \<exists>u. prepare_existing fs p u old new = Ok c else \<exists>u. prepare_created p u old new = Ok c"
    using assms by (auto simp: ChangeEngine_prepare_def p Let_def split: if_splits)
  then show "ChangeEngine_resolve fs eng path = Ok (target_path c)"
    using p by (auto dest: prepare_existing_Ok prepare_created_Ok split: if_splits)
  from e show "created c \<longleftrightarrow> \<not> fs_exists fs (target_path c)"
    by (auto dest: prepare_existing_Ok prepare_created_Ok split: if_splits)
  from e show "\<not> created c \<Longrightarrow> fs_read_to_string fs (target_path c) = Inr (backup c) \<and> old \<noteq> [] \<and>
      matches_count old (backup c) = 1 \<and> full_new c = replace_first old new (backup c)"
    by (auto dest: prepare_existing_Ok prepare_created_Ok split: if_splits)
  from e show "created c \<Longrightarrow> backup c = [] \<and> full_new c = new"
    by (auto dest: prepare_existing_Ok prepare_created_Ok split: if_splits)
qed

section \<open>Effects of apply\<close>

text \<open>What no operation of the engine's apply changes.\<close>

definition same_host :: "FileSystem \<Rightarrow> FileSystem \<Rightarrow> bool" where
  "same_host fs fs' \<longleftrightarrow> links fs' = links fs \<and> read_faults fs' = read_faults fs \<and>
     write_faults fs' = write_faults fs \<and> atomic_faults fs' = atomic_faults fs \<and>
     remove_faults fs' = remove_faults fs \<and> mkdir_faults fs' = mkdir_faults fs"

lemma same_host_refl [simp]: "same_host fs fs"
  by (simp add: same_host_def)

lemma same_host_updates [simp]:
  "same_host fs (fs'\<lparr>contents := x\<rparr>) = same_host fs fs'" "same_host fs (fs'\<lparr>directories := d\<rparr>) = same_host fs fs'"
  by (simp_all add: same_host_def)

lemma same_host_trans: "same_host a b \<Longrightarrow> same_host b c \<Longrightarrow> same_host a c"
  by (simp add: same_host_def)

lemma same_host_entry: "same_host fs fs' \<Longrightarrow> entry_location fs' = entry_location fs"
  by (simp add: fun_eq_iff entry_location_def same_host_def split: option.split)

lemma ChangePlan_apply_fresh:
  assumes "ChangePlan_propose_between path old new = Ok plan" "ChangePlan_apply plan fs = ((r, plan'), fs')"
  shows "PatchEngine_apply (create_patch path old new) False fs = (r, fs')"
  using assms validate_create_patch [of path old new]
  by (auto simp: ChangePlan_propose_between_def ChangePlan_apply_def split: prod.splits outcome.splits)

text \<open>Once both guards hold, an edit of an existing file is the patch step.\<close>

lemma apply_reaches_patch:
  assumes "ensure_symlink_safe fs (workspace_root eng) (target_path c) = Ok ()"
    and "current_content fs c = Ok (backup c)" "\<not> created c"
  shows "ChangeEngine_apply eng c fs = PatchEngine_apply (create_patch (target_path c) (backup c) (full_new c)) False fs"
proof -
  obtain plan where p: "ChangePlan_propose_between (target_path c) (backup c) (full_new c) = Ok plan"
    by (simp add: ChangePlan_propose_between_def)
  obtain r' plan' fs'' where a: "ChangePlan_apply plan fs = ((r', plan'), fs'')" by (metis surj_pair)
  show ?thesis using ChangePlan_apply_fresh [OF p a] assms by (simp add: ChangeEngine_apply_def p a)
qed

text \<open>Apply does nothing before the two guards hold; then it creates or patches.\<close>

lemma apply_cases:
  assumes "ChangeEngine_apply eng c fs = (r, fs')"
  obtains (refused) "fs' = fs" "\<And>m. r \<noteq> Ok m"
  | (create) "ensure_symlink_safe fs (workspace_root eng) (target_path c) = Ok ()"
      "current_content fs c = Ok (backup c)" "created c" "create_file eng c fs = (r, fs')"
  | (patch) "ensure_symlink_safe fs (workspace_root eng) (target_path c) = Ok ()"
      "current_content fs c = Ok (backup c)" "\<not> created c"
      "PatchEngine_apply (create_patch (target_path c) (backup c) (full_new c)) False fs = (r, fs')"
proof (cases "ensure_symlink_safe fs (workspace_root eng) (target_path c) = Ok () \<and>
    current_content fs c = Ok (backup c)")
  case True
  show thesis
  proof (cases "created c")
    case c: True
    then show thesis using True assms create by (simp add: ChangeEngine_apply_def)
  next
    case False
    have "PatchEngine_apply (create_patch (target_path c) (backup c) (full_new c)) False fs = (r, fs')"
      using apply_reaches_patch [of fs eng c] True False assms by simp
    with True False show thesis using patch by blast
  qed
next
  case False
  have "fs' = fs \<and> (\<forall>m. r \<noteq> Ok m)"
    using assms False
    by (auto simp: ChangeEngine_apply_def outcome_bind_Ok split: outcome.splits if_splits)
  then show thesis using refused by blast
qed

lemma create_file_cases:
  assumes "create_file eng c fs = (r, fs')"
  obtains (early) "contents fs' = contents fs" "same_host fs fs'" "\<And>m. r \<noteq> Ok m"
  | (written) ds w where "fs_write (target_path c) (full_new c) (fs\<lparr>directories := ds\<rparr>) = (w, fs')"
      "r = (case w of Inl e \<Rightarrow> Err (Patch (''Failed to write file: '' @ io_text e))
                    | Inr _ \<Rightarrow> Ok (''Patch applied to '' @ target_path c))"
proof -
  obtain s where s: "ensure_symlink_safe fs (workspace_root eng) (target_path c) = s" by blast
  obtain d fs1 where d: "(case path_parent (target_path c) of
      Some d \<Rightarrow> if d \<noteq> [] then fs_create_dir_all d fs else (Inr (), fs) | None \<Rightarrow> (Inr (), fs)) = (d, fs1)"
    by (rule prod.exhaust)
  obtain ds where fs1: "fs1 = fs\<lparr>directories := ds\<rparr>"
  proof -
    have "\<exists>ds. fs = fs\<lparr>directories := ds\<rparr>" by (rule exI [of _ "directories fs"]) simp
    with d fs_create_dir_all_frame have "\<exists>ds. fs1 = fs\<lparr>directories := ds\<rparr>"
      by (auto split: option.splits if_splits)
    with that show thesis by blast
  qed
  show thesis
  proof (cases s)
    case (Ok u)
    show thesis
    proof (cases d)
      case (Inl e)
      then have "fs' = fs1 \<and> (\<forall>m. r \<noteq> Ok m)" using assms s Ok d by (auto simp: create_file_def)
      then show thesis using early by (simp add: fs1)
    next
      case (Inr v)
      obtain w fs2 where w: "fs_write (target_path c) (full_new c) fs1 = (w, fs2)" by (rule prod.exhaust)
      then have "fs' = fs2 \<and> r = (case w of Inl e \<Rightarrow> Err (Patch (''Failed to write file: '' @ io_text e))
                    | Inr _ \<Rightarrow> Ok (''Patch applied to '' @ target_path c))"
        using assms s Ok d Inr by (cases w) (auto simp: create_file_def)
      then show thesis using written w fs1 by blast
    qed
  qed (use assms s early in \<open>auto simp: create_file_def\<close>)
qed

lemma apply_frame:
  assumes "ChangeEngine_apply eng c fs = (r, fs')"
  shows "same_host fs fs' \<and> (\<exists>x. contents fs' = (contents fs)(links fs (target_path c) := x))"
proof -
  have id: "\<exists>x. contents fs = (contents fs)(links fs (target_path c) := x)"
    by (rule exI [of _ "contents fs (links fs (target_path c))"]) simp
  from assms show ?thesis
  proof (cases rule: apply_cases)
    case refused
    then show ?thesis using id by simp
  next
    case create
    from create(4) show ?thesis
    proof (cases rule: create_file_cases)
      case early
      then show ?thesis using id by simp
    next
      case (written ds w)
      from fs_write_frame [OF written(1)] show ?thesis by auto
    qed
  next
    case patch
    from PatchEngine_apply_frame [OF patch(4)] show ?thesis by (auto simp: create_patch_def)
  qed
qed

lemma apply_Ok_contents:
  assumes "ChangeEngine_apply eng c fs = (Ok m, fs')"
  shows "contents fs' = (contents fs)(links fs (target_path c) \<mapsto> full_new c)"
  using assms
proof (cases rule: apply_cases)
  case refused
  then show ?thesis by blast
next
  case create
  from create(4) show ?thesis
  proof (cases rule: create_file_cases)
    case early
    then show ?thesis by blast
  next
    case (written ds w)
    then obtain u where "w = Inr u" by (cases w) auto
    from fs_write_Inr [OF written(1) [unfolded this]] show ?thesis by simp
  qed
next
  case patch
  from PatchEngine_apply_Ok [OF patch(4)] show ?thesis by (simp add: create_patch_def)
qed

lemma apply_guarded:
  assumes "ChangeEngine_apply eng c fs = (r, fs')" "contents fs' \<noteq> contents fs \<or> r = Ok m"
  shows "ensure_symlink_safe fs (workspace_root eng) (target_path c) = Ok () \<and> current_content fs c = Ok (backup c)"
  using assms(1)
proof (cases rule: apply_cases)
  case refused
  then show ?thesis using assms(2) by blast
qed simp_all

text \<open>The original content of the target of an applied change.\<close>

definition snapshot :: "PreparedChange \<Rightarrow> string option" where
  "snapshot c = (if created c then None else Some (backup c))"

lemma current_content_snapshot:
  "current_content fs c = Ok (backup c) \<Longrightarrow> contents fs (links fs (target_path c)) = snapshot c"
  by (auto simp: current_content_def snapshot_def fs_exists_def fs_read_to_string_def
      split: if_splits sum.splits option.splits)

section \<open>Containment and termination\<close>

lemma outcome_bind_Panics: "outcome_bind r f = Panics \<longleftrightarrow> r = Panics \<or> (\<exists>x. r = Ok x \<and> f x = Panics)"
  by (cases r) auto

lemma symlink_safe_existing:
  "ensure_symlink_safe fs root p = Ok u \<Longrightarrow> fs_exists fs p \<Longrightarrow>
   path_starts_with (links fs p) (canonical_workspace fs root)"
  by (auto simp: ensure_symlink_safe_def canonical_candidate_def fs_canonicalize_def split: if_splits)

lemma resolve_path_Ok:
  assumes "resolve_path fs root argument = Ok p"
  shows "path_starts_with p root \<and> ParentDir \<notin> set (path_components p) \<and> ensure_symlink_safe fs root p = Ok ()"
  using assms by (auto simp: resolve_path_def Let_def outcome_bind_Ok split: if_splits)

definition links_respect :: "FileSystem \<Rightarrow> bool" where
  "links_respect fs \<longleftrightarrow> (\<forall>p q. path_eq p q \<longrightarrow> links fs p = links fs q)"

lemma components_root: "path_components ''/'' = [RootDir]"
  by (simp add: path_components_def absolute_path_def split_char_def)

lemma absolute_components:
  "absolute_path p \<longleftrightarrow> (\<exists>cs. path_components p = RootDir # cs \<and> (\<forall>c \<in> set cs. clean_component c))"
proof -
  define t where "t = concat (map segment_component (split_char (CHR ''/'') p))"
  have clean: "\<forall>c \<in> set t. clean_component c"
    unfolding t_def using segment_components_clean split_char_pieces by blast
  have comps: "path_components p =
      (if absolute_path p then [RootDir] else if hd (split_char (CHR ''/'') p) = ''.'' then [CurDir] else []) @ t"
    by (simp only: path_components_def Let_def t_def)
  show ?thesis
  proof (cases "absolute_path p")
    case True
    then show ?thesis using clean comps by simp
  next
    case False
    then have "path_components p \<noteq> RootDir # cs" for cs
      using clean comps by (cases t) (auto split: if_splits)
    then show ?thesis using False by blast
  qed
qed

lemma parent_absolute: "absolute_path p \<Longrightarrow> path_parent p = Some d \<Longrightarrow> absolute_path d"
proof -
  assume a: "absolute_path p" and d: "path_parent p = Some d"
  obtain cs where cs: "path_components p = RootDir # cs" "\<forall>c \<in> set cs. clean_component c"
    using a absolute_components by blast
  have "cs \<noteq> []" using d cs(1) by (auto simp: path_parent_def)
  then show "absolute_path d"
    using components_parent [OF d] cs absolute_components [of d] by (auto dest: in_set_butlastD)
qed

lemma parent_None_root: "absolute_path p \<Longrightarrow> path_parent p = None \<Longrightarrow> path_eq p ''/''"
proof -
  assume a: "absolute_path p" and d: "path_parent p = None"
  obtain cs where cs: "path_components p = RootDir # cs" "\<forall>c \<in> set cs. clean_component c"
    using a absolute_components by blast
  have "cs = []"
  proof (rule ccontr)
    assume "cs \<noteq> []"
    then have "clean_component (last cs)" using cs(2) by simp
    then show False using d cs(1) \<open>cs \<noteq> []\<close> by (auto simp: path_parent_def split: if_splits)
  qed
  then show "path_eq p ''/''" using cs(1) by (simp add: path_eq_def components_root)
qed

lemma exists_respect: "links_respect fs \<Longrightarrow> path_eq p q \<Longrightarrow> fs_exists fs p = fs_exists fs q"
proof -
  assume "links_respect fs" "path_eq p q"
  then have "links fs p = links fs q" unfolding links_respect_def by blast
  then show ?thesis by (simp add: fs_exists_def)
qed

lemma nearest_existing_returns:
  assumes "links_respect fs" "fs_exists fs ''/''" "absolute_path p"
  shows "\<exists>x. nearest_existing fs p tail = Ok x"
  using assms
proof (induction fs p tail rule: nearest_existing.induct)
  case (1 fs p tail)
  show ?case
  proof (cases "fs_exists fs p")
    case True
    then show ?thesis by (simp add: nearest_existing.simps)
  next
    case False
    then obtain d where d: "path_parent p = Some d"
      using exists_respect [OF 1(2) parent_None_root [OF 1(4)]] 1(3) by (cases "path_parent p") auto
    from 1(1) [OF False d 1(2,3) parent_absolute [OF 1(4) d]] False d show ?thesis
      by (simp add: nearest_existing.simps [of fs p])
  qed
qed

lemma symlink_safe_returns:
  assumes "links_respect fs" "fs_exists fs ''/''" "absolute_path p"
  shows "ensure_symlink_safe fs root p \<noteq> Diverges" "ensure_symlink_safe fs root p \<noteq> Panics"
proof -
  obtain x where "nearest_existing fs p [] = Ok x" using nearest_existing_returns [OF assms] by blast
  then have "\<exists>c. canonical_candidate fs p = Ok c"
    by (cases x) (auto simp: canonical_candidate_def split: option.split)
  then show "ensure_symlink_safe fs root p \<noteq> Diverges" "ensure_symlink_safe fs root p \<noteq> Panics"
    by (auto simp: ensure_symlink_safe_def split: if_splits)
qed

lemma path_join_absolute: "absolute_path base \<Longrightarrow> absolute_path (path_join base p)"
  by (auto simp: absolute_path_def path_join_def)

lemma resolve_path_returns:
  assumes "links_respect fs" "fs_exists fs ''/''" "absolute_path root"
  shows "resolve_path fs root argument \<noteq> Diverges" "resolve_path fs root argument \<noteq> Panics"
proof -
  let ?c = "if absolute_path (trim argument) then trim argument else path_join root (trim argument)"
  have "absolute_path ?c" using path_join_absolute [OF assms(3)] by simp
  note s = symlink_safe_returns [OF assms(1,2) this, of root]
  show "resolve_path fs root argument \<noteq> Diverges" "resolve_path fs root argument \<noteq> Panics"
    using s by (auto simp: resolve_path_def Let_def outcome_bind_Diverges outcome_bind_Panics split: if_splits)
qed

section \<open>Rollback of one change\<close>

lemma set_link_same:
  assumes "links_respect fs" "links fs p = loc"
  shows "set_link p loc fs = fs"
proof -
  have "(\<lambda>q. if path_eq q p then loc else links fs q) = links fs"
  proof
    fix q
    show "(if path_eq q p then loc else links fs q) = links fs q"
      using assms unfolding links_respect_def by metis
  qed
  then show ?thesis by (simp add: set_link_def)
qed

lemma links_respect_same: "same_host fs fs' \<Longrightarrow> links_respect fs' = links_respect fs"
  by (simp add: same_host_def links_respect_def)

lemma plain_same: "same_host fs fs' \<Longrightarrow> plain_path fs' = plain_path fs"
  by (simp add: fun_eq_iff plain_path_def same_host_entry) (simp add: same_host_def)

lemma write_atomic_plain:
  assumes "links_respect fs" "plain_path fs p" "write_atomic p data fs = (Inr u, fs')"
  shows "same_host fs fs' \<and> contents fs' = (contents fs)(links fs p \<mapsto> data)"
proof -
  let ?dir = "case path_parent p of Some d \<Rightarrow> if d \<noteq> [] then d else ''.'' | None \<Rightarrow> ''.''"
  obtain r fs1 where m: "fs_create_dir_all ?dir fs = (r, fs1)" by (rule prod.exhaust)
  obtain ds where fs1: "fs1 = fs\<lparr>directories := ds\<rparr>" using fs_create_dir_all_frame [OF m] by blast
  have h: "same_host fs fs1" by (simp add: fs1)
  have e: "entry_location fs1 p = links fs p"
    using assms(2) same_host_entry [OF h] by (simp add: plain_path_def)
  have "fs' = set_link p (links fs p) (fs1\<lparr>contents := (contents fs1)(links fs p \<mapsto> data)\<rparr>)"
    using assms(3) m by (auto simp: write_atomic_def Let_def e split: sum.splits option.splits if_splits)
  moreover have "links_respect (fs1\<lparr>contents := (contents fs1)(links fs p \<mapsto> data)\<rparr>)"
    using assms(1) by (simp add: fs1 links_respect_def)
  ultimately have "fs' = fs1\<lparr>contents := (contents fs1)(links fs p \<mapsto> data)\<rparr>"
    using set_link_same by (simp add: fs1)
  then show ?thesis by (simp add: fs1)
qed

lemma remove_file_plain:
  assumes "plain_path fs p" "fs_remove_file p fs = (Inr u, fs')"
  shows "same_host fs fs' \<and> contents fs' = (contents fs)(links fs p := None)"
  using assms by (auto simp: fs_remove_file_def plain_path_def Let_def split: option.splits if_splits)

lemma remove_file_not_found:
  assumes "plain_path fs p" "remove_faults fs p = None" "fs_remove_file p fs = (Inl e, fs')"
  shows "fs' = fs \<and> contents fs (links fs p) = None"
  using assms by (auto simp: fs_remove_file_def plain_path_def Let_def split: option.splits if_splits)

lemma rollback_change_restores:
  assumes r: "links_respect fs" "plain_path fs (target_path c)" "remove_faults fs (target_path c) = None"
    and "rollback_change eng c fs = (Ok (), fs')"
  shows "contents fs' = (contents fs)(links fs (target_path c) := snapshot c)"
proof (cases "created c")
  case True
  obtain x fs1 where x: "fs_remove_file (target_path c) fs = (x, fs1)" by (rule prod.exhaust)
  have "fs' = fs1" using assms(4) True x
    by (auto simp: rollback_change_def split: outcome.splits sum.splits if_splits)
  show ?thesis
  proof (cases x)
    case (Inl e)
    from remove_file_not_found [OF r(2,3) x [unfolded Inl]] \<open>fs' = fs1\<close> True show ?thesis
      by (simp add: snapshot_def fun_upd_idem)
  next
    case (Inr u)
    from remove_file_plain [OF r(2) x [unfolded Inr]] \<open>fs' = fs1\<close> True show ?thesis by (simp add: snapshot_def)
  qed
next
  case False
  obtain x fs1 where x: "write_atomic (target_path c) (backup c) fs = (x, fs1)" by (rule prod.exhaust)
  have "fs' = fs1 \<and> (\<exists>u. x = Inr u)" using assms(4) False x
    by (auto simp: rollback_change_def split: outcome.splits sum.splits)
  then obtain u where u: "x = Inr u" "fs' = fs1" by blast
  from write_atomic_plain [OF r(1,2) x [unfolded u(1)]] u(2) False show ?thesis by (simp add: snapshot_def)
qed

section \<open>A sample host\<close>

text \<open>A file system without links or faults that has the directories \<^verbatim>\<open>/\<close> and \<^verbatim>\<open>/w\<close>.\<close>

definition sample_fs :: "(string \<times> string) list \<Rightarrow> FileSystem" where
  "sample_fs files = \<lparr>contents = map_of files, directories = (\<lambda>l. l = ''/'' \<or> l = ''/w''),
     links = (\<lambda>p. path_render (path_components p)), read_faults = (\<lambda>_. None), write_faults = (\<lambda>_. None),
     atomic_faults = (\<lambda>_. None), remove_faults = (\<lambda>_. None), mkdir_faults = (\<lambda>_. None)\<rparr>"

definition sample_engine :: ChangeEngine where
  "sample_engine = \<lparr>workspace_root = ''/w'', planned_files = [], strict = False\<rparr>"

lemma sample_components:
  "path_components ''/w'' = [RootDir, Normal ''w'']"
  "path_components ''/w/a'' = [RootDir, Normal ''w'', Normal ''a'']"
  "path_components ''/w/b'' = [RootDir, Normal ''w'', Normal ''b'']"
  "path_components ''/w/./a'' = [RootDir, Normal ''w'', Normal ''a'']"
  by (simp_all add: path_components_def absolute_path_def split_char_def)

lemma sample_render:
  "path_render [RootDir] = ''/''" "path_render [RootDir, Normal ''w''] = ''/w''"
  "path_render [RootDir, Normal ''w'', Normal ''a''] = ''/w/a''"
  "path_render [RootDir, Normal ''w'', Normal ''b''] = ''/w/b''"
  by (simp_all add: path_render_def)

lemma sample_parent:
  "path_parent ''/w/a'' = Some ''/w''" "path_parent ''/w/b'' = Some ''/w''" "path_parent ''/w'' = Some ''/''"
  "path_parent ''/'' = None" "path_file_name ''/w/a'' = Some ''a''" "path_file_name ''/w/b'' = Some ''b''"
  by (simp_all add: path_parent_def path_file_name_def sample_components sample_render components_root)

lemma sample_links_respect: "links_respect (sample_fs files)"
  by (simp add: links_respect_def sample_fs_def path_eq_def)

lemma sample_trim: "trim ''a'' = ''a''" "trim ''./a'' = ''./a''"
  by (simp_all add: trim_def trim_start.simps trim_end.simps ws_front_def ws_back_def white_space_def)

lemma sample_safe:
  assumes "map_of files ''/w/a'' \<noteq> None" "p \<in> {''/w/a'', ''/w/./a''}"
  shows "ensure_symlink_safe (sample_fs files) ''/w'' p = Ok ()"
  using assms
  by (auto simp: ensure_symlink_safe_def canonical_candidate_def canonical_workspace_def fs_canonicalize_def
      fs_exists_def sample_fs_def sample_components sample_render path_starts_with_def)

lemma sample_resolve:
  assumes "map_of files ''/w/a'' \<noteq> None"
  shows "ChangeEngine_resolve (sample_fs files) sample_engine ''a'' = Ok ''/w/a''"
    and "ChangeEngine_resolve (sample_fs files) sample_engine ''./a'' = Ok ''/w/./a''"
  using sample_safe [OF assms]
  by (simp_all add: ChangeEngine_resolve_def resolve_path_def sample_engine_def sample_trim absolute_path_def
      path_join_def sample_components path_starts_with_def)

lemma sample_read:
  "map_of files ''/w/a'' = Some s \<Longrightarrow> \<forall>c \<in> set s. of_char c < (128 :: nat) \<Longrightarrow> p \<in> {''/w/a'', ''/w/./a''} \<Longrightarrow>
   fs_read_to_string (sample_fs files) p = Inr s"
  by (auto simp: fs_read_to_string_def sample_fs_def sample_components sample_render valid_utf8_ascii)

lemma sample_exists: "map_of files ''/w/a'' = Some s \<Longrightarrow> p \<in> {''/w/a'', ''/w/./a''} \<Longrightarrow> fs_exists (sample_fs files) p"
  by (auto simp: fs_exists_def sample_fs_def sample_components sample_render)

lemma sample_host:
  "links (sample_fs files) p = path_render (path_components p)" "mkdir_faults (sample_fs files) p = None"
  "atomic_faults (sample_fs files) p = None" "contents (sample_fs files) = map_of files"
  "remove_faults (sample_fs files) p = None" "write_faults (sample_fs files) p = None"
  "directories (sample_fs files) l \<longleftrightarrow> l = ''/'' \<or> l = ''/w''"
  by (simp_all add: sample_fs_def)

lemma sample_ancestors: "path_ancestors ''/w'' = [''/w'', ''/'']"
  by (simp add: path_ancestors.simps sample_parent sample_components components_root)

lemma sample_mkdir:
  assumes "map_of files ''/'' = None" "map_of files ''/w'' = None"
  shows "fs_create_dir_all ''/w'' (sample_fs files) =
    (Inr (), sample_fs files\<lparr>directories := (\<lambda>l. directories (sample_fs files) l \<or> l \<in> {''/w'', ''/''})\<rparr>)"
  using assms
  by (simp add: fs_create_dir_all_def sample_host sample_ancestors Let_def sample_components sample_render components_root)

lemma sample_atomic:
  assumes "map_of files ''/'' = None" "map_of files ''/w'' = None"
  shows "\<exists>fs2. write_atomic ''/w/a'' data (sample_fs files) = (Inr (), fs2)"
  by (simp add: write_atomic_def sample_parent sample_mkdir [OF assms] sample_host Let_def entry_location_def
      sample_components sample_render path_join_def absolute_path_def)

definition sample_change :: "string \<Rightarrow> string \<Rightarrow> PreparedChange" where
  "sample_change before after = \<lparr>target_path = ''/w/a'', created = False, unplanned = False, change_preview = [],
     backup = before, old_text = before, new_text = after, full_new = after\<rparr>"

section \<open>Properties\<close>

text \<open>A prepared edit of an existing file replaces one piece of it. The snapshot is the current
  content, it splits around the first occurrence of the text to replace, and the prepared
  content differs from it in that piece only.\<close>

theorem prepare_replaces_first_match:
  assumes "ChangeEngine_prepare fs eng path old new = Ok c" "\<not> created c"
  shows "\<exists>pre post. fs_read_to_string fs (target_path c) = Inr (pre @ old @ post) \<and> backup c = pre @ old @ post \<and>
    full_new c = pre @ new @ post \<and> (\<forall>i < length pre. \<not> occurs_at old (backup c) i)"
proof -
  note p = prepare_Ok(3) [OF assms]
  then obtain pre post where "backup c = pre @ old @ post" "replace_first old new (backup c) = pre @ new @ post"
    "\<forall>i < length pre. \<not> occurs_at old (backup c) i"
    using replace_first_split [of old "backup c" new] by auto
  then show ?thesis using p by auto
qed

lemma sample_matches: "matches_count ''aa'' ''aaa'' = 1" "matches_count ''two'' ''one two'' = 1"
  by (simp_all add: matches_count.simps starts_with_str_def)

lemma prepare_replaces_first_match_witness:
  "\<exists>c. ChangeEngine_prepare (sample_fs [(''/w/a'', ''one two'')]) sample_engine ''a'' ''two'' ''2'' = Ok c \<and>
     backup c = ''one two'' \<and> full_new c = ''one 2''"
proof -
  let ?fs = "sample_fs [(''/w/a'', ''one two'')]"
  have r: "fs_read_to_string ?fs ''/w/a'' = Inr ''one two''" by (rule sample_read) simp_all
  have e: "fs_exists ?fs ''/w/a''" by (rule sample_exists) simp_all
  have "ChangeEngine_resolve ?fs sample_engine ''a'' = Ok ''/w/a''" by (rule sample_resolve) simp
  then obtain c where c: "ChangeEngine_prepare ?fs sample_engine ''a'' ''two'' ''2'' = Ok c" "\<not> created c"
      "full_new c = ''one 2''"
    by (simp add: ChangeEngine_prepare_def sample_engine_def e prepare_existing_def r sample_matches
        ChangePlan_propose_between_def Let_def starts_with_str_def)
  from prepare_replaces_first_match [OF c(1,2)] prepare_Ok(1) [OF c(1)] r
  have "backup c = ''one two''" using \<open>ChangeEngine_resolve ?fs sample_engine ''a'' = Ok ''/w/a''\<close> by auto
  then show ?thesis using c by blast
qed

text \<open>C6: apply never writes over unknown content. Whatever it returns, it changed the contents of at
  most the target's location, and if it changed them then the target passed the containment
  check and held exactly the preparation-time snapshot (for a created file: nothing).\<close>

theorem apply_only_over_snapshot:
  "case ChangeEngine_apply eng c fs of (r, fs') \<Rightarrow>
     contents fs' = contents fs \<or>
     ensure_symlink_safe fs (workspace_root eng) (target_path c) = Ok () \<and>
     contents fs (links fs (target_path c)) = snapshot c \<and>
     (\<exists>x. contents fs' = (contents fs)(links fs (target_path c) := x))"
proof -
  obtain r fs' where a: "ChangeEngine_apply eng c fs = (r, fs')" by (rule prod.exhaust)
  then show ?thesis using apply_guarded [OF a] current_content_snapshot [of fs c] apply_frame [OF a] by auto
qed

text \<open>C26: an apply that reports success did what was prepared: reading the target back verifies, and
  every other location of the file system holds what it held before.\<close>

theorem apply_success_verified:
  assumes "ChangeEngine_apply eng c fs = (Ok m, fs')" "read_faults fs (target_path c) = None" "valid_utf8 (full_new c)"
  shows "ApplyVerification_verified (verify_applied c fs') \<and>
    (\<forall>l. l = links fs (target_path c) \<or> contents fs' l = contents fs l)"
proof -
  note k = apply_Ok_contents [OF assms(1)]
  have "links fs' = links fs" "read_faults fs' = read_faults fs" using apply_frame [OF assms(1)] by (simp_all add: same_host_def)
  then show ?thesis
    using k assms(2,3) by (simp add: ApplyVerification_verified_def verify_applied_def fs_exists_def fs_read_to_string_def)
qed

lemma sample_reconstruct: "reconstruct_from_patch ''x'' (create_patch p ''x'' ''y'') = Ok ''y''"
  by (simp add: reconstruct_exact_iff signed_context_def signed_line_def str_lines_def starts_with_char_def)

lemma sample_apply:
  "ChangeEngine_apply sample_engine (sample_change ''x'' ''y'') (sample_fs [(''/w/a'', ''x'')]) =
   (Ok ''Patch applied to /w/a'', sample_fs [(''/w/a'', ''x'')]\<lparr>contents := [''/w/a'' \<mapsto> ''y'']\<rparr>)"
proof -
  let ?fs = "sample_fs [(''/w/a'', ''x'')]"
  have r: "fs_read_to_string ?fs ''/w/a'' = Inr ''x''" by (rule sample_read) simp_all
  have s: "ensure_symlink_safe ?fs ''/w'' ''/w/a'' = Ok ()" by (rule sample_safe) simp_all
  have w: "fs_write ''/w/a'' ''y'' ?fs = (Inr (), ?fs\<lparr>contents := [''/w/a'' \<mapsto> ''y'']\<rparr>)"
    by (simp add: fs_write_def sample_fs_def sample_components sample_render)
  show ?thesis
    using validate_create_patch [of "''/w/a''" "''x''" "''y''"] sample_reconstruct [of "''/w/a''"]
    by (simp add: ChangeEngine_apply_def sample_engine_def sample_change_def s r w current_content_def
        ChangePlan_propose_between_def ChangePlan_apply_def PatchEngine_apply_def create_patch_def)
qed

lemma apply_success_verified_witness:
  "ApplyVerification_verified (verify_applied (sample_change ''x'' ''y'')
     (sample_fs [(''/w/a'', ''x'')]\<lparr>contents := [''/w/a'' \<mapsto> ''y'']\<rparr>))"
  using apply_success_verified [OF sample_apply] by (simp add: sample_fs_def sample_change_def valid_utf8_ascii)



text \<open>Uniqueness is checked on non-overlapping matches: text that occurs twice with an overlap is
  accepted as a unique match.\<close>

theorem overlapping_match_accepted:
  "\<exists>c. ChangeEngine_prepare (sample_fs [(''/w/a'', ''aaa'')]) sample_engine ''a'' ''aa'' ''b'' = Ok c \<and>
     occurs_at ''aa'' (backup c) 0 \<and> occurs_at ''aa'' (backup c) 1"
proof -
  let ?fs = "sample_fs [(''/w/a'', ''aaa'')]"
  have r: "fs_read_to_string ?fs ''/w/a'' = Inr ''aaa''" by (rule sample_read) simp_all
  have e: "fs_exists ?fs ''/w/a''" by (rule sample_exists) simp_all
  have "ChangeEngine_resolve ?fs sample_engine ''a'' = Ok ''/w/a''" by (rule sample_resolve) simp
  then show ?thesis
    by (simp add: ChangeEngine_prepare_def sample_engine_def e prepare_existing_def r sample_matches
        ChangePlan_propose_between_def Let_def occurs_at_def starts_with_str_def)
qed

text \<open>C22: resolved paths stay inside the workspace: the path is below the root without any parent
  component, and when it exists, what it denotes after following links is below the canonical root.\<close>

theorem resolved_path_contained:
  assumes "resolve_path fs root argument = Ok p"
  shows "path_starts_with p root \<and> ParentDir \<notin> set (path_components p) \<and>
    (fs_exists fs p \<longrightarrow> path_starts_with (links fs p) (canonical_workspace fs root))"
  using resolve_path_Ok [OF assms] symlink_safe_existing [of fs root p "()"] by blast

lemma resolved_path_contained_witness:
  "path_starts_with (links (sample_fs [(''/w/a'', ''x'')]) ''/w/a'') (canonical_workspace (sample_fs [(''/w/a'', ''x'')]) ''/w'')"
proof -
  have s: "ensure_symlink_safe (sample_fs [(''/w/a'', ''x'')]) ''/w'' ''/w/a'' = Ok ()" by (rule sample_safe) simp_all
  have "resolve_path (sample_fs [(''/w/a'', ''x'')]) ''/w'' ''a'' = Ok ''/w/a''"
    using s by (simp add: resolve_path_def sample_trim absolute_path_def path_join_def sample_components path_starts_with_def)
  moreover have "fs_exists (sample_fs [(''/w/a'', ''x'')]) ''/w/a''" by (rule sample_exists) simp_all
  ultimately show ?thesis using resolved_path_contained by blast
qed

text \<open>C34: path resolution terminates for an absolute workspace root on a host that has a root directory:
  the walk to the nearest existing ancestor ends.\<close>

theorem resolution_returns:
  assumes "links_respect fs" "fs_exists fs ''/''" "absolute_path root"
  shows "\<exists>r. resolve_path fs root argument = Ok r \<or> (\<exists>e. resolve_path fs root argument = Err e)"
  using resolve_path_returns [OF assms, of argument] by (cases "resolve_path fs root argument") auto

lemma resolution_returns_witness:
  "\<exists>r. resolve_path (sample_fs []) ''/w'' ''q/r/s'' = Ok r \<or> (\<exists>e. resolve_path (sample_fs []) ''/w'' ''q/r/s'' = Err e)"
proof (rule resolution_returns [OF sample_links_respect])
  show "fs_exists (sample_fs []) ''/''" by (simp add: fs_exists_def sample_fs_def components_root sample_render)
  show "absolute_path ''/w''" by (simp add: absolute_path_def)
qed

end
