(* ===== verification/Change_Transaction.thy ===== *)
theory Change_Transaction
  imports Change_Engine
begin

text \<open>
  Transactional multi-file mutation (\<^verbatim>\<open>change-engine/src/coding/transaction.rs\<close>): preparation of a
  set of changes, the conflict pass, the sequential apply pass and the rollback of what was
  already applied.

  The contract between a transaction and the single-file operations is the locale \<open>undoable\<close>:
  a step that succeeds replaces the content of one location, a step that fails leaves the
  contents alone, and undoing puts the earlier content back. All-or-nothing is proved from it
  and interpreted on the engine's apply and restore.
\<close>

section \<open>Requests and reports\<close>

record TransactionRequest =
  request_path :: string
  request_old :: string
  request_new :: string

record PreparedTransaction =
  changes :: "PreparedChange list"

record RollbackReport =
  restored :: "string list"
  failed :: "(string \<times> string) list"

record TransactionReport =
  report_applied :: "string list"
  report_created :: "string list"
  rolled_back :: "string list"
  failure :: "string option"

definition RollbackReport_complete :: "RollbackReport \<Rightarrow> bool" where
  "RollbackReport_complete r \<longleftrightarrow> failed r = []"

definition RollbackReport_failure_detail :: "RollbackReport \<Rightarrow> string" where
  "RollbackReport_failure_detail r = join ''; '' (map (\<lambda>(p, reason). p @ '' ('' @ reason @ '')'') (failed r))"

definition TransactionReport_success :: "TransactionReport \<Rightarrow> bool" where
  "TransactionReport_success r \<longleftrightarrow> failure r = None"

definition box_rule :: string where
  "box_rule = [CHR 0xE2, CHR 0x94, CHR 0x80, CHR 0xE2, CHR 0x94, CHR 0x80]"

definition preview_step :: "string \<Rightarrow> PreparedChange \<Rightarrow> string" where
  "preview_step out c =
     (let out1 = out @ box_rule @ '' '' @ target_path c @ '' ('' @ (if created c then ''create'' else ''modify'') @
            '') '' @ box_rule @ nl @ change_preview c
      in if \<not> ends_with_newline out1 then out1 @ nl else out1)"

definition PreparedTransaction_preview :: "PreparedTransaction \<Rightarrow> string" where
  "PreparedTransaction_preview tx = foldl preview_step [] (changes tx)"

section \<open>Preparation\<close>

text \<open>The scan for a repeated target, over the request paths as given.\<close>

fun first_duplicate :: "string set \<Rightarrow> TransactionRequest list \<Rightarrow> string option" where
  "first_duplicate seen [] = None"
| "first_duplicate seen (r # rs) =
     (if request_path r \<in> seen then Some (request_path r)
      else first_duplicate (insert (request_path r) seen) rs)"

fun prepare_all :: "FileSystem \<Rightarrow> ChangeEngine \<Rightarrow> TransactionRequest list \<Rightarrow> PreparedChange list outcome" where
  "prepare_all fs eng [] = Ok []"
| "prepare_all fs eng (r # rs) =
     outcome_bind (ChangeEngine_prepare fs eng (request_path r) (request_old r) (request_new r))
       (\<lambda>c. outcome_bind (prepare_all fs eng rs) (\<lambda>cs. Ok (c # cs)))"

definition prepare_changes :: "FileSystem \<Rightarrow> ChangeEngine \<Rightarrow> TransactionRequest list \<Rightarrow> PreparedTransaction outcome" where
  "prepare_changes fs eng requests =
     (if requests = [] then Err (Patch ''empty transaction: at least one change is required'')
      else case first_duplicate {} requests of
        Some p \<Rightarrow> Err (Patch (''duplicate target in transaction: '' @ quoted p @ '' appears more than once''))
      | None \<Rightarrow> outcome_bind (prepare_all fs eng requests) (\<lambda>cs. Ok \<lparr>changes = cs\<rparr>))"

section \<open>Rollback\<close>

text \<open>Restoring one file: the reason when it could not be done.\<close>

definition restore_one :: "PreparedChange \<Rightarrow> string \<Rightarrow> FileSystem \<Rightarrow> string option \<times> FileSystem" where
  "restore_one original path fs =
     (if created original then
        (case fs_remove_file path fs of
           (Inr _, fs') \<Rightarrow> (None, fs')
         | (Inl e, fs') \<Rightarrow> if io_kind e = NotFound then (None, fs') else (Some (io_text e), fs'))
      else
        (case write_atomic path (backup original) fs of
           (Inr _, fs') \<Rightarrow> (None, fs')
         | (Inl e, fs') \<Rightarrow> (Some (io_text e), fs')))"

definition rollback_step :: "PreparedTransaction \<Rightarrow> RollbackReport \<times> FileSystem \<Rightarrow> string \<Rightarrow> RollbackReport \<times> FileSystem" where
  "rollback_step tx st path =
     (case st of (report, fs) \<Rightarrow>
        (case find (\<lambda>c. path_eq (target_path c) path) (changes tx) of
           None \<Rightarrow> (report, fs)
         | Some original \<Rightarrow>
             (case restore_one original path fs of
                (None, fs') \<Rightarrow> (report\<lparr>restored := restored report @ [path]\<rparr>, fs')
              | (Some reason, fs') \<Rightarrow> (report\<lparr>failed := failed report @ [(path, reason)]\<rparr>, fs'))))"

definition rollback_changes :: "PreparedTransaction \<Rightarrow> string list \<Rightarrow> FileSystem \<Rightarrow> RollbackReport \<times> FileSystem" where
  "rollback_changes tx done fs = foldl (rollback_step tx) (\<lparr>restored = [], failed = []\<rparr>, fs) (rev done)"

section \<open>Applying a transaction\<close>

fun conflict_pass :: "FileSystem \<Rightarrow> PreparedChange list \<Rightarrow> unit outcome" where
  "conflict_pass fs [] = Ok ()"
| "conflict_pass fs (c # cs) =
     (if created c then
        (if fs_exists fs (target_path c) then
           Err (Patch (''transaction conflict: '' @ quoted (target_path c) @ '' was created since preparation''))
         else conflict_pass fs cs)
      else case fs_read_to_string fs (target_path c) of
        Inl e \<Rightarrow> Err (Patch (''transaction conflict: '' @ quoted (target_path c) @ '' unreadable: '' @ io_text e))
      | Inr current \<Rightarrow>
          if current \<noteq> backup c then
            Err (Patch (''transaction conflict: '' @ quoted (target_path c) @ '' changed since preparation''))
          else conflict_pass fs cs)"

definition rollback_detail :: "RollbackReport \<Rightarrow> string" where
  "rollback_detail rb =
     (if RollbackReport_complete rb then ''rolled back '' @ show_nat (length (restored rb)) @ '' file(s)''
      else ''ROLLBACK INCOMPLETE: restored '' @ show_nat (length (restored rb)) @ '' file(s) but FAILED to restore '' @
        show_nat (length (failed rb)) @ '' '' @ em_dash @
        '' workspace state is UNCERTAIN, inspect these files manually: '' @ RollbackReport_failure_detail rb)"

fun apply_pass :: "ChangeEngine \<Rightarrow> PreparedTransaction \<Rightarrow> PreparedChange list \<Rightarrow> string list \<Rightarrow> string list \<Rightarrow>
    FileSystem \<Rightarrow> TransactionReport outcome \<times> FileSystem" where
  "apply_pass eng tx [] done new_files fs =
     (Ok \<lparr>report_applied = done, report_created = new_files, rolled_back = [], failure = None\<rparr>, fs)"
| "apply_pass eng tx (c # cs) done new_files fs =
     (case ChangeEngine_apply eng c fs of
        (Ok _, fs1) \<Rightarrow>
          apply_pass eng tx cs (done @ [target_path c])
            (if created c then new_files @ [target_path c] else new_files) fs1
      | (Err e, fs1) \<Rightarrow>
          (case rollback_changes tx done fs1 of
             (rb, fs2) \<Rightarrow>
               (Err (Patch (''transaction failed at '' @ quoted (target_path c) @ '': '' @ error_text e @ ''; '' @
                  rollback_detail rb)), fs2))
      | (Panics, fs1) \<Rightarrow> (Panics, fs1)
      | (Diverges, fs1) \<Rightarrow> (Diverges, fs1))"

definition apply_transaction :: "ChangeEngine \<Rightarrow> PreparedTransaction \<Rightarrow> FileSystem \<Rightarrow> TransactionReport outcome \<times> FileSystem" where
  "apply_transaction eng tx fs =
     (case conflict_pass fs (changes tx) of
        Err e \<Rightarrow> (Err e, fs)
      | Panics \<Rightarrow> (Panics, fs)
      | Diverges \<Rightarrow> (Diverges, fs)
      | Ok _ \<Rightarrow> apply_pass eng tx (changes tx) [] [] fs)"

section \<open>The contract of an undoable step\<close>

locale undoable =
  fixes good :: "'c list \<Rightarrow> 's \<Rightarrow> bool"
    and view :: "'s \<Rightarrow> 'l \<Rightarrow> 'v"
    and place :: "'s \<Rightarrow> 'c \<Rightarrow> 'l"
    and earlier :: "'c \<Rightarrow> 'v"
    and intent :: "'c \<Rightarrow> 'v"
    and succeeds :: "'c \<Rightarrow> 's \<Rightarrow> 's \<Rightarrow> bool"
    and fails :: "'c \<Rightarrow> 's \<Rightarrow> 's \<Rightarrow> bool"
    and undo :: "'c \<Rightarrow> 's \<Rightarrow> 's"
  assumes step_succeeds: "good cs s \<Longrightarrow> c \<in> set cs \<Longrightarrow> succeeds c s s' \<Longrightarrow>
      good cs s' \<and> place s' = place s \<and> view s (place s c) = earlier c \<and> view s' = (view s)(place s c := intent c)"
    and step_fails: "good cs s \<Longrightarrow> c \<in> set cs \<Longrightarrow> fails c s s' \<Longrightarrow>
      good cs s' \<and> place s' = place s \<and> view s' = view s"
    and undo_restores: "good cs s \<Longrightarrow> c \<in> set cs \<Longrightarrow>
      good cs (undo c s) \<and> place (undo c s) = place s \<and> view (undo c s) = (view s)(place s c := earlier c)"
begin

lemma undo_after_success:
  assumes "good cs s" "c \<in> set cs" "succeeds c s s'" "good cs t" "place t = place s" "view t = view s'"
  shows "good cs (undo c t) \<and> place (undo c t) = place s \<and> view (undo c t) = view s"
  using step_succeeds [OF assms(1-3)] undo_restores [OF assms(4) assms(2)] assms(5,6) by auto

end

fun chain :: "('c \<Rightarrow> 's \<Rightarrow> 's \<Rightarrow> bool) \<Rightarrow> 'c list \<Rightarrow> 's \<Rightarrow> 's \<Rightarrow> bool" where
  "chain P [] s s' \<longleftrightarrow> s' = s"
| "chain P (c # cs) s s' \<longleftrightarrow> (\<exists>t. P c s t \<and> chain P cs t s')"

lemma chain_snoc: "chain P (cs @ [c]) s s' \<longleftrightarrow> (\<exists>t. chain P cs s t \<and> P c t s')"
  by (induction cs arbitrary: s) auto

context undoable
begin

lemma chain_good:
  assumes "good cs s" "set xs \<subseteq> set cs" "chain succeeds xs s s'"
  shows "good cs s' \<and> place s' = place s \<and> view s' = fold (\<lambda>c v. v(place s c := intent c)) xs (view s)"
  using assms
proof (induction xs arbitrary: s)
  case Nil
  then show ?case by simp
next
  case (Cons x xs)
  then obtain t where t: "succeeds x s t" "chain succeeds xs t s'" by auto
  have x: "good cs t \<and> place t = place s \<and> view t = (view s)(place s x := intent x)"
    using step_succeeds [OF Cons.prems(1) _ t(1)] Cons.prems(2) by simp
  from Cons.IH [OF _ _ t(2)] x Cons.prems(2) show ?case by simp
qed

lemma undo_chain:
  assumes "good cs s" "set xs \<subseteq> set cs" "chain succeeds xs s s'"
    and "good cs t" "place t = place s'" "view t = view s'"
  shows "good cs (fold undo (rev xs) t) \<and> place (fold undo (rev xs) t) = place s \<and> view (fold undo (rev xs) t) = view s"
  using assms
proof (induction xs arbitrary: s)
  case Nil
  then show ?case by simp
next
  case (Cons x xs)
  then obtain s1 where s1: "succeeds x s s1" "chain succeeds xs s1 s'" by auto
  have x: "x \<in> set cs" using Cons.prems(2) by simp
  have g: "good cs s1" "place s1 = place s" using step_succeeds [OF Cons.prems(1) x s1(1)] by simp_all
  have "good cs (fold undo (rev xs) t) \<and> place (fold undo (rev xs) t) = place s1 \<and> view (fold undo (rev xs) t) = view s1"
    using Cons.IH [OF g(1) _ s1(2) Cons.prems(4-6)] Cons.prems(2) by simp
  with undo_after_success [OF Cons.prems(1) x s1(1)] g(2) show ?case by simp
qed

text \<open>All or nothing: undoing a run that failed part of the way gives back the first view.\<close>

lemma all_or_nothing:
  assumes "good cs s" "set xs \<subseteq> set cs" "c \<in> set cs" "chain succeeds xs s t" "fails c t t'"
  shows "view (fold undo (rev xs) t') = view s"
proof -
  note t = chain_good [OF assms(1,2,4)]
  from step_fails [OF _ assms(3,5)] t have "good cs t' \<and> place t' = place t \<and> view t' = view t" by simp
  then show ?thesis using undo_chain [OF assms(1,2,4)] by simp
qed

end

section \<open>When the engine's changes are undoable\<close>

definition restore_dir :: "string \<Rightarrow> string" where
  "restore_dir p = (case path_parent p of Some d \<Rightarrow> if d \<noteq> [] then d else ''.'' | None \<Rightarrow> ''.'')"

definition ancestor_locations :: "FileSystem \<Rightarrow> PreparedChange \<Rightarrow> string set" where
  "ancestor_locations fs c = links fs ` set (path_ancestors (restore_dir (target_path c)))"

text \<open>
  The conditions under which every change can be undone: targets at different locations, none
  of them a symbolic link, a directory or above another target; a failing write fails before it
  touches the file; restoring meets no fault.
\<close>

definition restorable :: "PreparedChange list \<Rightarrow> FileSystem \<Rightarrow> bool" where
  "restorable cs fs \<longleftrightarrow>
     links_respect fs \<and>
     distinct (map (\<lambda>c. links fs (target_path c)) cs) \<and>
     (\<forall>c \<in> set cs. plain_path fs (target_path c) \<and>
        (\<forall>e n. write_faults fs (target_path c) \<noteq> Some (e, Some n)) \<and>
        atomic_faults fs (target_path c) = None \<and> remove_faults fs (target_path c) = None \<and>
        mkdir_faults fs (restore_dir (target_path c)) = None \<and>
        (\<not> created c \<longrightarrow> \<not> directories fs (links fs (target_path c)))) \<and>
     (\<forall>c \<in> set cs. \<forall>d \<in> set cs. links fs (target_path c) \<notin> ancestor_locations fs d) \<and>
     (\<forall>d \<in> set cs. \<forall>l \<in> ancestor_locations fs d. contents fs l = None)"

lemma restorable_step:
  assumes r: "restorable cs fs" and c: "c \<in> set cs" and h: "same_host fs fs'"
    and x: "contents fs' = (contents fs)(links fs (target_path c) := x)"
    and d: "\<And>l. directories fs' l \<Longrightarrow> directories fs l \<or> l \<in> ancestor_locations fs c"
  shows "restorable cs fs'"
proof -
  have l: "links fs' = links fs" using h by (simp add: same_host_def)
  have a: "ancestor_locations fs' = ancestor_locations fs" by (simp add: fun_eq_iff ancestor_locations_def l)
  note R = r [unfolded restorable_def]
  have dirs: "\<not> directories fs' (links fs (target_path e))" if "e \<in> set cs" "\<not> created e" for e
    using d [of "links fs (target_path e)"] R that c by blast
  have cont: "contents fs' m = None" if "e \<in> set cs" "m \<in> ancestor_locations fs e" for e m
  proof -
    have "m \<noteq> links fs (target_path c)" using R c that by blast
    then show ?thesis using R that by (simp add: x)
  qed
  have host: "write_faults fs' = write_faults fs" "atomic_faults fs' = atomic_faults fs"
    "remove_faults fs' = remove_faults fs" "mkdir_faults fs' = mkdir_faults fs"
    using h by (simp_all add: same_host_def)
  show ?thesis
    unfolding restorable_def l a links_respect_same [OF h] plain_same [OF h] host
    using R dirs cont by blast
qed

lemma create_dir_all_directories:
  "fs_create_dir_all d fs = (r, fs') \<Longrightarrow> directories fs' l \<Longrightarrow> directories fs l \<or> l \<in> links fs ` set (path_ancestors d)"
  by (auto simp: fs_create_dir_all_def Let_def split: option.splits if_splits)

lemma fs_write_directories: "fs_write p data fs = (r, fs') \<Longrightarrow> directories fs' = directories fs"
  by (drule fs_write_frame) auto

lemma create_file_directories:
  assumes "create_file eng c fs = (r, fs')" "directories fs' l"
  shows "directories fs l \<or> l \<in> ancestor_locations fs c"
proof -
  obtain x fs1 where x: "(case path_parent (target_path c) of
      Some d \<Rightarrow> if d \<noteq> [] then fs_create_dir_all d fs else (Inr (), fs) | None \<Rightarrow> (Inr (), fs)) = (x, fs1)"
    by (rule prod.exhaust)
  obtain w fs2 where w: "fs_write (target_path c) (full_new c) fs1 = (w, fs2)" by (rule prod.exhaust)
  have "fs' = fs \<or> fs' = fs1 \<or> fs' = fs2"
    using assms(1) x w by (auto simp: create_file_def split: outcome.splits sum.splits)
  with assms(2) have "directories fs l \<or> directories fs1 l" using fs_write_directories [OF w] by auto
  then show ?thesis
    using x create_dir_all_directories [of _ fs _ fs1 l]
    by (auto simp: ancestor_locations_def restore_dir_def split: option.splits if_splits)
qed

lemma apply_directories:
  assumes "ChangeEngine_apply eng c fs = (r, fs')" "directories fs' l"
  shows "directories fs l \<or> l \<in> ancestor_locations fs c"
  using assms(1)
proof (cases rule: apply_cases)
  case refused
  then show ?thesis using assms(2) by simp
next
  case create
  then show ?thesis using create_file_directories assms(2) by blast
next
  case patch
  then show ?thesis using PatchEngine_apply_frame [OF patch(4)] assms(2) by auto
qed

lemma fs_write_clean_failure:
  "fs_write p data fs = (Inl e, fs') \<Longrightarrow> \<forall>e n. write_faults fs p \<noteq> Some (e, Some n) \<Longrightarrow> fs' = fs"
  by (auto simp: fs_write_def Let_def split: if_splits option.splits)

lemma PatchEngine_apply_failure:
  assumes "PatchEngine_apply patch False fs = (r, fs')" "\<And>m. r \<noteq> Ok m"
  shows "fs' = fs \<or> (\<exists>data e. fs_write (patch_path patch) data fs = (Inl e, fs'))"
  using assms by (auto simp: PatchEngine_apply_def split: sum.splits outcome.splits if_splits prod.splits)

lemma apply_clean_failure:
  assumes "ChangeEngine_apply eng c fs = (r, fs')" "\<And>m. r \<noteq> Ok m"
    and clean: "\<forall>e n. write_faults fs (target_path c) \<noteq> Some (e, Some n)"
  shows "contents fs' = contents fs"
  using assms(1)
proof (cases rule: apply_cases)
  case create
  from create(4) show ?thesis
  proof (cases rule: create_file_cases)
    case (written ds w)
    then obtain e where "w = Inl e" using assms(2) by (cases w) auto
    from fs_write_clean_failure [OF written(1) [unfolded this]] clean show ?thesis by simp
  qed
next
  case patch
  from PatchEngine_apply_failure [OF patch(4) assms(2)]
  have "fs' = fs \<or> (\<exists>data e. fs_write (target_path c) data fs = (Inl e, fs'))" by (simp add: create_patch_def)
  then show ?thesis using clean fs_write_clean_failure by blast
qed simp

lemma restore_one_contents:
  assumes r: "restorable cs fs" and c: "c \<in> set cs"
  shows "same_host fs (snd (restore_one c (target_path c) fs)) \<and>
    contents (snd (restore_one c (target_path c) fs)) = (contents fs)(links fs (target_path c) := snapshot c) \<and>
    (\<forall>l. directories (snd (restore_one c (target_path c) fs)) l \<longrightarrow> directories fs l \<or> l \<in> ancestor_locations fs c)"
proof (cases "created c")
  case True
  have p: "plain_path fs (target_path c)" "remove_faults fs (target_path c) = None"
    using r c by (simp_all add: restorable_def)
  obtain x fs1 where x: "fs_remove_file (target_path c) fs = (x, fs1)" by (rule prod.exhaust)
  have f: "snd (restore_one c (target_path c) fs) = fs1"
    using True x by (auto simp: restore_one_def split: sum.split)
  have "directories fs1 = directories fs"
    using x p by (auto simp: fs_remove_file_def plain_path_def Let_def split: if_splits)
  then show ?thesis
    using remove_file_plain [OF p(1)] remove_file_not_found [OF p] x True unfolding f
    by (cases x) (fastforce simp: snapshot_def)+
next
  case False
  let ?p = "target_path c"
  have p: "links_respect fs" "plain_path fs ?p" "atomic_faults fs ?p = None" "mkdir_faults fs (restore_dir ?p) = None"
    "\<not> directories fs (links fs ?p)" "links fs ?p \<notin> ancestor_locations fs c" "\<forall>l \<in> ancestor_locations fs c. contents fs l = None"
    using r c False by (auto simp: restorable_def)
  obtain x fs1 where x: "fs_create_dir_all (restore_dir ?p) fs = (x, fs1)" by (rule prod.exhaust)
  have fs1: "x = Inr () \<and> fs1 = fs\<lparr>directories := (\<lambda>l. directories fs l \<or> l \<in> ancestor_locations fs c)\<rparr>"
    using x p(4,7) by (auto simp: fs_create_dir_all_def Let_def list_ex_iff ancestor_locations_def split: if_splits)
  have e: "entry_location fs1 ?p = links fs ?p"
    using p(2) same_host_entry [of fs fs1] fs1 by (simp add: plain_path_def)
  obtain w fs2 where w: "write_atomic ?p (backup c) fs = (w, fs2)" by (rule prod.exhaust)
  have "w = Inr () \<and> directories fs2 = directories fs1"
    using w x fs1 e p(3,5,6)
    by (auto simp: write_atomic_def restore_dir_def [symmetric] Let_def set_link_def)
  moreover from this write_atomic_plain [OF p(1,2)] w
  have "same_host fs fs2 \<and> contents fs2 = (contents fs)(links fs ?p \<mapsto> backup c)" by blast
  moreover from calculation have "snd (restore_one c ?p fs) = fs2" using False w by (simp add: restore_one_def)
  ultimately show ?thesis using False fs1 by (simp add: snapshot_def)
qed

interpretation tx: undoable restorable contents "\<lambda>fs c. links fs (target_path c)" snapshot "\<lambda>c. Some (full_new c)"
  "\<lambda>c fs fs'. \<exists>m. ChangeEngine_apply eng c fs = (Ok m, fs')"
  "\<lambda>c fs fs'. \<exists>r. ChangeEngine_apply eng c fs = (r, fs') \<and> (\<forall>m. r \<noteq> Ok m)"
  "\<lambda>c fs. snd (restore_one c (target_path c) fs)" for eng
proof unfold_locales
  fix cs fs c fs'
  assume g: "restorable cs fs" "c \<in> set cs"
  { assume "\<exists>m. ChangeEngine_apply eng c fs = (Ok m, fs')"
    then obtain m where m: "ChangeEngine_apply eng c fs = (Ok m, fs')" by blast
    have s: "contents fs (links fs (target_path c)) = snapshot c"
      using apply_guarded [OF m] current_content_snapshot by blast
    have h: "same_host fs fs'" using apply_frame [OF m] by blast
    have "restorable cs fs'"
      using restorable_step [OF g h apply_Ok_contents [OF m]] apply_directories [OF m] by blast
    then show "restorable cs fs' \<and> (\<lambda>c. links fs' (target_path c)) = (\<lambda>c. links fs (target_path c)) \<and>
      contents fs (links fs (target_path c)) = snapshot c \<and>
      contents fs' = (contents fs)(links fs (target_path c) := Some (full_new c))"
      using s h apply_Ok_contents [OF m] by (simp add: same_host_def) }
  { assume "\<exists>r. ChangeEngine_apply eng c fs = (r, fs') \<and> (\<forall>m. r \<noteq> Ok m)"
    then obtain r where r: "ChangeEngine_apply eng c fs = (r, fs')" "\<And>m. r \<noteq> Ok m" by blast
    have f: "contents fs' = contents fs" using apply_clean_failure [OF r] g by (simp add: restorable_def)
    have h: "same_host fs fs'" using apply_frame [OF r(1)] by blast
    have "contents fs' = (contents fs)(links fs (target_path c) := contents fs (links fs (target_path c)))"
      using f by simp
    from restorable_step [OF g h this] apply_directories [OF r(1)] have "restorable cs fs'" by blast
    then show "restorable cs fs' \<and> (\<lambda>c. links fs' (target_path c)) = (\<lambda>c. links fs (target_path c)) \<and> contents fs' = contents fs"
      using f h by (simp add: same_host_def) }
next
  fix cs fs c
  assume g: "restorable cs fs" "c \<in> set cs"
  note u = restore_one_contents [OF g]
  from u restorable_step [OF g, of "snd (restore_one c (target_path c) fs)" "snapshot c"]
  show "restorable cs (snd (restore_one c (target_path c) fs)) \<and>
    (\<lambda>c'. links (snd (restore_one c (target_path c) fs)) (target_path c')) = (\<lambda>c. links fs (target_path c)) \<and>
    contents (snd (restore_one c (target_path c) fs)) = (contents fs)(links fs (target_path c) := snapshot c)"
    by (simp add: same_host_def)
qed

section \<open>Transactions\<close>

lemma find_target:
  assumes r: "restorable cs fs" and y: "y \<in> set cs"
  shows "find (\<lambda>c. path_eq (target_path c) (target_path y)) cs = Some y"
proof (cases "find (\<lambda>c. path_eq (target_path c) (target_path y)) cs")
  case None
  then show ?thesis using y by (auto simp: find_None_iff path_eq_def)
next
  case (Some z)
  then have z: "z \<in> set cs" "path_eq (target_path z) (target_path y)" by (auto simp: find_Some_iff)
  then have "links fs (target_path z) = links fs (target_path y)"
    using r unfolding restorable_def links_respect_def by blast
  moreover have "inj_on (\<lambda>c. links fs (target_path c)) (set cs)"
    using r by (simp add: restorable_def distinct_map)
  ultimately have "z = y" using z(1) y by (meson inj_onD)
  then show ?thesis using Some by simp
qed

lemma rollback_steps:
  assumes "restorable (changes tx) fs0" "set ys \<subseteq> set (changes tx)"
  shows "snd (foldl (rollback_step tx) (rep, fs) (map target_path ys)) =
    fold (\<lambda>c fs. snd (restore_one c (target_path c) fs)) ys fs"
  using assms(2)
proof (induction ys arbitrary: rep fs)
  case Nil
  then show ?case by simp
next
  case (Cons y ys)
  then have f: "find (\<lambda>c. path_eq (target_path c) (target_path y)) (changes tx) = Some y"
    using find_target [OF assms(1)] by simp
  obtain x fs1 where x: "restore_one y (target_path y) fs = (x, fs1)" by (rule prod.exhaust)
  obtain rep1 where "rollback_step tx (rep, fs) (target_path y) = (rep1, fs1)"
    by (cases x) (simp_all add: rollback_step_def f x)
  then show ?case using Cons by (simp add: x)
qed

lemma rollback_changes_fold:
  assumes "restorable (changes tx) fs0" "set xs \<subseteq> set (changes tx)"
  shows "snd (rollback_changes tx (map target_path xs) fs) =
    fold (\<lambda>c fs. snd (restore_one c (target_path c) fs)) (rev xs) fs"
  using rollback_steps [OF assms(1), of "rev xs"] assms(2) by (simp add: rollback_changes_def rev_map)

abbreviation applies :: "ChangeEngine \<Rightarrow> PreparedChange \<Rightarrow> FileSystem \<Rightarrow> FileSystem \<Rightarrow> bool" where
  "applies eng c fs fs' \<equiv> \<exists>m. ChangeEngine_apply eng c fs = (Ok m, fs')"

lemma apply_pass_spec:
  assumes r: "restorable (changes tx) fs0"
  shows "set (xs @ ys) \<subseteq> set (changes tx) \<Longrightarrow> chain (applies eng) xs fs0 fs \<Longrightarrow>
    apply_pass eng tx ys (map target_path xs) nf fs = (res, fs') \<Longrightarrow>
    (\<forall>rep. res = Ok rep \<longrightarrow> chain (applies eng) (xs @ ys) fs0 fs' \<and> report_applied rep = map target_path (xs @ ys)) \<and>
    (\<forall>e. res = Err e \<longrightarrow> contents fs' = contents fs0)"
proof (induction ys arbitrary: xs nf fs)
  case Nil
  then show ?case by auto
next
  case (Cons c ys)
  obtain a fs1 where a: "ChangeEngine_apply eng c fs = (a, fs1)" by (rule prod.exhaust)
  show ?case
  proof (cases a)
    case (Ok m)
    have "chain (applies eng) (xs @ [c]) fs0 fs1" using Cons.prems(2) a Ok by (auto simp: chain_snoc)
    with Cons.IH [of "xs @ [c]" fs1 "if created c then nf @ [target_path c] else nf"] Cons.prems a Ok
    show ?thesis by simp
  next
    case (Err e)
    obtain rb fs2 where rb: "rollback_changes tx (map target_path xs) fs1 = (rb, fs2)" by (rule prod.exhaust)
    have fs': "fs' = fs2 \<and> (\<forall>rep. res \<noteq> Ok rep)" using Cons.prems(3) a Err rb by auto
    have sub: "set xs \<subseteq> set (changes tx)" and c: "c \<in> set (changes tx)" using Cons.prems(1) by auto
    have "\<exists>r. ChangeEngine_apply eng c fs = (r, fs1) \<and> (\<forall>m. r \<noteq> Ok m)" using a Err by auto
    from tx.all_or_nothing [OF r sub c Cons.prems(2) this]
    have "contents fs2 = contents fs0" using rollback_changes_fold [OF r sub, of fs1] rb by simp
    then show ?thesis using fs' by simp
  next
    case Panics
    then show ?thesis using Cons.prems(3) a by auto
  next
    case Diverges
    then show ?thesis using Cons.prems(3) a by auto
  qed
qed

lemma fold_updates_other:
  "l \<notin> g ` set cs \<Longrightarrow> fold (\<lambda>c v. v(g c := h c)) cs v l = v l"
  by (induction cs arbitrary: v) auto

lemma fold_updates_at:
  "distinct (map g cs) \<Longrightarrow> c \<in> set cs \<Longrightarrow> fold (\<lambda>c v. v(g c := h c)) cs v (g c) = h c"
proof (induction cs arbitrary: v)
  case (Cons d cs)
  show ?case
  proof (cases "c \<in> set cs")
    case True
    then show ?thesis using Cons by (simp del: fun_upd_apply)
  next
    case False
    then have "c = d" "g d \<notin> g ` set cs" using Cons.prems by auto
    then show ?thesis using fold_updates_other [of "g d" g cs h "v(g d := h d)"] by (simp del: fun_upd_apply) simp
  qed
qed simp

section \<open>A transaction returns\<close>

lemma reconstruct_returns: "\<exists>s. reconstruct_from_patch old (create_patch path old new) = Ok s"
  by (simp add: reconstruct_from_patch_def create_patch_def parse_hunks_diff)

lemma apply_returns:
  assumes "links_respect fs" "fs_exists fs ''/''" "absolute_path (target_path c)"
    and "ChangeEngine_apply eng c fs = (r, fs')"
  shows "r \<noteq> Panics \<and> r \<noteq> Diverges"
proof -
  note s = symlink_safe_returns [OF assms(1-3), of "workspace_root eng"]
  have cur: "current_content fs c \<noteq> Panics \<and> current_content fs c \<noteq> Diverges"
    by (auto simp: current_content_def split: sum.splits)
  show ?thesis
  proof (cases "ensure_symlink_safe fs (workspace_root eng) (target_path c) = Ok () \<and> current_content fs c = Ok (backup c)")
    case False
    let ?b = "outcome_bind (ensure_symlink_safe fs (workspace_root eng) (target_path c)) (\<lambda>_. current_content fs c)"
    have "?b \<noteq> Ok (backup c)" using False by (auto simp: outcome_bind_Ok)
    moreover have "?b \<noteq> Panics" "?b \<noteq> Diverges"
      using s cur by (simp_all add: outcome_bind_Panics outcome_bind_Diverges)
    ultimately show ?thesis using assms(4) by (cases ?b) (auto simp: ChangeEngine_apply_def)
  next
    case True
    show ?thesis
    proof (cases "created c")
      case c: True
      have "create_file eng c fs = (r, fs')" using assms(4) True c by (simp add: ChangeEngine_apply_def)
      then show ?thesis using True by (auto simp: create_file_def split: prod.splits sum.splits option.splits if_splits)
    next
      case c: False
      then have rd: "fs_read_to_string fs (target_path c) = Inr (backup c)"
        using True by (auto simp: current_content_def split: sum.splits)
      obtain t where t: "reconstruct_from_patch (backup c) (create_patch (target_path c) (backup c) (full_new c)) = Ok t"
        using reconstruct_returns by blast
      have pp: "patch_path (create_patch (target_path c) (backup c) (full_new c)) = target_path c"
        by (simp add: create_patch_def)
      have "PatchEngine_apply (create_patch (target_path c) (backup c) (full_new c)) False fs = (r, fs')"
        using apply_reaches_patch [of fs eng c] True c assms(4) by simp
      then show ?thesis by (auto simp: PatchEngine_apply_def pp rd t split: if_splits prod.splits sum.splits)
    qed
  qed
qed

lemma create_dir_all_keeps: "fs_create_dir_all d fs = (r, fs') \<Longrightarrow> directories fs l \<Longrightarrow> directories fs' l"
  by (auto simp: fs_create_dir_all_def Let_def split: option.splits if_splits)

lemma apply_keeps_directories:
  assumes "ChangeEngine_apply eng c fs = (r, fs')" "directories fs l"
  shows "directories fs' l"
  using assms(1)
proof (cases rule: apply_cases)
  case create
  obtain x fs1 where x: "(case path_parent (target_path c) of
      Some d \<Rightarrow> if d \<noteq> [] then fs_create_dir_all d fs else (Inr (), fs) | None \<Rightarrow> (Inr (), fs)) = (x, fs1)"
    by (rule prod.exhaust)
  obtain w fs2 where w: "fs_write (target_path c) (full_new c) fs1 = (w, fs2)" by (rule prod.exhaust)
  have "fs' = fs1 \<or> fs' = fs2" using create x w by (auto simp: create_file_def split: sum.splits)
  moreover have "directories fs1 l"
    using x assms(2) create_dir_all_keeps [of _ fs x fs1 l] by (auto split: option.splits if_splits)
  ultimately show ?thesis using fs_write_directories [OF w] by auto
next
  case patch
  then show ?thesis using PatchEngine_apply_frame [OF patch(4)] assms(2) by auto
qed (simp add: assms(2))

lemma apply_pass_returns:
  assumes "links_respect fs" "directories fs (links fs ''/'')" "\<forall>c \<in> set cs. absolute_path (target_path c)"
    and "apply_pass eng tx cs paths nf fs = (r, fs')"
  shows "r \<noteq> Panics \<and> r \<noteq> Diverges"
  using assms
proof (induction cs arbitrary: paths nf fs)
  case Nil
  then show ?case by auto
next
  case (Cons c cs)
  obtain a fs1 where a: "ChangeEngine_apply eng c fs = (a, fs1)" by (rule prod.exhaust)
  have "fs_exists fs ''/''" using Cons.prems(2) by (simp add: fs_exists_def)
  from apply_returns [OF Cons.prems(1) this _ a] Cons.prems(3) have ok: "a \<noteq> Panics \<and> a \<noteq> Diverges" by simp
  have h: "same_host fs fs1" using apply_frame [OF a] by blast
  have l: "links fs1 = links fs" using h by (simp add: same_host_def)
  have "directories fs1 (links fs1 ''/'')" using apply_keeps_directories [OF a Cons.prems(2)] by (simp add: l)
  then show ?case
    using Cons.IH [of fs1] Cons.prems(1,3,4) a ok links_respect_same [OF h]
    by (cases a) (auto split: prod.splits)
qed

section \<open>Properties\<close>

lemma show_nat_0: "show_nat 0 = ''0''"
  by (simp add: show_nat.simps digit_char_def char_of_def bit_simps)

lemma conflict_pass_returns: "conflict_pass fs cs \<noteq> Panics \<and> conflict_pass fs cs \<noteq> Diverges"
  by (induction cs) (auto split: sum.splits)

text \<open>C1: a transaction is all or nothing. When the targets are separate plain files, failing writes
  fail at the open and restoring meets no fault, applying a transaction returns; on success
  every target holds its new content, the report lists the targets in order and no other
  location changed, and on failure the contents are exactly those from before.\<close>

theorem transaction_all_or_nothing:
  assumes "restorable (changes tx) fs" "directories fs (links fs ''/'')"
    and "\<forall>c \<in> set (changes tx). absolute_path (target_path c)"
  shows "case apply_transaction eng tx fs of
      (Ok rep, fs') \<Rightarrow>
        report_applied rep = map target_path (changes tx) \<and>
        (\<forall>c \<in> set (changes tx). contents fs' (links fs (target_path c)) = Some (full_new c)) \<and>
        (\<forall>l. l \<in> (\<lambda>c. links fs (target_path c)) ` set (changes tx) \<or> contents fs' l = contents fs l)
    | (Err e, fs') \<Rightarrow> contents fs' = contents fs
    | (Panics, fs') \<Rightarrow> False
    | (Diverges, fs') \<Rightarrow> False"
proof (cases "conflict_pass fs (changes tx)")
  case (Ok u)
  obtain r fs' where p: "apply_pass eng tx (changes tx) [] [] fs = (r, fs')" by (rule prod.exhaust)
  have a: "apply_transaction eng tx fs = (r, fs')" using Ok p by (simp add: apply_transaction_def)
  have ret: "r \<noteq> Panics \<and> r \<noteq> Diverges"
    using apply_pass_returns [OF _ assms(2,3) p] assms(1) by (simp add: restorable_def)
  note spec = apply_pass_spec [OF assms(1), of "[]" "changes tx" eng fs "[]" r fs', simplified, OF p]
  show ?thesis
  proof (cases r)
    case (Ok rep)
    then have c: "chain (applies eng) (changes tx) fs fs'" "report_applied rep = map target_path (changes tx)"
      using spec by simp_all
    have v: "contents fs' = fold (\<lambda>c v. v(links fs (target_path c) := Some (full_new c))) (changes tx) (contents fs)"
      using tx.chain_good [OF assms(1) subset_refl c(1)] by blast
    have "distinct (map (\<lambda>c. links fs (target_path c)) (changes tx))" using assms(1) by (simp add: restorable_def)
    note at = fold_updates_at [OF this, of _ "\<lambda>c. Some (full_new c)" "contents fs"]
    note other = fold_updates_other [of _ "\<lambda>c. links fs (target_path c)" "changes tx" "\<lambda>c. Some (full_new c)" "contents fs"]
    have "\<forall>c \<in> set (changes tx). contents fs' (links fs (target_path c)) = Some (full_new c)" using at v by simp
    moreover have "\<forall>l. l \<in> (\<lambda>c. links fs (target_path c)) ` set (changes tx) \<or> contents fs' l = contents fs l"
      using other v by metis
    ultimately show ?thesis unfolding a using Ok c(2) by simp
  qed (use a spec ret in auto)
qed (use conflict_pass_returns [of fs "changes tx"] in \<open>auto simp: apply_transaction_def\<close>)

definition sample_create :: "string \<Rightarrow> PreparedChange" where
  "sample_create after = \<lparr>target_path = ''/w/b'', created = True, unplanned = False, change_preview = [],
     backup = [], old_text = [], new_text = after, full_new = after\<rparr>"

definition faulty_fs :: "string \<Rightarrow> nat option \<Rightarrow> FileSystem" where
  "faulty_fs p n = (sample_fs [(''/w/a'', ''x'')])
     \<lparr>write_faults := [p \<mapsto> (IoError OtherIo ''No space left on device (os error 28)'', n)]\<rparr>"

lemma faulty_host:
  "links (faulty_fs q n) = links (sample_fs [])" "contents (faulty_fs q n) = [''/w/a'' \<mapsto> ''x'']"
  "directories (faulty_fs q n) = directories (sample_fs [])" "atomic_faults (faulty_fs q n) p = None"
  "remove_faults (faulty_fs q n) p = None" "mkdir_faults (faulty_fs q n) p = None"
  "read_faults (faulty_fs q n) p = None"
  "write_faults (faulty_fs q n) = [q \<mapsto> (IoError OtherIo ''No space left on device (os error 28)'', n)]"
  by (simp_all add: faulty_fs_def sample_fs_def fun_eq_iff)

lemma transaction_all_or_nothing_witness:
  "case apply_transaction sample_engine \<lparr>changes = [sample_change ''x'' ''y'', sample_create ''z'']\<rparr> (faulty_fs ''/w/b'' None) of
      (Ok rep, fs') \<Rightarrow> contents fs' ''/w/a'' = Some ''y'' \<and> contents fs' ''/w/b'' = Some ''z''
    | (Err e, fs') \<Rightarrow> contents fs' = [''/w/a'' \<mapsto> ''x'']
    | (Panics, fs') \<Rightarrow> False
    | (Diverges, fs') \<Rightarrow> False"
proof -
  let ?tx = "\<lparr>changes = [sample_change ''x'' ''y'', sample_create ''z'']\<rparr>" and ?fs = "faulty_fs ''/w/b'' None"
  have l: "links ?fs ''/w/a'' = ''/w/a''" "links ?fs ''/w/b'' = ''/w/b''" "links ?fs ''/'' = ''/''" "links ?fs ''/w'' = ''/w''"
    by (simp_all add: faulty_host sample_host sample_components sample_render components_root)
  have d: "restore_dir ''/w/a'' = ''/w''" "restore_dir ''/w/b'' = ''/w''" by (simp_all add: restore_dir_def sample_parent)
  have e: "entry_location ?fs ''/w/a'' = ''/w/a''" "entry_location ?fs ''/w/b'' = ''/w/b''"
    by (simp_all add: entry_location_def sample_parent l path_join_def absolute_path_def)
  have "links_respect ?fs" using sample_links_respect [of "[]"] by (simp add: links_respect_def faulty_host)
  then have r: "restorable (changes ?tx) ?fs"
    by (simp add: restorable_def sample_change_def sample_create_def l d e plain_path_def ancestor_locations_def
        sample_ancestors faulty_host(2-8) sample_host(7))
  have "directories ?fs (links ?fs ''/'')" unfolding l by (simp add: faulty_host sample_host)
  from transaction_all_or_nothing [OF r this, of sample_engine]
  have "case apply_transaction sample_engine ?tx ?fs of
      (Ok rep, fs') \<Rightarrow> contents fs' ''/w/a'' = Some ''y'' \<and> contents fs' ''/w/b'' = Some ''z''
    | (Err e, fs') \<Rightarrow> contents fs' = contents ?fs
    | (Panics, fs') \<Rightarrow> False
    | (Diverges, fs') \<Rightarrow> False"
    by (auto simp: sample_change_def sample_create_def l absolute_path_def split: prod.splits outcome.splits)
  then show ?thesis unfolding faulty_host(2) .
qed

text \<open>C39: a file whose own write fails part of the way is not restored. A transaction of one edit whose
  write stops after \<open>n\<close> bytes reports a rollback without failures, and the file holds the first
  \<open>n\<close> bytes of the new content instead of its earlier content.\<close>

theorem partial_write_not_rolled_back:
  assumes "ensure_symlink_safe fs (workspace_root eng) (target_path c) = Ok ()" "\<not> created c"
    and "fs_read_to_string fs (target_path c) = Inr (backup c)" "\<not> directories fs (links fs (target_path c))"
    and "reconstruct_from_patch (backup c) (create_patch (target_path c) (backup c) (full_new c)) = Ok (full_new c)"
    and "write_faults fs (target_path c) = Some (e, Some n)"
  shows "apply_transaction eng \<lparr>changes = [c]\<rparr> fs =
    (Err (Patch (''transaction failed at '' @ quoted (target_path c) @ '': Patch error: Failed to write file: '' @
       io_text e @ ''; rolled back 0 file(s)'')),
     fs\<lparr>contents := (contents fs)(links fs (target_path c) \<mapsto> take n (full_new c))\<rparr>)"
proof -
  let ?fs' = "fs\<lparr>contents := (contents fs)(links fs (target_path c) \<mapsto> take n (full_new c))\<rparr>"
  have ne: "contents fs (links fs (target_path c)) \<noteq> None"
    using assms(3) by (auto simp: fs_read_to_string_def split: option.splits)
  have w: "fs_write (target_path c) (full_new c) fs = (Inl e, ?fs')"
    using assms(4,6) ne by (auto simp: fs_write_def Let_def)
  have pe: "PatchEngine_apply (create_patch (target_path c) (backup c) (full_new c)) False fs =
      (Err (Patch (''Failed to write file: '' @ io_text e)), ?fs')"
    using assms(3,5) w by (simp add: PatchEngine_apply_def create_patch_def)
  have cur: "current_content fs c = Ok (backup c)" using assms(2,3) by (simp add: current_content_def)
  have "ChangeEngine_apply eng c fs = (Err (Patch (''Failed to write file: '' @ io_text e)), ?fs')"
    using apply_reaches_patch [OF assms(1) cur assms(2)] pe by simp
  then show ?thesis
    using assms(2,3)
    by (simp add: apply_transaction_def rollback_changes_def rollback_detail_def RollbackReport_complete_def show_nat_0)
qed

lemma partial_write_not_rolled_back_witness:
  "contents (snd (apply_transaction sample_engine \<lparr>changes = [sample_change ''x'' ''y'']\<rparr> (faulty_fs ''/w/a'' (Some 0))))
     ''/w/a'' = Some []"
proof -
  let ?fs = "faulty_fs ''/w/a'' (Some 0)" and ?c = "sample_change ''x'' ''y''"
  have l: "links ?fs ''/w/a'' = ''/w/a''" by (simp add: faulty_host sample_host sample_components sample_render)
  have s: "ensure_symlink_safe ?fs (workspace_root sample_engine) (target_path ?c) = Ok ()"
    by (simp add: sample_engine_def sample_change_def ensure_symlink_safe_def canonical_candidate_def
        canonical_workspace_def fs_canonicalize_def fs_exists_def faulty_host sample_host sample_components
        sample_render path_starts_with_def)
  have "fs_read_to_string ?fs (target_path ?c) = Inr (backup ?c)"
    by (simp add: sample_change_def fs_read_to_string_def l faulty_host(2,7) valid_utf8_ascii)
  moreover have "\<not> directories ?fs (links ?fs (target_path ?c))"
    by (simp add: sample_change_def l faulty_host(3) sample_host)
  moreover have "reconstruct_from_patch (backup ?c) (create_patch (target_path ?c) (backup ?c) (full_new ?c)) = Ok (full_new ?c)"
    by (simp add: sample_change_def sample_reconstruct)
  moreover have "write_faults ?fs (target_path ?c) = Some (IoError OtherIo ''No space left on device (os error 28)'', Some 0)"
    by (simp add: sample_change_def faulty_host(8))
  moreover have "\<not> created ?c" by (simp add: sample_change_def)
  ultimately show ?thesis
    using partial_write_not_rolled_back [OF s] by (simp add: sample_change_def l)
qed

text \<open>The duplicate check compares request texts. Two requests that spell one path in two ways are
  prepared as two changes of one file.\<close>

theorem alias_targets_prepared:
  "\<exists>c d. prepare_changes (sample_fs [(''/w/a'', ''x'')]) sample_engine
       [\<lparr>request_path = ''a'', request_old = ''x'', request_new = ''y''\<rparr>,
        \<lparr>request_path = ''./a'', request_old = ''x'', request_new = ''z''\<rparr>] = Ok \<lparr>changes = [c, d]\<rparr> \<and>
     path_eq (target_path c) (target_path d) \<and> full_new c = ''y'' \<and> full_new d = ''z''"
proof -
  let ?fs = "sample_fs [(''/w/a'', ''x'')]"
  have m: "matches_count ''x'' ''x'' = 1" by (simp add: matches_count.simps starts_with_str_def)
  have r: "fs_read_to_string ?fs p = Inr ''x''" "fs_exists ?fs p" if "p \<in> {''/w/a'', ''/w/./a''}" for p
    using that by (auto intro!: sample_read sample_exists)
  have "ChangeEngine_resolve ?fs sample_engine ''a'' = Ok ''/w/a''"
    "ChangeEngine_resolve ?fs sample_engine ''./a'' = Ok ''/w/./a''" by (simp_all add: sample_resolve)
  then show ?thesis
    by (simp add: prepare_changes_def ChangeEngine_prepare_def sample_engine_def r prepare_existing_def m
        ChangePlan_propose_between_def Let_def starts_with_str_def path_eq_def sample_components)
qed

end
