(* ===== verification/Rust_Values.thy ===== *)
theory Rust_Values
  imports Rust_Text Complex_Main
begin

text \<open>
  Values of the Rust language that the runtimes use beside strings and vectors: \<open>f64\<close> with the
  comparisons of IEEE 754, saturating \<open>u64\<close> subtraction, sorting by a comparator, hash maps as
  association lists, and calls that return, fail or panic.

  A finite \<open>f64\<close> is its rational value (the two zeros compare equal and are identified).
  Arithmetic and literals are rounded by a parameter of type \<open>rat \<Rightarrow> f64\<close>; \<open>ieee_rounding\<close> says what is
  relied on. \<open>slice::sort_by\<close> is the stable sort when the comparator is a total order on the
  elements; otherwise its documentation allows any order or a panic, and the result is a
  parameter.
\<close>

section \<open>Calls\<close>

datatype ('e, 'a) call = Returned 'a | Raised 'e | Panicked

fun call_bind :: "('e, 'a) call \<times> 's \<Rightarrow> ('a \<Rightarrow> 's \<Rightarrow> ('e, 'b) call \<times> 's) \<Rightarrow> ('e, 'b) call \<times> 's" where
  "call_bind (Returned x, s) f = f x s"
| "call_bind (Raised e, s) f = (Raised e, s)"
| "call_bind (Panicked, s) f = (Panicked, s)"

lemma call_bind_Returned:
  "call_bind r f = (Returned y, s') \<longleftrightarrow> (\<exists>x s. r = (Returned x, s) \<and> f x s = (Returned y, s'))"
  by (cases "(r, f)" rule: call_bind.cases) auto

section \<open>Floating point\<close>

datatype f64 = NaN | NegInf | Fin rat | PosInf

fun f64_lt :: "f64 \<Rightarrow> f64 \<Rightarrow> bool" where
  "f64_lt NaN y = False"
| "f64_lt x NaN = False"
| "f64_lt x NegInf = False"
| "f64_lt NegInf y = True"
| "f64_lt PosInf y = False"
| "f64_lt x PosInf = True"
| "f64_lt (Fin a) (Fin b) = (a < b)"

definition f64_eq :: "f64 \<Rightarrow> f64 \<Rightarrow> bool" where
  "f64_eq x y \<longleftrightarrow> x \<noteq> NaN \<and> x = y"

definition f64_ge :: "f64 \<Rightarrow> f64 \<Rightarrow> bool" where
  "f64_ge x y \<longleftrightarrow> f64_lt y x \<or> f64_eq x y"

definition f64_partial_cmp :: "f64 \<Rightarrow> f64 \<Rightarrow> cmp_ordering option" where
  "f64_partial_cmp x y =
     (if x = NaN \<or> y = NaN then None else Some (if f64_lt x y then Less else if x = y then Equal else Greater))"

text \<open>\<^verbatim>\<open>x.partial_cmp(&y).unwrap_or(Ordering::Equal)\<close>.\<close>

definition f64_cmp_or_equal :: "f64 \<Rightarrow> f64 \<Rightarrow> cmp_ordering" where
  "f64_cmp_or_equal x y = (case f64_partial_cmp x y of None \<Rightarrow> Equal | Some c \<Rightarrow> c)"

definition f64_clamp :: "f64 \<Rightarrow> f64 \<Rightarrow> f64 \<Rightarrow> f64" where
  "f64_clamp lo hi x = (if f64_lt x lo then lo else if f64_lt hi x then hi else x)"

text \<open>The order of the standard library on values that are not NaN, with NaN put below.\<close>

instantiation f64 :: linorder
begin

definition less_f64 :: "f64 \<Rightarrow> f64 \<Rightarrow> bool" where
  "less_f64 x y \<longleftrightarrow> f64_lt x y \<or> x = NaN \<and> y \<noteq> NaN"

definition less_eq_f64 :: "f64 \<Rightarrow> f64 \<Rightarrow> bool" where
  "less_eq_f64 x y \<longleftrightarrow> x < y \<or> x = (y :: f64)"

lemma f64_lt_irrefl: "\<not> f64_lt x x"
  by (cases x) auto

lemma f64_lt_trans: "f64_lt x y \<Longrightarrow> f64_lt y z \<Longrightarrow> f64_lt x z"
  by (cases x; cases y; cases z) auto

lemma f64_lt_total: "x \<noteq> NaN \<Longrightarrow> y \<noteq> NaN \<Longrightarrow> f64_lt x y \<or> x = y \<or> f64_lt y x"
  by (cases x; cases y) auto

lemma f64_lt_NaN [simp]: "f64_lt x NaN \<longleftrightarrow> False"
  by (cases x) auto

instance
proof
  fix x y z :: f64
  show "x < y \<longleftrightarrow> x \<le> y \<and> \<not> y \<le> x"
    using f64_lt_irrefl f64_lt_trans by (auto simp: less_f64_def less_eq_f64_def)
  show "x \<le> x" by (simp add: less_eq_f64_def)
  show "x \<le> y \<Longrightarrow> y \<le> z \<Longrightarrow> x \<le> z"
    using f64_lt_trans by (auto simp: less_f64_def less_eq_f64_def)
  show "x \<le> y \<Longrightarrow> y \<le> x \<Longrightarrow> x = y"
    using f64_lt_irrefl f64_lt_trans by (auto simp: less_f64_def less_eq_f64_def)
  show "x \<le> y \<or> y \<le> x"
    using f64_lt_total by (auto simp: less_f64_def less_eq_f64_def)
qed

end

lemma f64_lt_less: "y \<noteq> NaN \<Longrightarrow> x \<noteq> NaN \<Longrightarrow> f64_lt x y \<longleftrightarrow> x < y"
  by (auto simp: less_f64_def)

lemma f64_cmp_or_equal_cmp: "x \<noteq> NaN \<Longrightarrow> y \<noteq> NaN \<Longrightarrow> f64_cmp_or_equal x y = cmp x y"
  by (simp add: f64_cmp_or_equal_def f64_partial_cmp_def cmp_def f64_lt_less)

lemma Fin_le_iff [simp]: "Fin a \<le> Fin b \<longleftrightarrow> a \<le> b"
  by (auto simp: less_eq_f64_def less_f64_def)

lemma Fin_less_iff [simp]: "Fin a < Fin b \<longleftrightarrow> a < b"
  by (simp add: less_f64_def)

lemma NaN_le [simp]: "NaN \<le> x"
  by (auto simp: less_eq_f64_def less_f64_def)

lemma le_NaN [simp]: "x \<le> NaN \<longleftrightarrow> x = NaN"
  by (auto simp: less_eq_f64_def less_f64_def)

lemma f64_between:
  assumes "Fin a \<le> x" "x \<le> Fin b"
  obtains c where "x = Fin c" "a \<le> c" "c \<le> b"
  using assms by (cases x) (auto simp: less_eq_f64_def less_f64_def)

lemma clamp_NaN [simp]: "f64_clamp lo hi NaN = NaN"
  by (simp add: f64_clamp_def)

lemma clamp_bounds: "x \<noteq> NaN \<Longrightarrow> lo \<noteq> NaN \<Longrightarrow> hi \<noteq> NaN \<Longrightarrow> lo \<le> hi \<Longrightarrow> lo \<le> f64_clamp lo hi x \<and> f64_clamp lo hi x \<le> hi"
  by (auto simp: f64_clamp_def f64_lt_less)

lemma clamp_id: "lo \<noteq> NaN \<Longrightarrow> lo \<le> x \<Longrightarrow> x \<le> hi \<Longrightarrow> f64_clamp lo hi x = x"
  by (cases "x = NaN"; cases "hi = NaN") (auto simp: f64_clamp_def f64_lt_less)

lemma clamp_mono: "x \<noteq> NaN \<Longrightarrow> y \<noteq> NaN \<Longrightarrow> lo \<noteq> NaN \<Longrightarrow> hi \<noteq> NaN \<Longrightarrow> lo \<le> hi \<Longrightarrow> x \<le> y \<Longrightarrow>
   f64_clamp lo hi x \<le> f64_clamp lo hi y"
  by (auto simp: f64_clamp_def f64_lt_less)

subsection \<open>Rounded arithmetic\<close>

definition ieee_rounding :: "(rat \<Rightarrow> f64) \<Rightarrow> bool" where
  "ieee_rounding rnd \<longleftrightarrow> mono rnd \<and> rnd 0 = Fin 0 \<and> rnd 1 = Fin 1"

fun f64_mul :: "(rat \<Rightarrow> f64) \<Rightarrow> f64 \<Rightarrow> f64 \<Rightarrow> f64" where
  "f64_mul rnd (Fin a) (Fin b) = rnd (a * b)"
| "f64_mul rnd NaN y = NaN"
| "f64_mul rnd x NaN = NaN"
| "f64_mul rnd (Fin a) y = (if a = 0 then NaN else if (a > 0) = (y = PosInf) then PosInf else NegInf)"
| "f64_mul rnd x (Fin b) = (if b = 0 then NaN else if (b > 0) = (x = PosInf) then PosInf else NegInf)"
| "f64_mul rnd x y = (if x = y then PosInf else NegInf)"

lemma rnd_unit:
  assumes "ieee_rounding rnd" "0 \<le> x" "x \<le> 1"
  obtains c where "rnd x = Fin c" "0 \<le> c" "c \<le> 1"
proof (rule f64_between [of 0 "rnd x" 1])
  have "rnd 0 \<le> rnd x" "rnd x \<le> rnd 1" using assms unfolding ieee_rounding_def by (blast intro: monoD)+
  then show "Fin 0 \<le> rnd x" "rnd x \<le> Fin 1" using assms(1) by (simp_all add: ieee_rounding_def)
qed (use that in blast)

lemma rnd_mono: "ieee_rounding rnd \<Longrightarrow> a \<le> b \<Longrightarrow> rnd a \<le> rnd b"
  unfolding ieee_rounding_def by (blast intro: monoD)

text \<open>Division, for a divisor that is not zero (the model has one zero), and \<^verbatim>\<open>as usize\<close>, which truncates and saturates.\<close>

fun f64_div :: "(rat \<Rightarrow> f64) \<Rightarrow> f64 \<Rightarrow> f64 \<Rightarrow> f64" where
  "f64_div rnd (Fin a) (Fin b) = rnd (a / b)"
| "f64_div rnd NaN y = NaN"
| "f64_div rnd x NaN = NaN"
| "f64_div rnd (Fin a) y = Fin 0"
| "f64_div rnd x (Fin b) = (if (b > 0) = (x = PosInf) then PosInf else NegInf)"
| "f64_div rnd x y = NaN"

fun f64_to_usize :: "f64 \<Rightarrow> nat" where
  "f64_to_usize (Fin a) = min (nat \<lfloor>a\<rfloor>) (2 ^ 64 - 1)"
| "f64_to_usize PosInf = 2 ^ 64 - 1"
| "f64_to_usize x = 0"

text \<open>Rounding to multiples of a power of two is an instance, and so is no rounding at all.\<close>

definition fixed_rounding :: "rat \<Rightarrow> f64" where
  "fixed_rounding x = Fin (of_int (round (x * 2 ^ 53)) / 2 ^ 53)"

lemma fixed_rounding_ieee: "ieee_rounding fixed_rounding"
  unfolding ieee_rounding_def fixed_rounding_def
proof (intro conjI)
  show "mono (\<lambda>x :: rat. Fin (of_int (round (x * 2 ^ 53)) / 2 ^ 53))"
    by (intro monoI) (simp add: round_mono divide_right_mono)
  show "Fin (of_int (round ((0 :: rat) * 2 ^ 53)) / 2 ^ 53) = Fin 0" by simp
  have "round ((1 :: rat) * 2 ^ 53) = 2 ^ 53" using round_of_int [of "2 ^ 53 :: int"] by simp
  then show "Fin (of_int (round ((1 :: rat) * 2 ^ 53)) / 2 ^ 53) = Fin 1" by simp
qed

section \<open>Saturating subtraction\<close>

definition saturating_sub :: "64 word \<Rightarrow> 64 word \<Rightarrow> 64 word" where
  "saturating_sub a b = (if a < b then 0 else a - b)"

lemma unat_saturating_sub: "unat (saturating_sub a b) = unat a - unat b"
  by (auto simp: saturating_sub_def unat_sub word_less_nat_alt not_less word_le_nat_alt)

section \<open>Sorting by a comparator\<close>

fun swap_ordering :: "cmp_ordering \<Rightarrow> cmp_ordering" where
  "swap_ordering Less = Greater"
| "swap_ordering Equal = Equal"
| "swap_ordering Greater = Less"

definition then_with :: "cmp_ordering \<Rightarrow> cmp_ordering \<Rightarrow> cmp_ordering" where
  "then_with a b = (if a = Equal then b else a)"

fun insert_by :: "('a \<Rightarrow> 'a \<Rightarrow> cmp_ordering) \<Rightarrow> 'a \<Rightarrow> 'a list \<Rightarrow> 'a list" where
  "insert_by c x [] = [x]"
| "insert_by c x (y # ys) = (if c x y = Greater then y # insert_by c x ys else x # y # ys)"

definition stable_sort :: "('a \<Rightarrow> 'a \<Rightarrow> cmp_ordering) \<Rightarrow> 'a list \<Rightarrow> 'a list" where
  "stable_sort c xs = foldr (insert_by c) xs []"

definition total_cmp_on :: "('a \<Rightarrow> 'a \<Rightarrow> cmp_ordering) \<Rightarrow> 'a list \<Rightarrow> bool" where
  "total_cmp_on c xs \<longleftrightarrow>
     list_all (\<lambda>x. list_all (\<lambda>y. c y x = swap_ordering (c x y) \<and>
       list_all (\<lambda>z. c x y \<noteq> Greater \<and> c y z \<noteq> Greater \<longrightarrow> c x z \<noteq> Greater) xs) xs) xs"

text \<open>\<open>unordered\<close> is the result on a slice the comparator does not order; \<open>None\<close> is a panic.\<close>

definition slice_sort_by :: "('a list \<Rightarrow> 'a list option) \<Rightarrow> ('a \<Rightarrow> 'a \<Rightarrow> cmp_ordering) \<Rightarrow> 'a list \<Rightarrow> 'a list option" where
  "slice_sort_by unordered c xs = (if total_cmp_on c xs then Some (stable_sort c xs) else unordered xs)"

lemma swap_ordering_simps [simp]:
  "swap_ordering c = Greater \<longleftrightarrow> c = Less" "swap_ordering c = Less \<longleftrightarrow> c = Greater" "swap_ordering c = Equal \<longleftrightarrow> c = Equal"
  by (cases c; simp)+

lemma total_cmp_onD:
  assumes "total_cmp_on c xs" "x \<in> set xs" "y \<in> set xs"
  shows "c y x = swap_ordering (c x y)"
    and "z \<in> set xs \<Longrightarrow> c x y \<noteq> Greater \<Longrightarrow> c y z \<noteq> Greater \<Longrightarrow> c x z \<noteq> Greater"
  using assms unfolding total_cmp_on_def list_all_iff by blast+

lemma total_cmp_onI:
  assumes "\<And>x y. x \<in> set xs \<Longrightarrow> y \<in> set xs \<Longrightarrow> c y x = swap_ordering (c x y)"
    and "\<And>x y z. x \<in> set xs \<Longrightarrow> y \<in> set xs \<Longrightarrow> z \<in> set xs \<Longrightarrow> c x y \<noteq> Greater \<Longrightarrow> c y z \<noteq> Greater \<Longrightarrow> c x z \<noteq> Greater"
  shows "total_cmp_on c xs"
  using assms unfolding total_cmp_on_def list_all_iff by blast

lemma total_cmp_on_subset: "total_cmp_on c xs \<Longrightarrow> set ys \<subseteq> set xs \<Longrightarrow> total_cmp_on c ys"
  unfolding total_cmp_on_def list_all_iff by blast

lemma mset_insert_by: "mset (insert_by c x xs) = add_mset x (mset xs)"
  by (induction xs) auto

lemma mset_stable_sort [simp]: "mset (stable_sort c xs) = mset xs"
  by (induction xs) (simp_all add: stable_sort_def mset_insert_by)

lemma set_stable_sort [simp]: "set (stable_sort c xs) = set xs"
  by (rule mset_eq_setD [OF mset_stable_sort])

lemma length_stable_sort [simp]: "length (stable_sort c xs) = length xs"
  by (rule mset_eq_length [OF mset_stable_sort])

lemma set_insert_by: "set (insert_by c x xs) = insert x (set xs)"
  by (induction xs) auto

lemma sorted_insert_by:
  assumes "total_cmp_on c (x # xs)" "sorted_wrt (\<lambda>a b. c a b \<noteq> Greater) xs"
  shows "sorted_wrt (\<lambda>a b. c a b \<noteq> Greater) (insert_by c x xs)"
  using assms
proof (induction xs)
  case (Cons y ys)
  have t: "total_cmp_on c (x # ys)" using Cons.prems(1) by (rule total_cmp_on_subset) auto
  show ?case
  proof (cases "c x y = Greater")
    case True
    then have "c y x \<noteq> Greater" using total_cmp_onD(1) [OF Cons.prems(1), of x y] by simp
    then show ?thesis using True Cons.IH [OF t] Cons.prems(2) by (auto simp: set_insert_by)
  next
    case False
    then have "c x z \<noteq> Greater" if "z \<in> set ys" for z
      using total_cmp_onD(2) [OF Cons.prems(1), of x y z] Cons.prems(2) that by auto
    then show ?thesis using False Cons.prems(2) by auto
  qed
qed simp

lemma sorted_stable_sort: "total_cmp_on c xs \<Longrightarrow> sorted_wrt (\<lambda>a b. c a b \<noteq> Greater) (stable_sort c xs)"
proof (induction xs)
  case (Cons x xs)
  have "total_cmp_on c xs" using Cons.prems by (rule total_cmp_on_subset) auto
  moreover have "total_cmp_on c (x # stable_sort c xs)" using Cons.prems by (rule total_cmp_on_subset) auto
  ultimately show ?case using Cons.IH by (simp add: stable_sort_def sorted_insert_by)
qed (simp add: stable_sort_def)

text \<open>A comparator that compares keys is a total order, and so is a descending one.\<close>

lemma total_cmp_on_cmp: "(\<And>x y. x \<in> set xs \<Longrightarrow> y \<in> set xs \<Longrightarrow> c x y = cmp (k x) (k y)) \<Longrightarrow> total_cmp_on c xs"
  by (rule total_cmp_onI) (auto simp: cmp_def split: if_splits)

lemma total_cmp_on_cmp_desc: "(\<And>x y. x \<in> set xs \<Longrightarrow> y \<in> set xs \<Longrightarrow> c x y = cmp (k y) (k x)) \<Longrightarrow> total_cmp_on c xs"
  by (rule total_cmp_onI) (auto simp: cmp_def split: if_splits)

text \<open>The first elements of a sorted slice are not greater than the rest.\<close>

lemma sorted_wrt_take_drop:
  "sorted_wrt P xs \<Longrightarrow> x \<in> set (take n xs) \<Longrightarrow> y \<in> set (drop n xs) \<Longrightarrow> P x y"
  by (metis append_take_drop_id sorted_wrt_append)

section \<open>Text search\<close>

text \<open>\<^verbatim>\<open>str::contains\<close> with a string pattern, and the position \<^verbatim>\<open>str::rfind\<close> returns.\<close>

definition occurs_in :: "string \<Rightarrow> string \<Rightarrow> bool" where
  "occurs_in pat s \<longleftrightarrow> list_ex (\<lambda>i. take (length pat) (drop i s) = pat) [0 ..< Suc (length s)]"

fun rfind_from :: "string \<Rightarrow> string \<Rightarrow> nat \<Rightarrow> nat option" where
  "rfind_from pat s 0 = None"
| "rfind_from pat s (Suc i) = (if take (length pat) (drop i s) = pat then Some i else rfind_from pat s i)"

definition rfind :: "string \<Rightarrow> string \<Rightarrow> nat option" where
  "rfind pat s = rfind_from pat s (Suc (length s))"

lemma rfind_from_Some: "rfind_from pat s n = Some i \<Longrightarrow> i < n \<and> take (length pat) (drop i s) = pat"
  by (induction n) (auto split: if_splits)

lemma rfind_bound:
  assumes "rfind pat s = Some i"
  shows "i + length pat \<le> length s"
proof -
  note f = rfind_from_Some [OF assms [unfolded rfind_def]]
  then have "length (take (length pat) (drop i s)) = length pat" by simp
  moreover have "i \<le> length s" using f by simp
  ultimately show ?thesis by (auto simp: min_def split: if_splits)
qed

text \<open>The positions at which a text may be cut (\<^verbatim>\<open>str::is_char_boundary\<close>): slicing elsewhere panics.
  ASCII case folding (\<^verbatim>\<open>to_ascii_lowercase\<close>) changes the letters A to Z only.\<close>

definition is_char_boundary :: "string \<Rightarrow> nat \<Rightarrow> bool" where
  "is_char_boundary s i \<longleftrightarrow> i = 0 \<or> i = length s \<or>
     (i < length s \<and> \<not> ((of_char (s ! i) :: nat) \<ge> 128 \<and> (of_char (s ! i) :: nat) < 192))"

definition str_slice_to :: "string \<Rightarrow> nat \<Rightarrow> string option" where
  "str_slice_to s i = (if is_char_boundary s i then Some (take i s) else None)"

definition ascii_lower :: "char \<Rightarrow> char" where
  "ascii_lower c = (if (of_char c :: nat) \<ge> 65 \<and> (of_char c :: nat) \<le> 90 then char_of ((of_char c :: nat) + 32) else c)"

abbreviation to_ascii_lowercase :: "string \<Rightarrow> string" where
  "to_ascii_lowercase \<equiv> map ascii_lower"

definition ends_with_str :: "string \<Rightarrow> string \<Rightarrow> bool" where
  "ends_with_str pat s \<longleftrightarrow> length pat \<le> length s \<and> drop (length s - length pat) s = pat"

end
