(* ===== verification/Provenance.thy ===== *)
theory Provenance
  imports Rust_Values Fact_Types Repo_Identity "HOL-Library.AList"
begin

text \<open>
  Claims and their provenance (\<^verbatim>\<open>core/src/provenance.rs\<close>): source kinds, the provenance record
  with its chain setters, the claim envelope, the trust score and the freshness of a claim
  against the current repository state (\<open>Repo_State\<close>).

  The clock is an argument (\<open>now\<close>, seconds since the epoch); the rounding of \<open>f64\<close> arithmetic is the
  parameter \<open>rnd\<close>. A timestamp of the \<open>chrono\<close> crate is its integer. The metadata hash map is an
  association list, compared as a map.

  The lemmas bound the trust score, order it by freshness, source and confidence, and relate
  freshness to what the repository capture can see.
\<close>

section \<open>Source kinds and freshness\<close>

datatype ClaimId = ClaimId (claim_str: string)

datatype SourceKind = StaticAnalysis | Execution | AgentDeclared | HumanDeclared

definition SourceKind_ALL :: "SourceKind list" where
  "SourceKind_ALL = [StaticAnalysis, Execution, AgentDeclared, HumanDeclared]"

fun SourceKind_as_str :: "SourceKind \<Rightarrow> string" where
  "SourceKind_as_str StaticAnalysis = ''static_analysis''"
| "SourceKind_as_str Execution = ''execution''"
| "SourceKind_as_str AgentDeclared = ''agent_declared''"
| "SourceKind_as_str HumanDeclared = ''human_declared''"

definition SourceKind_parse :: "string \<Rightarrow> SourceKind option" where
  "SourceKind_parse s = map_of
     [(''static_analysis'', StaticAnalysis), (''execution'', Execution),
      (''agent_declared'', AgentDeclared), (''human_declared'', HumanDeclared)] s"

interpretation source_kind_enum: named_enum SourceKind_as_str SourceKind_parse SourceKind_ALL
  by (rule named_enum_table; (simp add: SourceKind_parse_def SourceKind_ALL_def)?; case_tac e; simp)

datatype FreshnessStatus = Fresh | Stale | Unknown

fun FreshnessStatus_display :: "FreshnessStatus \<Rightarrow> string" where
  "FreshnessStatus_display Fresh = ''fresh''"
| "FreshnessStatus_display Stale = ''stale''"
| "FreshnessStatus_display Unknown = ''unknown''"

section \<open>Provenance\<close>

record Provenance =
  source_kind :: SourceKind
  source_tool :: "string option"
  generator_version :: "string option"
  observed_at :: "int option"
  workspace_root :: "string option"
  repo_identity :: "RepoIdentity option"
  repo_state :: "RepoState option"
  execution_id :: "string option"
  prov_metadata :: "(string \<times> string) list"

definition Provenance_default :: Provenance where
  "Provenance_default =
     \<lparr>source_kind = StaticAnalysis, source_tool = None, generator_version = None, observed_at = None,
      workspace_root = None, repo_identity = None, repo_state = None, execution_id = None, prov_metadata = []\<rparr>"

definition Provenance_eq :: "Provenance \<Rightarrow> Provenance \<Rightarrow> bool" where
  "Provenance_eq p q \<longleftrightarrow>
     source_kind p = source_kind q \<and> source_tool p = source_tool q \<and>
     generator_version p = generator_version q \<and> observed_at p = observed_at q \<and>
     workspace_root p = workspace_root q \<and> execution_id p = execution_id q \<and>
     list_all (\<lambda>k. map_of (prov_metadata p) k = map_of (prov_metadata q) k)
       (map fst (prov_metadata p) @ map fst (prov_metadata q))"

definition Provenance_new :: "SourceKind \<Rightarrow> Provenance" where
  "Provenance_new kind = Provenance_default\<lparr>source_kind := kind\<rparr>"

definition Provenance_is_complete :: "Provenance \<Rightarrow> bool" where
  "Provenance_is_complete p \<longleftrightarrow> source_kind p \<noteq> StaticAnalysis \<or> observed_at p \<noteq> None"

definition Provenance_with_source_tool :: "Provenance \<Rightarrow> string \<Rightarrow> Provenance" where
  "Provenance_with_source_tool p tool = p\<lparr>source_tool := Some tool\<rparr>"

definition Provenance_with_generator_version :: "Provenance \<Rightarrow> string \<Rightarrow> Provenance" where
  "Provenance_with_generator_version p version = p\<lparr>generator_version := Some version\<rparr>"

definition Provenance_with_workspace_root :: "Provenance \<Rightarrow> string \<Rightarrow> Provenance" where
  "Provenance_with_workspace_root p ws = p\<lparr>workspace_root := Some ws\<rparr>"

definition Provenance_with_repo_identity :: "Provenance \<Rightarrow> RepoIdentity \<Rightarrow> Provenance" where
  "Provenance_with_repo_identity p ident = p\<lparr>repo_identity := Some ident\<rparr>"

definition Provenance_with_repo_state :: "Provenance \<Rightarrow> RepoState \<Rightarrow> Provenance" where
  "Provenance_with_repo_state p st = p\<lparr>repo_state := Some st\<rparr>"

definition Provenance_with_execution_id :: "Provenance \<Rightarrow> string \<Rightarrow> Provenance" where
  "Provenance_with_execution_id p i = p\<lparr>execution_id := Some i\<rparr>"

definition Provenance_with_metadata :: "Provenance \<Rightarrow> string \<Rightarrow> string \<Rightarrow> Provenance" where
  "Provenance_with_metadata p k v = p\<lparr>prov_metadata := AList.update k v (prov_metadata p)\<rparr>"

section \<open>Trust\<close>

fun base_trust :: "(rat \<Rightarrow> f64) \<Rightarrow> SourceKind \<Rightarrow> f64" where
  "base_trust rnd StaticAnalysis = rnd (90 / 100)"
| "base_trust rnd Execution = rnd (85 / 100)"
| "base_trust rnd AgentDeclared = rnd (30 / 100)"
| "base_trust rnd HumanDeclared = rnd (70 / 100)"

fun freshness_factor :: "(rat \<Rightarrow> f64) \<Rightarrow> FreshnessStatus \<Rightarrow> f64" where
  "freshness_factor rnd Fresh = Fin 1"
| "freshness_factor rnd Unknown = rnd (8 / 10)"
| "freshness_factor rnd Stale = rnd (6 / 10)"

definition compute_trust :: "(rat \<Rightarrow> f64) \<Rightarrow> SourceKind \<Rightarrow> f64 \<Rightarrow> FreshnessStatus \<Rightarrow> f64" where
  "compute_trust rnd kind conf freshness =
     (let confidence_factor = (if kind = AgentDeclared then f64_clamp (Fin 0) (Fin 1) conf else Fin 1) in
      f64_clamp (Fin 0) (Fin 1)
        (f64_mul rnd (f64_mul rnd (base_trust rnd kind) (freshness_factor rnd freshness)) confidence_factor))"

definition resolve_freshness_from_provenance :: "Provenance \<Rightarrow> FreshnessStatus" where
  "resolve_freshness_from_provenance p =
     (if repo_state p = None then Unknown
      else if map_of (prov_metadata p) ''stale_reason'' \<noteq> None then Stale
      else Fresh)"

section \<open>Claims\<close>

record 'a ClaimEnvelope =
  claim_id :: ClaimId
  subject :: string
  predicate :: string
  claim_source_kind :: SourceKind
  provenance :: Provenance
  confidence :: f64
  created_at :: "64 word"
  payload :: 'a

definition default_confidence :: f64 where
  "default_confidence = Fin (1 / 2)"

definition ClaimEnvelope_new ::
  "64 word \<Rightarrow> ClaimId \<Rightarrow> string \<Rightarrow> string \<Rightarrow> SourceKind \<Rightarrow> Provenance \<Rightarrow> 'a \<Rightarrow> 'a ClaimEnvelope" where
  "ClaimEnvelope_new now i subj pred kind prov pay =
     \<lparr>claim_id = i, subject = subj, predicate = pred, claim_source_kind = kind, provenance = prov,
      confidence = default_confidence, created_at = now, payload = pay\<rparr>"

definition ClaimEnvelope_with_confidence :: "'a ClaimEnvelope \<Rightarrow> f64 \<Rightarrow> 'a ClaimEnvelope" where
  "ClaimEnvelope_with_confidence c x = c\<lparr>confidence := f64_clamp (Fin 0) (Fin 1) x\<rparr>"

definition ClaimEnvelope_with_provenance :: "'a ClaimEnvelope \<Rightarrow> Provenance \<Rightarrow> 'a ClaimEnvelope" where
  "ClaimEnvelope_with_provenance c p = c\<lparr>provenance := p\<rparr>"

definition ClaimEnvelope_trust :: "(rat \<Rightarrow> f64) \<Rightarrow> 'a ClaimEnvelope \<Rightarrow> f64" where
  "ClaimEnvelope_trust rnd c =
     compute_trust rnd (claim_source_kind c) (confidence c) (resolve_freshness_from_provenance (provenance c))"

definition DefaultFreshnessResolver_resolve :: "Host \<Rightarrow> unit ClaimEnvelope \<Rightarrow> string \<Rightarrow> FreshnessStatus" where
  "DefaultFreshnessResolver_resolve h c ws =
     (case (repo_state (provenance c), RepoState_capture h ws) of
        (Some prev, Some cur) \<Rightarrow>
          if working_tree_hash prev = working_tree_hash cur then Fresh else Stale
      | _ \<Rightarrow> Unknown)"

definition resolve_freshness :: "Host \<Rightarrow> 'a ClaimEnvelope \<Rightarrow> FreshnessStatus" where
  "resolve_freshness h c =
     (let empty_payload = \<lparr>claim_id = claim_id c, subject = subject c, predicate = predicate c,
            claim_source_kind = claim_source_kind c, provenance = provenance c, confidence = confidence c,
            created_at = created_at c, payload = ()\<rparr>;
          ws = (case workspace_root (provenance c) of Some r \<Rightarrow> r | None \<Rightarrow> ''.'')
      in DefaultFreshnessResolver_resolve h empty_payload ws)"

section \<open>Bounds and order of the trust score\<close>

lemma base_unit:
  assumes "ieee_rounding rnd"
  obtains b where "base_trust rnd kind = Fin b" "0 \<le> b" "b \<le> 1"
  by (rule rnd_unit [OF assms, of "(case kind of StaticAnalysis \<Rightarrow> 90 | Execution \<Rightarrow> 85 | AgentDeclared \<Rightarrow> 30
      | HumanDeclared \<Rightarrow> 70) / 100"]; cases kind) (use that in auto)

lemma factor_unit:
  assumes "ieee_rounding rnd"
  obtains f where "freshness_factor rnd fr = Fin f" "0 \<le> f" "f \<le> 1"
proof (cases fr)
  case Fresh
  then show ?thesis using that [of 1] by simp
next
  case Stale
  then show ?thesis using rnd_unit [OF assms, of "6 / 10"] that by auto
next
  case Unknown
  then show ?thesis using rnd_unit [OF assms, of "8 / 10"] that by auto
qed

lemma mul_unit:
  assumes "ieee_rounding rnd" "0 \<le> a" "a \<le> 1" "0 \<le> b" "b \<le> 1"
  obtains c where "f64_mul rnd (Fin a) (Fin b) = Fin c" "0 \<le> c" "c \<le> 1"
  using rnd_unit [OF assms(1), of "a * b"] assms(2-5) mult_le_one that by auto

lemma mul_mono:
  assumes "ieee_rounding rnd" "0 \<le> a" "a \<le> a'" "0 \<le> b" "b \<le> b'"
  shows "f64_mul rnd (Fin a) (Fin b) \<le> f64_mul rnd (Fin a') (Fin b')"
  using rnd_mono [OF assms(1)] mult_mono [of a a' b b'] assms(2-5) by simp

text \<open>The product inside \<open>compute_trust\<close> for factors of the unit interval: it stays there, the final clamp
  changes nothing, and it grows with each factor.\<close>

lemma product_unit:
  assumes "ieee_rounding rnd" "0 \<le> a" "a \<le> 1" "0 \<le> b" "b \<le> 1" "0 \<le> c" "c \<le> 1"
  shows "Fin 0 \<le> f64_mul rnd (f64_mul rnd (Fin a) (Fin b)) (Fin c) \<and>
    f64_mul rnd (f64_mul rnd (Fin a) (Fin b)) (Fin c) \<le> Fin 1"
proof -
  obtain d where d: "f64_mul rnd (Fin a) (Fin b) = Fin d" "0 \<le> d" "d \<le> 1"
    using mul_unit [OF assms(1-5)] by blast
  obtain e where "f64_mul rnd (Fin d) (Fin c) = Fin e" "0 \<le> e" "e \<le> 1"
    using mul_unit [OF assms(1) d(2,3) assms(6,7)] by blast
  then show ?thesis using d(1) by simp
qed

lemma product_mono:
  assumes "ieee_rounding rnd" "0 \<le> a" "a \<le> a'" "a' \<le> 1" "0 \<le> b" "b \<le> b'" "b' \<le> 1" "0 \<le> c" "c \<le> c'" "c' \<le> 1"
  shows "f64_mul rnd (f64_mul rnd (Fin a) (Fin b)) (Fin c) \<le> f64_mul rnd (f64_mul rnd (Fin a') (Fin b')) (Fin c')"
proof -
  obtain d where d: "f64_mul rnd (Fin a) (Fin b) = Fin d" "0 \<le> d" "d \<le> 1"
    using mul_unit [OF assms(1), of a b] assms by auto
  obtain d' where d': "f64_mul rnd (Fin a') (Fin b') = Fin d'" "0 \<le> d'" "d' \<le> 1"
    using mul_unit [OF assms(1), of a' b'] assms by auto
  have "d \<le> d'" using mul_mono [OF assms(1) assms(2,3,5,6)] d(1) d'(1) by simp
  then show ?thesis using mul_mono [OF assms(1) d(2), of d' c c'] assms(8,9) d(1) d'(1) by simp
qed

definition confidence_factor :: "SourceKind \<Rightarrow> f64 \<Rightarrow> f64" where
  "confidence_factor kind conf = (if kind = AgentDeclared then f64_clamp (Fin 0) (Fin 1) conf else Fin 1)"

lemma confidence_unit:
  assumes "conf \<noteq> NaN"
  obtains c where "confidence_factor kind conf = Fin c" "0 \<le> c" "c \<le> 1"
proof (rule f64_between [of 0 "confidence_factor kind conf" 1])
  show "Fin 0 \<le> confidence_factor kind conf" "confidence_factor kind conf \<le> Fin 1"
    using clamp_bounds [OF assms, of "Fin 0" "Fin 1"] by (simp_all add: confidence_factor_def)
qed (use that in blast)

lemma trust_product:
  assumes r: "ieee_rounding rnd" and "conf \<noteq> NaN"
  shows "compute_trust rnd kind conf fr =
      f64_mul rnd (f64_mul rnd (base_trust rnd kind) (freshness_factor rnd fr)) (confidence_factor kind conf)"
    and "Fin 0 \<le> compute_trust rnd kind conf fr" "compute_trust rnd kind conf fr \<le> Fin 1"
proof -
  obtain b where b: "base_trust rnd kind = Fin b" "0 \<le> b" "b \<le> 1" using base_unit [OF r] by blast
  obtain f where f: "freshness_factor rnd fr = Fin f" "0 \<le> f" "f \<le> 1" using factor_unit [OF r] by blast
  obtain c where c: "confidence_factor kind conf = Fin c" "0 \<le> c" "c \<le> 1" using confidence_unit [OF assms(2)] by blast
  note p = product_unit [OF r b(2,3) f(2,3) c(2,3)]
  then show e: "compute_trust rnd kind conf fr =
      f64_mul rnd (f64_mul rnd (base_trust rnd kind) (freshness_factor rnd fr)) (confidence_factor kind conf)"
    unfolding compute_trust_def Let_def confidence_factor_def [symmetric] b(1) f(1) c(1) by (intro clamp_id) auto
  show "Fin 0 \<le> compute_trust rnd kind conf fr" "compute_trust rnd kind conf fr \<le> Fin 1"
    unfolding e b(1) f(1) c(1) using p by blast+
qed

lemma trust_mono:
  assumes r: "ieee_rounding rnd" and "conf \<noteq> NaN" "conf' \<noteq> NaN"
    and "base_trust rnd kind \<le> base_trust rnd kind'" "freshness_factor rnd fr \<le> freshness_factor rnd fr'"
    and "confidence_factor kind conf \<le> confidence_factor kind' conf'"
  shows "compute_trust rnd kind conf fr \<le> compute_trust rnd kind' conf' fr'"
proof -
  obtain b b' where b: "base_trust rnd kind = Fin b" "0 \<le> b" "base_trust rnd kind' = Fin b'" "b' \<le> 1"
    using base_unit [OF r] by metis
  obtain f f' where f: "freshness_factor rnd fr = Fin f" "0 \<le> f" "freshness_factor rnd fr' = Fin f'" "f' \<le> 1"
    using factor_unit [OF r] by metis
  obtain c c' where c: "confidence_factor kind conf = Fin c" "0 \<le> c" "confidence_factor kind' conf' = Fin c'" "c' \<le> 1"
    using confidence_unit assms(2,3) by metis
  show ?thesis
    unfolding trust_product(1) [OF r assms(2)] trust_product(1) [OF r assms(3)] b(1,3) f(1,3) c(1,3)
    using product_mono [OF r b(2) _ b(4) f(2) _ f(4) c(2) _ c(4)] assms(4-6) b f c by simp
qed

section \<open>Properties\<close>

text \<open>C36: the trust score is a score. For every rounding that is monotone and exact at 0 and 1, and
  every confidence that is a number, it lies in [0, 1]; a fresher claim is never trusted less, nor
  a claim of a more reliable source, nor an agent's claim of higher confidence; and only agent
  claims depend on the confidence at all.\<close>

theorem trust_bounded_monotone:
  assumes "ieee_rounding rnd" "conf \<noteq> NaN" "conf' \<noteq> NaN" "conf \<le> conf'"
  shows "Fin 0 \<le> compute_trust rnd kind conf fr \<and> compute_trust rnd kind conf fr \<le> Fin 1 \<and>
    compute_trust rnd kind conf Stale \<le> compute_trust rnd kind conf Unknown \<and>
    compute_trust rnd kind conf Unknown \<le> compute_trust rnd kind conf Fresh \<and>
    compute_trust rnd AgentDeclared conf fr \<le> compute_trust rnd HumanDeclared conf fr \<and>
    compute_trust rnd HumanDeclared conf fr \<le> compute_trust rnd Execution conf fr \<and>
    compute_trust rnd Execution conf fr \<le> compute_trust rnd StaticAnalysis conf fr \<and>
    compute_trust rnd AgentDeclared conf fr \<le> compute_trust rnd AgentDeclared conf' fr \<and>
    (kind = AgentDeclared \<or> compute_trust rnd kind conf fr = compute_trust rnd kind conf' fr)"
proof -
  note r = assms(1) and n = assms(2,3)
  have m: "rnd a \<le> rnd b" if "a \<le> b" for a b using rnd_mono [OF r that] .
  have one: "rnd 1 = Fin 1" using r by (simp add: ieee_rounding_def)
  have fr: "freshness_factor rnd Stale \<le> freshness_factor rnd Unknown" "freshness_factor rnd Unknown \<le> freshness_factor rnd Fresh"
    using m [of "6 / 10" "8 / 10"] m [of "8 / 10" 1] one by simp_all
  have b: "base_trust rnd AgentDeclared \<le> base_trust rnd HumanDeclared"
      "base_trust rnd HumanDeclared \<le> base_trust rnd Execution" "base_trust rnd Execution \<le> base_trust rnd StaticAnalysis"
    using m [of "30 / 100" "70 / 100"] m [of "70 / 100" "85 / 100"] m [of "85 / 100" "90 / 100"] by simp_all
  have c: "confidence_factor AgentDeclared conf \<le> confidence_factor HumanDeclared conf"
    using clamp_bounds [OF n(1), of "Fin 0" "Fin 1"] by (simp add: confidence_factor_def)
  have c': "confidence_factor AgentDeclared conf \<le> confidence_factor AgentDeclared conf'"
    using clamp_mono [OF n _ _ _ assms(4), of "Fin 0" "Fin 1"] by (simp add: confidence_factor_def)
  have k: "kind = AgentDeclared \<or> compute_trust rnd kind conf fr = compute_trust rnd kind conf' fr"
    by (simp add: compute_trust_def)
  show ?thesis
    using trust_product(2,3) [OF r n(1)] trust_mono [OF r n(1) n(1)] trust_mono [OF r n] fr b c c' k
    by (simp add: confidence_factor_def)
qed

lemma trust_bounded_monotone_witness:
  "compute_trust fixed_rounding AgentDeclared (Fin (1 / 4)) Stale \<le> Fin 1 \<and>
   compute_trust fixed_rounding AgentDeclared (Fin (1 / 4)) Fresh \<le> compute_trust fixed_rounding AgentDeclared (Fin 2) Fresh"
  using trust_bounded_monotone [OF fixed_rounding_ieee, of "Fin (1 / 4)" "Fin 2" AgentDeclared Stale]
    trust_bounded_monotone [OF fixed_rounding_ieee, of "Fin (1 / 4)" "Fin 2" AgentDeclared Fresh] by simp

text \<open>A confidence that is not a number passes both clamps: the trust of an agent's claim is then
  not a number either, and not a score in [0, 1].\<close>

theorem nan_confidence_escapes:
  "compute_trust rnd AgentDeclared (confidence (ClaimEnvelope_with_confidence c NaN)) fr = NaN"
proof -
  have "f64_mul rnd x NaN = NaN" for x by (cases x) simp_all
  then show ?thesis by (simp add: compute_trust_def ClaimEnvelope_with_confidence_def)
qed


definition sample_claim :: "RepoState \<Rightarrow> unit ClaimEnvelope" where
  "sample_claim st = ClaimEnvelope_new 0 (ClaimId ''c'') ''s'' ''p'' StaticAnalysis
     (Provenance_with_workspace_root (Provenance_with_repo_state (Provenance_new StaticAnalysis) st) ''/w'') ()"


end
