(* ===== verification/Memory_Types.thy ===== *)
theory Memory_Types
  imports Rust_Values "HOL-Library.AList"
begin

text \<open>
  Data and policies of the memory runtime: \<^verbatim>\<open>memory_runtime/types.rs\<close> and
  \<^verbatim>\<open>memory_runtime/policy.rs\<close> of the crate \<open>memory-runtime\<close>.

  The clock is an argument, read once per operation (\<open>now\<close>, seconds since the epoch). A
  \<open>Duration\<close> is its whole seconds, which is all the code reads of it. \<open>str::to_lowercase\<close> maps by the
  Unicode tables and is the parameter \<open>lower\<close>; every statement holds for any such function.
\<close>

section \<open>Tiers, entries and queries\<close>

datatype MemoryTier = Session | Project | Global

fun MemoryTier_display :: "MemoryTier \<Rightarrow> string" where
  "MemoryTier_display Session = ''session''"
| "MemoryTier_display Project = ''project''"
| "MemoryTier_display Global = ''global''"

fun MemoryTier_resolution_order :: "MemoryTier \<Rightarrow> nat" where
  "MemoryTier_resolution_order Session = 0"
| "MemoryTier_resolution_order Project = 1"
| "MemoryTier_resolution_order Global = 2"

definition MemoryTier_from_str :: "(string \<Rightarrow> string) \<Rightarrow> string \<Rightarrow> MemoryTier option" where
  "MemoryTier_from_str lower s = map_of [(''session'', Session), (''project'', Project), (''global'', Global)] (lower s)"

record MemoryMetadata =
  importance :: f64
  confidence :: f64
  tags :: "string list"
  source :: "string option"
  context_note :: "string option"

record MemoryEntry =
  entry_id :: string
  tier :: MemoryTier
  entry_key :: string
  entry_value :: string
  metadata :: MemoryMetadata
  created_at :: "64 word"
  last_accessed :: "64 word"
  access_count :: "64 word"

definition MemoryMetadata_default :: MemoryMetadata where
  "MemoryMetadata_default =
     \<lparr>importance = Fin (1 / 2), confidence = Fin (1 / 2), tags = [], source = None, context_note = None\<rparr>"

definition MemoryEntry_new :: "64 word \<Rightarrow> string \<Rightarrow> MemoryTier \<Rightarrow> string \<Rightarrow> string \<Rightarrow> MemoryEntry" where
  "MemoryEntry_new now i t k v =
     \<lparr>entry_id = i, tier = t, entry_key = k, entry_value = v, metadata = MemoryMetadata_default,
      created_at = now, last_accessed = now, access_count = 0\<rparr>"

definition MemoryEntry_with_metadata :: "MemoryEntry \<Rightarrow> MemoryMetadata \<Rightarrow> MemoryEntry" where
  "MemoryEntry_with_metadata e m = e\<lparr>metadata := m\<rparr>"

definition MemoryEntry_record_access :: "64 word \<Rightarrow> MemoryEntry \<Rightarrow> MemoryEntry" where
  "MemoryEntry_record_access now e = e\<lparr>last_accessed := now, access_count := access_count e + 1\<rparr>"

definition MemoryEntry_is_expired :: "64 word \<Rightarrow> MemoryEntry \<Rightarrow> 64 word \<Rightarrow> bool" where
  "MemoryEntry_is_expired now e ttl \<longleftrightarrow> saturating_sub now (last_accessed e) > ttl"

definition MemoryEntry_matches_key :: "(string \<Rightarrow> string) \<Rightarrow> MemoryEntry \<Rightarrow> string \<Rightarrow> bool" where
  "MemoryEntry_matches_key lower e query \<longleftrightarrow>
     occurs_in (lower query) (lower (entry_key e)) \<or> occurs_in (lower query) (lower (entry_value e))"

definition MemoryMetadata_with_importance :: "MemoryMetadata \<Rightarrow> f64 \<Rightarrow> MemoryMetadata" where
  "MemoryMetadata_with_importance m x = m\<lparr>importance := f64_clamp (Fin 0) (Fin 1) x\<rparr>"

definition MemoryMetadata_with_confidence :: "MemoryMetadata \<Rightarrow> f64 \<Rightarrow> MemoryMetadata" where
  "MemoryMetadata_with_confidence m x = m\<lparr>confidence := f64_clamp (Fin 0) (Fin 1) x\<rparr>"

definition push_unique :: "'a \<Rightarrow> 'a list \<Rightarrow> 'a list" where
  "push_unique x xs = (if x \<in> set xs then xs else xs @ [x])"

definition MemoryMetadata_with_tag :: "MemoryMetadata \<Rightarrow> string \<Rightarrow> MemoryMetadata" where
  "MemoryMetadata_with_tag m t = m\<lparr>tags := push_unique t (tags m)\<rparr>"

definition MemoryMetadata_with_source :: "MemoryMetadata \<Rightarrow> string \<Rightarrow> MemoryMetadata" where
  "MemoryMetadata_with_source m s = m\<lparr>source := Some s\<rparr>"

definition MemoryMetadata_with_context :: "MemoryMetadata \<Rightarrow> string \<Rightarrow> MemoryMetadata" where
  "MemoryMetadata_with_context m s = m\<lparr>context_note := Some s\<rparr>"

record MemoryQuery =
  query_key :: string
  query_tier :: "MemoryTier option"
  max_results :: nat
  require_confidence :: "f64 option"
  query_tags :: "string list"

definition MemoryQuery_new :: "string \<Rightarrow> MemoryQuery" where
  "MemoryQuery_new k =
     \<lparr>query_key = k, query_tier = None, max_results = 10, require_confidence = None, query_tags = []\<rparr>"

definition MemoryQuery_in_tier :: "MemoryQuery \<Rightarrow> MemoryTier \<Rightarrow> MemoryQuery" where
  "MemoryQuery_in_tier q t = q\<lparr>query_tier := Some t\<rparr>"

definition MemoryQuery_limit :: "MemoryQuery \<Rightarrow> nat \<Rightarrow> MemoryQuery" where
  "MemoryQuery_limit q n = q\<lparr>max_results := n\<rparr>"

definition MemoryQuery_require_confidence :: "MemoryQuery \<Rightarrow> f64 \<Rightarrow> MemoryQuery" where
  "MemoryQuery_require_confidence q x = q\<lparr>require_confidence := Some x\<rparr>"

definition MemoryQuery_with_tag :: "MemoryQuery \<Rightarrow> string \<Rightarrow> MemoryQuery" where
  "MemoryQuery_with_tag q t = q\<lparr>query_tags := push_unique t (query_tags q)\<rparr>"

record MemoryResolution =
  query :: MemoryQuery
  hits :: "MemoryEntry list"
  misses :: "string list"
  resolution_order :: "MemoryTier list"
  latency_ms :: "64 word"

definition query_order :: "MemoryQuery \<Rightarrow> MemoryTier list" where
  "query_order q = (case query_tier q of Some t \<Rightarrow> [t] | None \<Rightarrow> [Session, Project, Global])"

definition MemoryResolution_new :: "MemoryQuery \<Rightarrow> MemoryEntry list \<Rightarrow> 64 word \<Rightarrow> MemoryResolution" where
  "MemoryResolution_new q hs ms =
     \<lparr>query = q, hits = hs,
      misses = map MemoryTier_display (filter (\<lambda>t. \<not> list_ex (\<lambda>h. tier h = t) hs) (query_order q)),
      resolution_order = query_order q, latency_ms = ms\<rparr>"

datatype MemoryEvent =
    MemoryResolved (event_id: string) (resolved_key: string) (event_tier: MemoryTier) (hit_count: nat) (timestamp: "64 word")
  | MemoryEvicted (event_id: string) (evicted_id: string) (event_tier: MemoryTier) (reason: string) (timestamp: "64 word")
  | SnapshotCreated (event_id: string) (snapshot_id: string) (event_entry_count: nat) (timestamp: "64 word")
  | SnapshotMerged (event_id: string) (source_snapshot: string) (target_snapshot: string) (entries_merged: nat) (timestamp: "64 word")
  | PolicyApplied (event_id: string) (policy_name: string) (action: string) (affected_count: nat) (timestamp: "64 word")

fun MemoryEvent_display :: "MemoryEvent \<Rightarrow> string" where
  "MemoryEvent_display (MemoryResolved i k t n _) =
     ''['' @ i @ ''] Memory resolved for '' @ [CHR 0x27] @ k @ [CHR 0x27] @ '' in '' @ MemoryTier_display t @ '': '' @ show_nat n @ '' hits''"
| "MemoryEvent_display (MemoryEvicted i e t r _) =
     ''['' @ i @ ''] Memory evicted from '' @ MemoryTier_display t @ '': '' @ e @ '' - '' @ r"
| "MemoryEvent_display (SnapshotCreated i s n _) =
     ''['' @ i @ ''] Snapshot created: '' @ s @ '' with '' @ show_nat n @ '' entries''"
| "MemoryEvent_display (SnapshotMerged i a b n _) =
     ''['' @ i @ ''] Snapshots merged: '' @ a @ '' -> '' @ b @ '' ('' @ show_nat n @ '' entries)''"
| "MemoryEvent_display (PolicyApplied i p a n _) =
     ''['' @ i @ ''] Policy '' @ [CHR 0x27] @ p @ [CHR 0x27] @ '': '' @ a @ '' ('' @ show_nat n @ '' entries affected)''"

datatype MemoryRuntimeError =
    EntryNotFound string | InvalidTier string | SnapshotError string | PolicyViolation string
  | ResolutionError string | Conflict string | Generic string

fun MemoryRuntimeError_display :: "MemoryRuntimeError \<Rightarrow> string" where
  "MemoryRuntimeError_display (EntryNotFound i) = ''Entry not found: '' @ i"
| "MemoryRuntimeError_display (InvalidTier t) = ''Invalid tier: '' @ t"
| "MemoryRuntimeError_display (SnapshotError m) = ''Snapshot error: '' @ m"
| "MemoryRuntimeError_display (PolicyViolation m) = ''Policy violation: '' @ m"
| "MemoryRuntimeError_display (ResolutionError m) = ''Resolution error: '' @ m"
| "MemoryRuntimeError_display (Conflict m) = ''Conflict: '' @ m"
| "MemoryRuntimeError_display (Generic m) = ''Memory runtime error: '' @ m"

section \<open>Policies\<close>

datatype RetentionPolicy = Infinite | Duration "64 word" | MaxCount nat | ImportanceThreshold f64

definition RetentionPolicy_default :: RetentionPolicy where
  "RetentionPolicy_default = Duration (30 * 24 * 3600)"

datatype EvictionPolicy = LRU | LFU | LowestImportance | LowestConfidence | FIFO

datatype ExpirationPolicy =
  None_expiration | IdleTimeout "64 word" | AbsoluteTimeout "64 word" | ImportanceThreshold f64

datatype PriorityPolicy = Importance | Recency | Frequency

datatype ConflictPolicy = FirstMatch | HighestImportance | HighestConfidence | MostRecent | MostAccessed

record AccessRule =
  rule_tier :: MemoryTier
  allowed_keys :: "string list"
  denied_keys :: "string list"
  min_confidence :: f64

definition AccessRule_new :: "MemoryTier \<Rightarrow> AccessRule" where
  "AccessRule_new t = \<lparr>rule_tier = t, allowed_keys = [], denied_keys = [], min_confidence = Fin 0\<rparr>"

definition AccessRule_allow_key :: "AccessRule \<Rightarrow> string \<Rightarrow> AccessRule" where
  "AccessRule_allow_key r k = r\<lparr>allowed_keys := push_unique k (allowed_keys r)\<rparr>"

definition AccessRule_deny_key :: "AccessRule \<Rightarrow> string \<Rightarrow> AccessRule" where
  "AccessRule_deny_key r k = r\<lparr>denied_keys := push_unique k (denied_keys r)\<rparr>"

definition AccessRule_with_min_confidence :: "AccessRule \<Rightarrow> f64 \<Rightarrow> AccessRule" where
  "AccessRule_with_min_confidence r x = r\<lparr>min_confidence := f64_clamp (Fin 0) (Fin 1) x\<rparr>"

definition AccessRule_matches :: "AccessRule \<Rightarrow> string \<Rightarrow> f64 \<Rightarrow> bool" where
  "AccessRule_matches r k conf =
     (if f64_lt conf (min_confidence r) then False
      else if k \<in> set (denied_keys r) then False
      else if allowed_keys r = [] then True
      else k \<in> set (allowed_keys r))"

record MemoryPolicy =
  retention :: RetentionPolicy
  eviction :: EvictionPolicy
  expiration :: ExpirationPolicy
  priority :: PriorityPolicy
  conflict_resolution :: ConflictPolicy
  access_rules :: "AccessRule list"
  max_entries_per_tier :: nat
  auto_consolidate :: bool

definition MemoryPolicy_default :: MemoryPolicy where
  "MemoryPolicy_default =
     \<lparr>retention = RetentionPolicy_default, eviction = LRU, expiration = None_expiration, priority = Importance,
      conflict_resolution = FirstMatch, access_rules = [], max_entries_per_tier = 1000, auto_consolidate = False\<rparr>"

definition MemoryPolicy_with_retention :: "MemoryPolicy \<Rightarrow> RetentionPolicy \<Rightarrow> MemoryPolicy" where
  "MemoryPolicy_with_retention p x = p\<lparr>retention := x\<rparr>"

definition MemoryPolicy_with_eviction :: "MemoryPolicy \<Rightarrow> EvictionPolicy \<Rightarrow> MemoryPolicy" where
  "MemoryPolicy_with_eviction p x = p\<lparr>eviction := x\<rparr>"

definition MemoryPolicy_with_expiration :: "MemoryPolicy \<Rightarrow> ExpirationPolicy \<Rightarrow> MemoryPolicy" where
  "MemoryPolicy_with_expiration p x = p\<lparr>expiration := x\<rparr>"

definition MemoryPolicy_with_priority :: "MemoryPolicy \<Rightarrow> PriorityPolicy \<Rightarrow> MemoryPolicy" where
  "MemoryPolicy_with_priority p x = p\<lparr>priority := x\<rparr>"

definition MemoryPolicy_with_conflict_resolution :: "MemoryPolicy \<Rightarrow> ConflictPolicy \<Rightarrow> MemoryPolicy" where
  "MemoryPolicy_with_conflict_resolution p x = p\<lparr>conflict_resolution := x\<rparr>"

definition MemoryPolicy_with_max_entries :: "MemoryPolicy \<Rightarrow> nat \<Rightarrow> MemoryPolicy" where
  "MemoryPolicy_with_max_entries p n = p\<lparr>max_entries_per_tier := n\<rparr>"

definition MemoryPolicy_with_auto_consolidate :: "MemoryPolicy \<Rightarrow> bool \<Rightarrow> MemoryPolicy" where
  "MemoryPolicy_with_auto_consolidate p b = p\<lparr>auto_consolidate := b\<rparr>"

definition MemoryPolicy_with_access_rule :: "MemoryPolicy \<Rightarrow> AccessRule \<Rightarrow> MemoryPolicy" where
  "MemoryPolicy_with_access_rule p r = p\<lparr>access_rules := access_rules p @ [r]\<rparr>"

definition MemoryPolicy_should_evict :: "64 word \<Rightarrow> MemoryPolicy \<Rightarrow> MemoryEntry \<Rightarrow> bool" where
  "MemoryPolicy_should_evict now p e =
     (case retention p of
        Infinite \<Rightarrow> False
      | Duration ttl \<Rightarrow> MemoryEntry_is_expired now e ttl
      | MaxCount _ \<Rightarrow> False
      | RetentionPolicy.ImportanceThreshold threshold \<Rightarrow> f64_lt (importance (metadata e)) threshold)"

definition MemoryPolicy_is_expired :: "64 word \<Rightarrow> MemoryPolicy \<Rightarrow> MemoryEntry \<Rightarrow> bool" where
  "MemoryPolicy_is_expired now p e =
     (case expiration p of
        None_expiration \<Rightarrow> False
      | IdleTimeout d \<Rightarrow> saturating_sub now (last_accessed e) > d
      | AbsoluteTimeout d \<Rightarrow> saturating_sub now (created_at e) > d
      | ExpirationPolicy.ImportanceThreshold threshold \<Rightarrow> f64_lt (importance (metadata e)) threshold)"

text \<open>The access count is capped at ten before it is divided, so its conversion to \<open>f64\<close> is exact where it counts.\<close>

definition MemoryPolicy_priority_score :: "(rat \<Rightarrow> f64) \<Rightarrow> 64 word \<Rightarrow> MemoryPolicy \<Rightarrow> MemoryEntry \<Rightarrow> f64" where
  "MemoryPolicy_priority_score rnd now p e =
     (case priority p of
        Importance \<Rightarrow> importance (metadata e)
      | Recency \<Rightarrow>
          (let elapsed = saturating_sub now (last_accessed e) in
           if elapsed < 3600 then Fin 1
           else if elapsed < 86400 then rnd (8 / 10)
           else if elapsed < 604800 then rnd (5 / 10)
           else rnd (2 / 10))
      | Frequency \<Rightarrow> rnd (of_nat (min (unat (access_count e)) 10) / 10))"

definition MemoryPolicy_is_access_allowed :: "MemoryPolicy \<Rightarrow> MemoryTier \<Rightarrow> string \<Rightarrow> f64 \<Rightarrow> bool" where
  "MemoryPolicy_is_access_allowed p t k conf =
     list_all (\<lambda>r. AccessRule_matches r k conf) (filter (\<lambda>r. rule_tier r = t) (access_rules p))"

section \<open>Lemmas\<close>

lemma set_push_unique [simp]: "set (push_unique x xs) = insert x (set xs)"
  by (auto simp: push_unique_def)

lemma distinct_push_unique [simp]: "distinct (push_unique x xs) \<longleftrightarrow> distinct xs"
  by (auto simp: push_unique_def)

lemma record_access_simps [simp]:
  "entry_id (MemoryEntry_record_access now e) = entry_id e" "tier (MemoryEntry_record_access now e) = tier e"
  by (simp_all add: MemoryEntry_record_access_def)

text \<open>Both checks on one entry, in the order of the code.\<close>

definition evictable :: "64 word \<Rightarrow> MemoryPolicy \<Rightarrow> MemoryEntry \<Rightarrow> bool" where
  "evictable now p e \<longleftrightarrow> MemoryPolicy_should_evict now p e \<or> MemoryPolicy_is_expired now p e"

text \<open>A rule admits a key exactly when it is not denied, is allowed if any key is listed, and comes
  with enough confidence (one that is not a number always has enough).\<close>

lemma access_rule_iff:
  "AccessRule_matches r k conf \<longleftrightarrow>
   k \<notin> set (denied_keys r) \<and> (allowed_keys r = [] \<or> k \<in> set (allowed_keys r)) \<and> \<not> f64_lt conf (min_confidence r)"
  by (auto simp: AccessRule_matches_def)

lemma priority_score_unit:
  assumes "ieee_rounding rnd" "priority p \<noteq> Importance"
  shows "Fin 0 \<le> MemoryPolicy_priority_score rnd now p e \<and> MemoryPolicy_priority_score rnd now p e \<le> Fin 1"
proof -
  have b: "Fin 0 \<le> rnd x \<and> rnd x \<le> Fin 1" if "0 \<le> x" "x \<le> 1" for x
    by (rule rnd_unit [OF assms(1) that]) simp
  have "rat_of_nat (min (unat (access_count e)) 10) \<le> of_nat 10" by (rule of_nat_mono) simp
  then have f: "rat_of_nat (min (unat (access_count e)) 10) / 10 \<le> 1" by simp
  show ?thesis
  proof (cases "priority p")
    case Recency
    then show ?thesis using b [of "8 / 10"] b [of "5 / 10"] b [of "2 / 10"]
      by (simp add: MemoryPolicy_priority_score_def Let_def)
  next
    case Frequency
    then show ?thesis using b [OF _ f] by (simp add: MemoryPolicy_priority_score_def)
  qed (use assms(2) in simp)
qed

end
