(* ===== verification/Memory_Lifecycle.thy ===== *)
theory Memory_Lifecycle
  imports Memory_Types
begin

text \<open>
  The in-memory entry store (\<^verbatim>\<open>memory_runtime/lifecycle.rs\<close>) and the resolver over it
  (\<^verbatim>\<open>memory_runtime/resolution.rs\<close>).

  A \<open>HashMap\<close> is an association list with distinct keys and a \<open>HashSet\<close> a distinct list; where the
  code iterates over one, the order is the parameter \<open>visit\<close>. The three \<open>RwLock\<close>s are their
  contents and a poison flag each: a panic while write guards are held poisons those locks, and
  every later access sees the flag. Each event gets a random id, the argument \<open>uuid\<close>.

  The operations form a transition system; its reachable states keep the tier index in step with
  the entries even after a panic. What clients rely on is the locale \<open>tiered_store\<close>.
\<close>

section \<open>The store\<close>

record MemoryLifecycle =
  entries :: "(string \<times> MemoryEntry) list"
  tier_index :: "(MemoryTier \<times> string list) list"
  events :: "MemoryEvent list"
  max_events :: nat
  entries_poisoned :: bool
  tier_index_poisoned :: bool
  events_poisoned :: bool

definition MemoryLifecycle_new :: "nat \<Rightarrow> MemoryLifecycle" where
  "MemoryLifecycle_new n =
     \<lparr>entries = [], tier_index = [], events = [], max_events = n,
      entries_poisoned = False, tier_index_poisoned = False, events_poisoned = False\<rparr>"

definition poison_err :: "string \<Rightarrow> MemoryRuntimeError" where
  "poison_err lock = Generic (''lock poisoned: '' @ lock)"

text \<open>
  Removing the first event of an empty vector panics, with the events lock held: that is what
  happens for a capacity of zero.
\<close>

definition MemoryLifecycle_record_event :: "MemoryEvent \<Rightarrow> MemoryLifecycle \<Rightarrow> (MemoryRuntimeError, unit) call \<times> MemoryLifecycle" where
  "MemoryLifecycle_record_event ev s =
     (if events_poisoned s then (Returned (), s)
      else if length (events s) \<ge> max_events s then
        (if events s = [] then (Panicked, s\<lparr>events_poisoned := True\<rparr>)
         else (Returned (), s\<lparr>events := tl (events s) @ [ev]\<rparr>))
      else (Returned (), s\<lparr>events := events s @ [ev]\<rparr>))"

definition index_insert :: "MemoryTier \<Rightarrow> string \<Rightarrow> (MemoryTier \<times> string list) list \<Rightarrow> (MemoryTier \<times> string list) list" where
  "index_insert t i ix =
     AList.update t (push_unique i (case map_of ix t of Some ids \<Rightarrow> ids | None \<Rightarrow> [])) ix"

definition index_remove :: "MemoryTier \<Rightarrow> string \<Rightarrow> (MemoryTier \<times> string list) list \<Rightarrow> (MemoryTier \<times> string list) list" where
  "index_remove t i ix =
     (case map_of ix t of None \<Rightarrow> ix | Some ids \<Rightarrow> AList.update t (removeAll i ids) ix)"

text \<open>\<open>create\<close> holds the entry and index locks while it records its event: a panic there poisons them too.\<close>

definition MemoryLifecycle_create ::
  "string \<Rightarrow> MemoryEntry \<Rightarrow> MemoryLifecycle \<Rightarrow> (MemoryRuntimeError, string) call \<times> MemoryLifecycle" where
  "MemoryLifecycle_create uuid e s =
     (if entries_poisoned s then (Raised (poison_err ''entries''), s)
      else if tier_index_poisoned s then (Raised (poison_err ''tier_index''), s)
      else if map_of (entries s) (entry_id e) \<noteq> None
      then (Raised (Conflict (''Entry '' @ entry_id e @ '' already exists'')), s)
      else
        (case MemoryLifecycle_record_event (PolicyApplied uuid ''lifecycle.create'' ''created'' 1 0)
                (s\<lparr>entries := AList.update (entry_id e) e (entries s),
                   tier_index := index_insert (tier e) (entry_id e) (tier_index s)\<rparr>) of
           (Panicked, s') \<Rightarrow> (Panicked, s'\<lparr>entries_poisoned := True, tier_index_poisoned := True\<rparr>)
         | (_, s') \<Rightarrow> (Returned (entry_id e), s')))"

definition MemoryLifecycle_get :: "64 word \<Rightarrow> string \<Rightarrow> MemoryLifecycle \<Rightarrow> MemoryEntry option \<times> MemoryLifecycle" where
  "MemoryLifecycle_get now i s =
     (if entries_poisoned s then (None, s)
      else case map_of (entries s) i of
        None \<Rightarrow> (None, s)
      | Some e \<Rightarrow>
          (Some (MemoryEntry_record_access now e),
           s\<lparr>entries := AList.update i (MemoryEntry_record_access now e) (entries s)\<rparr>))"

definition MemoryLifecycle_update ::
  "64 word \<Rightarrow> string \<Rightarrow> string \<Rightarrow> MemoryLifecycle \<Rightarrow> (MemoryRuntimeError, unit) call \<times> MemoryLifecycle" where
  "MemoryLifecycle_update now i v s =
     (if entries_poisoned s then (Raised (poison_err ''entries''), s)
      else case map_of (entries s) i of
        None \<Rightarrow> (Raised (EntryNotFound i), s)
      | Some e \<Rightarrow>
          (Returned (), s\<lparr>entries := AList.update i (MemoryEntry_record_access now (e\<lparr>entry_value := v\<rparr>)) (entries s)\<rparr>))"

definition MemoryLifecycle_delete :: "string \<Rightarrow> MemoryLifecycle \<Rightarrow> (MemoryRuntimeError, unit) call \<times> MemoryLifecycle" where
  "MemoryLifecycle_delete i s =
     (if entries_poisoned s then (Raised (poison_err ''entries''), s)
      else if tier_index_poisoned s then (Raised (poison_err ''tier_index''), s)
      else case map_of (entries s) i of
        None \<Rightarrow> (Raised (EntryNotFound i), s)
      | Some e \<Rightarrow>
          (Returned (), s\<lparr>entries := AList.delete i (entries s), tier_index := index_remove (tier e) i (tier_index s)\<rparr>))"

definition MemoryLifecycle_list_by_tier :: "(string list \<Rightarrow> string list) \<Rightarrow> MemoryTier \<Rightarrow> MemoryLifecycle \<Rightarrow> MemoryEntry list" where
  "MemoryLifecycle_list_by_tier visit t s =
     (if entries_poisoned s \<or> tier_index_poisoned s then []
      else case map_of (tier_index s) t of
        None \<Rightarrow> []
      | Some ids \<Rightarrow> List.map_filter (map_of (entries s)) (visit ids))"

definition MemoryLifecycle_list_all :: "((string \<times> MemoryEntry) list \<Rightarrow> (string \<times> MemoryEntry) list) \<Rightarrow> MemoryLifecycle \<Rightarrow> MemoryEntry list" where
  "MemoryLifecycle_list_all visit s = (if entries_poisoned s then [] else map snd (visit (entries s)))"

definition MemoryLifecycle_count_by_tier :: "MemoryTier \<Rightarrow> MemoryLifecycle \<Rightarrow> nat" where
  "MemoryLifecycle_count_by_tier t s =
     (if tier_index_poisoned s then 0
      else case map_of (tier_index s) t of None \<Rightarrow> 0 | Some ids \<Rightarrow> length ids)"

definition MemoryLifecycle_contains :: "string \<Rightarrow> MemoryLifecycle \<Rightarrow> bool" where
  "MemoryLifecycle_contains i s \<longleftrightarrow> \<not> entries_poisoned s \<and> map_of (entries s) i \<noteq> None"

definition MemoryLifecycle_clear :: "MemoryLifecycle \<Rightarrow> MemoryLifecycle" where
  "MemoryLifecycle_clear s =
     (let s1 = (if entries_poisoned s then s else s\<lparr>entries := []\<rparr>) in
      if tier_index_poisoned s1 then s1 else s1\<lparr>tier_index := []\<rparr>)"

definition MemoryLifecycle_events :: "MemoryLifecycle \<Rightarrow> MemoryEvent list" where
  "MemoryLifecycle_events s = (if events_poisoned s then [] else events s)"

definition MemoryLifecycle_entry_count :: "MemoryLifecycle \<Rightarrow> nat" where
  "MemoryLifecycle_entry_count s = (if entries_poisoned s then 0 else length (entries s))"

section \<open>Resolution\<close>

text \<open>The three filters of the resolver on one entry.\<close>

definition entry_matches :: "(string \<Rightarrow> string) \<Rightarrow> MemoryQuery \<Rightarrow> MemoryEntry \<Rightarrow> bool" where
  "entry_matches lower q e \<longleftrightarrow>
     MemoryEntry_matches_key lower e (query_key q) \<and>
     (case require_confidence q of Some m \<Rightarrow> \<not> f64_lt (confidence (metadata e)) m | None \<Rightarrow> True) \<and>
     (query_tags q = [] \<or> list_all (\<lambda>t. t \<in> set (tags (metadata e))) (query_tags q))"

text \<open>One tier of \<open>resolve\<close>: the first matching entry that was not seen before, and then \<open>break\<close>.\<close>

fun first_match :: "(string \<Rightarrow> string) \<Rightarrow> MemoryQuery \<Rightarrow> string list \<Rightarrow> MemoryEntry list \<Rightarrow> MemoryEntry option" where
  "first_match lower q seen [] = None"
| "first_match lower q seen (e # es) =
     (if entry_id e \<in> set seen then first_match lower q seen es
      else if entry_matches lower q e then Some e
      else first_match lower q seen es)"

fun resolve_tiers ::
  "(string \<Rightarrow> string) \<Rightarrow> (string list \<Rightarrow> string list) \<Rightarrow> MemoryQuery \<Rightarrow> MemoryLifecycle \<Rightarrow> string list \<Rightarrow> MemoryTier list \<Rightarrow> MemoryEntry list" where
  "resolve_tiers lower visit q s seen [] = []"
| "resolve_tiers lower visit q s seen (t # ts) =
     (case first_match lower q seen (MemoryLifecycle_list_by_tier visit t s) of
        Some e \<Rightarrow> [e]
      | None \<Rightarrow> resolve_tiers lower visit q s seen ts)"

definition resolved_event :: "string \<Rightarrow> MemoryQuery \<Rightarrow> MemoryEntry list \<Rightarrow> MemoryLifecycle \<Rightarrow>
    (MemoryRuntimeError, unit) call \<times> MemoryLifecycle" where
  "resolved_event uuid q hs s =
     (case hs of
        [] \<Rightarrow> (Returned (), s)
      | h # _ \<Rightarrow> MemoryLifecycle_record_event (MemoryResolved uuid (query_key q) (tier h) (length hs) 0) s)"

definition MemoryResolver_resolve ::
  "(string \<Rightarrow> string) \<Rightarrow> (string list \<Rightarrow> string list) \<Rightarrow> string \<Rightarrow> 64 word \<Rightarrow> MemoryQuery \<Rightarrow> MemoryLifecycle \<Rightarrow>
   (MemoryRuntimeError, MemoryResolution) call \<times> MemoryLifecycle" where
  "MemoryResolver_resolve lower visit uuid ms q s =
     (let hs = resolve_tiers lower visit q s [] (query_order q) in
      call_bind (resolved_event uuid q hs s) (\<lambda>_ s'. (Returned (MemoryResolution_new q hs ms), s')))"

definition matching_entries ::
  "(string \<Rightarrow> string) \<Rightarrow> (string list \<Rightarrow> string list) \<Rightarrow> MemoryQuery \<Rightarrow> MemoryLifecycle \<Rightarrow> MemoryEntry list" where
  "matching_entries lower visit q s =
     concat (map (\<lambda>t. filter (entry_matches lower q) (MemoryLifecycle_list_by_tier visit t s)) (query_order q))"

text \<open>The comparator of each conflict policy; \<open>FirstMatch\<close> does not sort.\<close>

fun conflict_cmp :: "ConflictPolicy \<Rightarrow> MemoryEntry \<Rightarrow> MemoryEntry \<Rightarrow> cmp_ordering" where
  "conflict_cmp FirstMatch a b = Equal"
| "conflict_cmp HighestImportance a b = f64_cmp_or_equal (importance (metadata b)) (importance (metadata a))"
| "conflict_cmp HighestConfidence a b = f64_cmp_or_equal (confidence (metadata b)) (confidence (metadata a))"
| "conflict_cmp MostRecent a b = cmp (last_accessed b) (last_accessed a)"
| "conflict_cmp MostAccessed a b = cmp (access_count b) (access_count a)"

definition ranked_matches ::
  "(MemoryEntry list \<Rightarrow> MemoryEntry list option) \<Rightarrow> ConflictPolicy \<Rightarrow> MemoryEntry list \<Rightarrow> MemoryEntry list option" where
  "ranked_matches unordered pol hs =
     (if pol = FirstMatch then Some hs else slice_sort_by unordered (conflict_cmp pol) hs)"

definition MemoryResolver_resolve_with_policy ::
  "(MemoryEntry list \<Rightarrow> MemoryEntry list option) \<Rightarrow> (string \<Rightarrow> string) \<Rightarrow> (string list \<Rightarrow> string list) \<Rightarrow> string \<Rightarrow> 64 word \<Rightarrow>
   MemoryQuery \<Rightarrow> ConflictPolicy \<Rightarrow> MemoryLifecycle \<Rightarrow> (MemoryRuntimeError, MemoryResolution) call \<times> MemoryLifecycle" where
  "MemoryResolver_resolve_with_policy unordered lower visit uuid ms q pol s =
     (case ranked_matches unordered pol (matching_entries lower visit q s) of
        None \<Rightarrow> (Panicked, s)
      | Some ranked \<Rightarrow>
          let hs = take (max_results q) ranked in
          call_bind (resolved_event uuid q hs s) (\<lambda>_ s'. (Returned (MemoryResolution_new q hs ms), s')))"

section \<open>The index invariant\<close>

definition tier_ids :: "(MemoryTier \<times> string list) list \<Rightarrow> MemoryTier \<Rightarrow> string list" where
  "tier_ids ix t = (case map_of ix t of Some ids \<Rightarrow> ids | None \<Rightarrow> [])"

definition indexes :: "(MemoryTier \<times> string list) list \<Rightarrow> (string \<rightharpoonup> MemoryEntry) \<Rightarrow> bool" where
  "indexes ix m \<longleftrightarrow>
     (\<forall>i e. m i = Some e \<longrightarrow> entry_id e = i) \<and>
     (\<forall>t. distinct (tier_ids ix t) \<and> set (tier_ids ix t) = {i. \<exists>e. m i = Some e \<and> tier e = t})"

definition index_consistent :: "MemoryLifecycle \<Rightarrow> bool" where
  "index_consistent s \<longleftrightarrow> distinct (map fst (entries s)) \<and> indexes (tier_index s) (map_of (entries s))"

lemma tier_ids_insert: "tier_ids (index_insert t i ix) u = (if u = t then push_unique i (tier_ids ix t) else tier_ids ix u)"
  by (simp add: tier_ids_def index_insert_def update_conv)

lemma tier_ids_remove: "tier_ids (index_remove t i ix) u = (if u = t then removeAll i (tier_ids ix t) else tier_ids ix u)"
  by (simp add: tier_ids_def index_remove_def update_conv split: option.split)

lemma tier_ids_Nil [simp]: "tier_ids [] t = []"
  by (simp add: tier_ids_def)

text \<open>Poisoning comes in two grades: the event log alone, or all three locks.\<close>

definition poison_coherent :: "MemoryLifecycle \<Rightarrow> bool" where
  "poison_coherent s \<longleftrightarrow> entries_poisoned s = tier_index_poisoned s \<and> (entries_poisoned s \<longrightarrow> events_poisoned s)"

definition lifecycle_inv :: "nat \<Rightarrow> MemoryLifecycle \<Rightarrow> bool" where
  "lifecycle_inv n s \<longleftrightarrow> index_consistent s \<and> poison_coherent s \<and> max_events s = n \<and> length (events s) \<le> n \<and>
     (events_poisoned s \<longrightarrow> n = 0)"

lemma record_event_inv:
  assumes "lifecycle_inv n s" "MemoryLifecycle_record_event ev s = (r, s')"
  shows "lifecycle_inv n s'" "entries s' = entries s" "tier_index s' = tier_index s"
    "entries_poisoned s' = entries_poisoned s" "tier_index_poisoned s' = tier_index_poisoned s"
    "r = Panicked \<longleftrightarrow> \<not> events_poisoned s \<and> n = 0" "r = Panicked \<Longrightarrow> events_poisoned s'"
    "r \<noteq> Panicked \<Longrightarrow> r = Returned ()"
  using assms
  by (auto simp: MemoryLifecycle_record_event_def lifecycle_inv_def index_consistent_def poison_coherent_def split: if_splits)

lemma indexesD:
  assumes "indexes ix m"
  shows "m i = Some e \<Longrightarrow> entry_id e = i" "distinct (tier_ids ix t)"
    "set (tier_ids ix t) = {i. \<exists>e. m i = Some e \<and> tier e = t}"
  using assms by (simp_all add: indexes_def)

lemma indexes_put: "indexes ix m \<Longrightarrow> m (entry_id e) = None \<Longrightarrow> indexes (index_insert (tier e) (entry_id e) ix) (m(entry_id e \<mapsto> e))"
  by (auto simp: indexes_def tier_ids_insert)

lemma indexes_touch: "indexes ix m \<Longrightarrow> m i = Some e \<Longrightarrow> entry_id e' = i \<Longrightarrow> tier e' = tier e \<Longrightarrow> indexes ix (m(i \<mapsto> e'))"
  by (auto simp: indexes_def)

lemma indexes_drop: "indexes ix m \<Longrightarrow> m i = Some e \<Longrightarrow> indexes (index_remove (tier e) i ix) (m(i := None))"
  by (auto simp: indexes_def tier_ids_remove distinct_removeAll)

lemma indexes_empty: "indexes [] Map.empty"
  by (simp add: indexes_def)

lemmas lifecycle_inv_defs = lifecycle_inv_def index_consistent_def poison_coherent_def

lemma create_inv:
  assumes "lifecycle_inv n s"
  shows "lifecycle_inv n (snd (MemoryLifecycle_create uuid e s))"
proof (cases "entries_poisoned s \<or> tier_index_poisoned s \<or> map_of (entries s) (entry_id e) \<noteq> None")
  case True
  then show ?thesis using assms by (auto simp: MemoryLifecycle_create_def)
next
  case False
  let ?s = "s\<lparr>entries := AList.update (entry_id e) e (entries s), tier_index := index_insert (tier e) (entry_id e) (tier_index s)\<rparr>"
  have i: "lifecycle_inv n ?s"
    using assms False by (simp add: lifecycle_inv_defs distinct_update update_conv' indexes_put del: map_of_eq_Some_iff map_of_eq_None_iff)
  obtain r s' where r: "MemoryLifecycle_record_event (PolicyApplied uuid ''lifecycle.create'' ''created'' 1 0) ?s = (r, s')"
    by (rule prod.exhaust)
  note k = record_event_inv [OF i r]
  show ?thesis
  proof (cases "r = Panicked")
    case True
    then show ?thesis
      using k(1,7) False r
      by (auto simp: MemoryLifecycle_create_def lifecycle_inv_defs)
  next
    case n: False
    then show ?thesis using k(1) False r by (cases r) (simp_all add: MemoryLifecycle_create_def)
  qed
qed

lemma get_inv: "lifecycle_inv n s \<Longrightarrow> lifecycle_inv n (snd (MemoryLifecycle_get now i s))"
  by (auto simp: MemoryLifecycle_get_def lifecycle_inv_defs distinct_update update_conv' indexesD(1)
      simp del: map_of_eq_Some_iff intro: indexes_touch split: option.split)

lemma update_inv: "lifecycle_inv n s \<Longrightarrow> lifecycle_inv n (snd (MemoryLifecycle_update now i v s))"
  by (auto simp: MemoryLifecycle_update_def lifecycle_inv_defs distinct_update update_conv' indexesD(1)
      simp del: map_of_eq_Some_iff intro: indexes_touch split: option.split)

lemma delete_inv: "lifecycle_inv n s \<Longrightarrow> lifecycle_inv n (snd (MemoryLifecycle_delete i s))"
  by (auto simp: MemoryLifecycle_delete_def lifecycle_inv_defs distinct_delete delete_conv'
      simp del: map_of_eq_Some_iff intro: indexes_drop split: option.split)

lemma clear_inv: "lifecycle_inv n s \<Longrightarrow> lifecycle_inv n (MemoryLifecycle_clear s)"
  by (auto simp: MemoryLifecycle_clear_def Let_def lifecycle_inv_defs indexes_empty)

lemma resolved_event_inv: "lifecycle_inv n s \<Longrightarrow> lifecycle_inv n (snd (resolved_event uuid q hs s))"
  by (cases hs) (auto simp: resolved_event_def intro: record_event_inv(1) [OF _ surjective_pairing])

lemma snd_call_bind_same: "(\<And>x s. snd (f x s) = s) \<Longrightarrow> snd (call_bind r f) = snd r"
  by (cases "(r, f)" rule: call_bind.cases) auto

lemma resolve_state: "snd (MemoryResolver_resolve lower visit uuid ms q s) =
   snd (resolved_event uuid q (resolve_tiers lower visit q s [] (query_order q)) s)"
  by (simp add: MemoryResolver_resolve_def Let_def snd_call_bind_same)

lemma resolve_with_policy_state:
  "\<exists>hs. snd (MemoryResolver_resolve_with_policy unordered lower visit uuid ms q pol s) = snd (resolved_event uuid q hs s)"
proof (cases "ranked_matches unordered pol (matching_entries lower visit q s)")
  case None
  then show ?thesis
    by (intro exI [of _ "[]"]) (simp add: MemoryResolver_resolve_with_policy_def resolved_event_def)
next
  case (Some ranked)
  then show ?thesis by (auto simp: MemoryResolver_resolve_with_policy_def Let_def snd_call_bind_same)
qed

section \<open>The transition system\<close>

inductive lifecycle_step :: "MemoryLifecycle \<Rightarrow> MemoryLifecycle \<Rightarrow> bool" where
  step_create: "lifecycle_step s (snd (MemoryLifecycle_create uuid e s))"
| step_get: "lifecycle_step s (snd (MemoryLifecycle_get now i s))"
| step_update: "lifecycle_step s (snd (MemoryLifecycle_update now i v s))"
| step_delete: "lifecycle_step s (snd (MemoryLifecycle_delete i s))"
| step_clear: "lifecycle_step s (MemoryLifecycle_clear s)"
| step_record: "lifecycle_step s (snd (MemoryLifecycle_record_event ev s))"
| step_resolve: "lifecycle_step s (snd (MemoryResolver_resolve lower visit uuid ms q s))"
| step_resolve_policy:
    "lifecycle_step s (snd (MemoryResolver_resolve_with_policy unordered lower visit uuid ms q pol s))"

lemma lifecycle_inv_new: "lifecycle_inv n (MemoryLifecycle_new n)"
  by (simp add: lifecycle_inv_defs indexes_empty MemoryLifecycle_new_def)

lemma lifecycle_step_inv:
  assumes "lifecycle_step s s'" "lifecycle_inv n s"
  shows "lifecycle_inv n s'"
  using assms
proof (induction rule: lifecycle_step.induct)
  case (step_record s ev)
  then show ?case using record_event_inv(1) [OF _ surjective_pairing] by blast
next
  case (step_resolve s lower visit uuid ms q)
  then show ?case by (simp add: resolve_state resolved_event_inv)
next
  case (step_resolve_policy s unordered lower visit uuid ms q pol)
  then show ?case using resolve_with_policy_state resolved_event_inv by metis
qed (simp_all add: create_inv get_inv update_inv delete_inv clear_inv)

interpretation lifecycle: preserved_system "\<lambda>s. s = MemoryLifecycle_new n" lifecycle_step "lifecycle_inv n" for n
  by unfold_locales (auto simp: lifecycle_inv_new intro: lifecycle_step_inv)

section \<open>What clients rely on\<close>

locale tiered_store =
  fixes ok :: "'s \<Rightarrow> bool"
    and live :: "'s \<Rightarrow> string \<Rightarrow> MemoryEntry option"
    and listing :: "MemoryTier \<Rightarrow> 's \<Rightarrow> MemoryEntry list"
    and remove :: "string \<Rightarrow> 's \<Rightarrow> (MemoryRuntimeError, unit) call \<times> 's"
  assumes listing_exact: "ok s \<Longrightarrow> set (listing t s) = {e \<in> ran (live s). tier e = t}"
    and listing_distinct: "ok s \<Longrightarrow> distinct (map entry_id (listing t s))"
    and live_id: "ok s \<Longrightarrow> live s i = Some e \<Longrightarrow> entry_id e = i"
    and remove_live: "ok s \<Longrightarrow> live s i \<noteq> None \<Longrightarrow>
      \<exists>s'. remove i s = (Returned (), s') \<and> ok s' \<and> live s' = (live s)(i := None)"
begin

lemma listing_live: "ok s \<Longrightarrow> e \<in> set (listing t s) \<Longrightarrow> live s (entry_id e) = Some e \<and> tier e = t"
  using listing_exact live_id by (fastforce simp: ran_def)

end

text \<open>The ids of the entries of some tiers that satisfy a condition.\<close>

definition victims :: "(MemoryEntry \<Rightarrow> bool) \<Rightarrow> MemoryTier set \<Rightarrow> (string \<rightharpoonup> MemoryEntry) \<Rightarrow> string set" where
  "victims P ts m = {i. \<exists>e. m i = Some e \<and> tier e \<in> ts \<and> P e}"

lemma victims_split: "t \<notin> ts \<Longrightarrow> victims P ts (m |` (- victims P {t} m)) = victims P ts m"
  by (auto simp: victims_def restrict_map_def)

lemma victims_insert: "victims P (insert t ts) m = victims P {t} m \<union> victims P ts m"
  by (auto simp: victims_def)

lemma victims_disjoint: "t \<notin> ts \<Longrightarrow> victims P {t} m \<inter> victims P ts m = {}"
  by (auto simp: victims_def)

text \<open>The loop that removes the entries of a list that satisfy a condition, counting them.\<close>

fun sweep_entries ::
  "(string \<Rightarrow> 's \<Rightarrow> (MemoryRuntimeError, unit) call \<times> 's) \<Rightarrow> (MemoryEntry \<Rightarrow> bool) \<Rightarrow> MemoryEntry list \<Rightarrow> nat \<Rightarrow> 's \<Rightarrow>
   (MemoryRuntimeError, nat) call \<times> 's" where
  "sweep_entries remove P [] n s = (Returned n, s)"
| "sweep_entries remove P (e # es) n s =
     (if P e then call_bind (remove (entry_id e) s) (\<lambda>_ s'. sweep_entries remove P es (n + 1) s')
      else sweep_entries remove P es n s)"

context tiered_store
begin

lemma sweep_exact:
  assumes "ok s" "distinct (map entry_id es)" "\<forall>e \<in> set es. live s (entry_id e) = Some e"
  shows "\<exists>s'. sweep_entries remove P es n s = (Returned (n + length (filter P es)), s') \<and> ok s' \<and>
    (\<forall>i. live s' i = (if i \<in> entry_id ` {e \<in> set es. P e} then None else live s i))"
  using assms
proof (induction es arbitrary: n s)
  case (Cons e es)
  show ?case
  proof (cases "P e")
    case True
    obtain s1 where s1: "remove (entry_id e) s = (Returned (), s1)" "ok s1" "live s1 = (live s)(entry_id e := None)"
      using remove_live [OF Cons.prems(1), of "entry_id e"] Cons.prems(3) by auto
    have "\<forall>e' \<in> set es. live s1 (entry_id e') = Some e'"
    proof
      fix e' assume "e' \<in> set es"
      then have "entry_id e' \<noteq> entry_id e" "live s (entry_id e') = Some e'"
        using Cons.prems(2) bspec [OF Cons.prems(3), of e'] by (auto simp: rev_image_eqI)
      then show "live s1 (entry_id e') = Some e'" by (simp add: s1(3))
    qed
    then obtain s' where "sweep_entries remove P es (n + 1) s1 = (Returned (n + 1 + length (filter P es)), s')" "ok s'"
      "\<forall>i. live s' i = (if i \<in> entry_id ` {e \<in> set es. P e} then None else live s1 i)"
      using Cons.IH [OF s1(2), of "n + 1"] Cons.prems(2) unfolding list.map distinct.simps by blast
    then show ?thesis using True s1(1,3) by (intro exI [of _ s']) auto
  next
    case False
    obtain s' where "sweep_entries remove P es n s = (Returned (n + length (filter P es)), s')" "ok s'"
      "\<forall>i. live s' i = (if i \<in> entry_id ` {e \<in> set es. P e} then None else live s i)"
      using Cons.IH [OF Cons.prems(1), of n] Cons.prems(2,3) unfolding list.map distinct.simps list.set by blast
    then show ?thesis using False by (intro exI [of _ s']) auto
  qed
qed simp

lemma sweep_tier:
  assumes "ok s" "set es \<subseteq> set (listing t s)" "distinct (map entry_id es)"
  shows "\<exists>s'. sweep_entries remove P es n s = (Returned (n + length (filter P es)), s') \<and> ok s' \<and>
    (\<forall>i. live s' i = (if i \<in> entry_id ` {e \<in> set es. P e} then None else live s i))"
  using sweep_exact [OF assms(1,3)] listing_live [OF assms(1)] assms(2) by blast

lemma sweep_listing:
  assumes "ok s"
  shows "\<exists>s'. sweep_entries remove P (listing t s) n s = (Returned (n + card (victims P {t} (live s))), s') \<and> ok s' \<and>
    live s' = live s |` (- victims P {t} (live s)) \<and> finite (victims P {t} (live s))"
proof -
  have d: "distinct (map entry_id (listing t s))" using listing_distinct [OF assms] .
  have l: "set (listing t s) = {e \<in> ran (live s). tier e = t}" using listing_exact [OF assms] .
  have v: "entry_id ` {e \<in> set (listing t s). P e} = victims P {t} (live s)"
    unfolding l victims_def ran_def using live_id [OF assms] by (auto simp: image_iff)
  have "card (victims P {t} (live s)) = length (filter P (listing t s))"
    using distinct_card [of "map entry_id (filter P (listing t s))"] d v by (simp add: distinct_map_filter)
  moreover have "finite (victims P {t} (live s))" unfolding v [symmetric] by simp
  moreover obtain s' where "sweep_entries remove P (listing t s) n s = (Returned (n + length (filter P (listing t s))), s')"
    "ok s'" "\<forall>i. live s' i = (if i \<in> victims P {t} (live s) then None else live s i)"
    using sweep_tier [OF assms subset_refl d, of P n] unfolding v by blast
  ultimately show ?thesis by (intro exI [of _ s']) (auto simp: restrict_map_def fun_eq_iff)
qed

end

definition lifecycle_ok :: "MemoryLifecycle \<Rightarrow> bool" where
  "lifecycle_ok s \<longleftrightarrow> index_consistent s \<and> \<not> entries_poisoned s \<and> \<not> tier_index_poisoned s"

lemma map_filter_ids:
  assumes "\<And>i. i \<in> set ids \<Longrightarrow> m i \<noteq> None" "\<And>i e. m i = Some e \<Longrightarrow> entry_id e = i"
  shows "map entry_id (List.map_filter m ids) = ids"
  using assms by (induction ids) (auto simp: List.map_filter_def)

lemma list_by_tier_exact:
  assumes "iteration_order visit" "lifecycle_ok s"
  shows "map entry_id (MemoryLifecycle_list_by_tier visit t s) = visit (tier_ids (tier_index s) t)"
    and "set (MemoryLifecycle_list_by_tier visit t s) = {e \<in> ran (map_of (entries s)). tier e = t}"
proof -
  have c: "index_consistent s" and p: "\<not> entries_poisoned s" "\<not> tier_index_poisoned s"
    using assms(2) by (simp_all add: lifecycle_ok_def)
  have v: "set (visit xs) = set xs" for xs using set_iteration_order [OF assms(1)] .
  have v0: "visit [] = []" using iteration_orderD [OF assms(1), of "[]"] by simp
  have l: "MemoryLifecycle_list_by_tier visit t s = List.map_filter (map_of (entries s)) (visit (tier_ids (tier_index s) t))"
    using p v0 by (simp add: MemoryLifecycle_list_by_tier_def tier_ids_def map_filter_simps split: option.split)
  note ix = indexesD [OF c [unfolded index_consistent_def, THEN conjunct2]]
  show "map entry_id (MemoryLifecycle_list_by_tier visit t s) = visit (tier_ids (tier_index s) t)"
    unfolding l by (rule map_filter_ids) (use v ix(1,3) in auto)
  show "set (MemoryLifecycle_list_by_tier visit t s) = {e \<in> ran (map_of (entries s)). tier e = t}"
    unfolding l using v ix(3) by (auto simp: List.map_filter_def ran_def) force
qed

lemma delete_live:
  assumes "lifecycle_ok s" "map_of (entries s) i \<noteq> None"
  shows "\<exists>s'. MemoryLifecycle_delete i s = (Returned (), s') \<and> lifecycle_ok s' \<and>
    map_of (entries s') = (map_of (entries s))(i := None) \<and> max_events s' = max_events s"
  using assms
  by (auto simp: MemoryLifecycle_delete_def lifecycle_ok_def index_consistent_def distinct_delete delete_conv'
      simp del: map_of_eq_Some_iff intro: indexes_drop)

interpretation store: tiered_store "\<lambda>s. lifecycle_ok s \<and> iteration_order visit" "\<lambda>s. map_of (entries s)"
  "MemoryLifecycle_list_by_tier visit" MemoryLifecycle_delete for visit
proof
  fix s t i and e :: MemoryEntry
  assume ok: "lifecycle_ok s \<and> iteration_order visit"
  then have c: "index_consistent s" by (simp add: lifecycle_ok_def)
  show "set (MemoryLifecycle_list_by_tier visit t s) = {e \<in> ran (map_of (entries s)). tier e = t}"
    using list_by_tier_exact(2) ok by blast
  have "distinct (visit (tier_ids (tier_index s) t))"
    using c ok iteration_orderD indexesD(2) by (metis index_consistent_def mset_eq_imp_distinct_iff)
  then show "distinct (map entry_id (MemoryLifecycle_list_by_tier visit t s))"
    using list_by_tier_exact(1) ok by simp
  show "map_of (entries s) i = Some e \<Longrightarrow> entry_id e = i"
    using c indexesD(1) unfolding index_consistent_def by blast
  show "map_of (entries s) i \<noteq> None \<Longrightarrow> \<exists>s'. MemoryLifecycle_delete i s = (Returned (), s') \<and>
    (lifecycle_ok s' \<and> iteration_order visit) \<and> map_of (entries s') = (map_of (entries s))(i := None)"
    using delete_live ok by blast
qed

section \<open>Properties\<close>

lemma reachable_lifecycle_inv: "lifecycle_step\<^sup>*\<^sup>* (MemoryLifecycle_new n) s \<Longrightarrow> lifecycle_inv n s"
  by (rule lifecycle.reachable_inv [OF refl])

text \<open>C3: In every state the memory store can reach, even after a panic inside an operation, the tier
  index lists each entry under exactly the tier it has, once, every entry is filed under its own id,
  and the event log is within its capacity; and a store with room for at least one event never
  poisons a lock, so no operation of it ever fails for that reason.\<close>

theorem memory_index_consistent:
  assumes "lifecycle_step\<^sup>*\<^sup>* (MemoryLifecycle_new n) s"
  shows "distinct (map fst (entries s)) \<and>
    (\<forall>i e. map_of (entries s) i = Some e \<longrightarrow> entry_id e = i) \<and>
    (\<forall>t. distinct (tier_ids (tier_index s) t) \<and>
       set (tier_ids (tier_index s) t) = {i. \<exists>e. map_of (entries s) i = Some e \<and> tier e = t}) \<and>
    length (events s) \<le> n \<and>
    (0 < n \<longrightarrow> \<not> entries_poisoned s \<and> \<not> tier_index_poisoned s \<and> \<not> events_poisoned s)"
proof -
  have inv: "lifecycle_inv n s" by (rule reachable_lifecycle_inv [OF assms])
  then have ix: "distinct (map fst (entries s))" "indexes (tier_index s) (map_of (entries s))" "length (events s) \<le> n"
    by (simp_all add: lifecycle_inv_defs)
  have "0 < n \<longrightarrow> \<not> entries_poisoned s \<and> \<not> tier_index_poisoned s \<and> \<not> events_poisoned s"
    using inv by (auto simp: lifecycle_inv_defs)
  with ix(1,3) ix(2) [unfolded indexes_def] show ?thesis by blast
qed

definition note_entry :: "string \<Rightarrow> MemoryTier \<Rightarrow> string \<Rightarrow> MemoryEntry" where
  "note_entry i t k = MemoryEntry_new 100 i t k ''v''"

definition note_store :: MemoryLifecycle where
  "note_store = snd (MemoryLifecycle_create ''u2'' (note_entry ''b'' Project ''build'')
     (snd (MemoryLifecycle_create ''u1'' (note_entry ''a'' Session ''build'') (MemoryLifecycle_new 4))))"

lemma note_store_reachable: "lifecycle_step\<^sup>*\<^sup>* (MemoryLifecycle_new 4) note_store"
  unfolding note_store_def
  by (rule rtranclp.rtrancl_into_rtrancl [OF rtranclp.rtrancl_into_rtrancl [OF rtranclp.rtrancl_refl]]; rule step_create)

theorem memory_index_consistent_witness:
  "set (tier_ids (tier_index note_store) Session) = {i. \<exists>e. map_of (entries note_store) i = Some e \<and> tier e = Session} \<and>
   \<not> events_poisoned note_store"
  using memory_index_consistent [OF note_store_reachable] by simp

text \<open>An event log of capacity zero makes the first \<open>create\<close> panic while it holds the entry and index
  locks: from then on every \<open>create\<close>, \<open>update\<close> and \<open>delete\<close> fails with a poisoned lock, and every read
  finds nothing, although the entry was stored. A capacity of at least one never lets \<open>create\<close> panic.\<close>

theorem zero_capacity_poisons:
  assumes "s = snd (MemoryLifecycle_create uuid e (MemoryLifecycle_new n))"
  shows "fst (MemoryLifecycle_create uuid e (MemoryLifecycle_new n)) = (if n = 0 then Panicked else Returned (entry_id e)) \<and>
    map_of (entries s) (entry_id e) = Some e \<and>
    (n = 0 \<longrightarrow>
      MemoryLifecycle_create uuid' e' s = (Raised (poison_err ''entries''), s) \<and>
      MemoryLifecycle_update now i v s = (Raised (poison_err ''entries''), s) \<and>
      MemoryLifecycle_delete i s = (Raised (poison_err ''entries''), s) \<and>
      MemoryLifecycle_get now i s = (None, s) \<and> MemoryLifecycle_list_by_tier visit t s = [] \<and>
      MemoryLifecycle_entry_count s = 0)"
  using assms
  by (simp add: MemoryLifecycle_create_def MemoryLifecycle_new_def MemoryLifecycle_record_event_def MemoryLifecycle_update_def
      MemoryLifecycle_delete_def MemoryLifecycle_get_def MemoryLifecycle_list_by_tier_def MemoryLifecycle_entry_count_def)

theorem zero_capacity_poisons_witness:
  "MemoryLifecycle_delete ''a'' (snd (MemoryLifecycle_create ''u'' (note_entry ''a'' Session ''k'') (MemoryLifecycle_new 0))) =
   (Raised (Generic ''lock poisoned: entries''),
    snd (MemoryLifecycle_create ''u'' (note_entry ''a'' Session ''k'') (MemoryLifecycle_new 0)))"
  using zero_capacity_poisons [OF refl, of "''u''" "note_entry ''a'' Session ''k''" 0] by (simp add: poison_err_def)

subsection \<open>Resolution\<close>

lemma first_match_None: "first_match lower q [] es = None \<longleftrightarrow> (\<forall>e \<in> set es. \<not> entry_matches lower q e)"
  by (induction es) auto

lemma first_match_Some: "first_match lower q [] es = Some e \<Longrightarrow> e \<in> set es \<and> entry_matches lower q e"
  by (induction es) (auto split: if_splits)

lemma resolve_tiers_hit:
  assumes "resolve_tiers lower visit q s [] ts = h # hs"
  shows "hs = [] \<and> entry_matches lower q h \<and>
    (\<exists>pre t post. ts = pre @ t # post \<and> h \<in> set (MemoryLifecycle_list_by_tier visit t s) \<and>
       (\<forall>u \<in> set pre. \<forall>e \<in> set (MemoryLifecycle_list_by_tier visit u s). \<not> entry_matches lower q e))"
  using assms
proof (induction ts)
  case (Cons t ts)
  show ?case
  proof (cases "first_match lower q [] (MemoryLifecycle_list_by_tier visit t s)")
    case None
    then have "resolve_tiers lower visit q s [] ts = h # hs" using Cons.prems by simp
    note IH = Cons.IH [OF this]
    then obtain pre u post where "ts = pre @ u # post" "h \<in> set (MemoryLifecycle_list_by_tier visit u s)"
      "\<forall>u \<in> set pre. \<forall>e \<in> set (MemoryLifecycle_list_by_tier visit u s). \<not> entry_matches lower q e" by blast
    moreover have "\<forall>e \<in> set (MemoryLifecycle_list_by_tier visit t s). \<not> entry_matches lower q e"
      using None by (simp add: first_match_None)
    ultimately show ?thesis
      using IH by (intro conjI exI [of _ "t # pre"] exI [of _ u] exI [of _ post]) simp_all
  next
    case (Some e)
    then show ?thesis using Cons.prems first_match_Some [OF Some] by (intro conjI exI [of _ "[]"]) auto
  qed
qed simp

lemma resolve_tiers_miss:
  "resolve_tiers lower visit q s [] ts = [] \<longleftrightarrow>
   (\<forall>t \<in> set ts. \<forall>e \<in> set (MemoryLifecycle_list_by_tier visit t s). \<not> entry_matches lower q e)"
  by (induction ts) (auto simp: first_match_None dest: first_match_Some split: option.split)

lemma resolve_hits: "MemoryResolver_resolve lower visit uuid ms q s = (Returned r, s') \<Longrightarrow>
   hits r = resolve_tiers lower visit q s [] (query_order q)"
  by (auto simp: MemoryResolver_resolve_def Let_def call_bind_Returned MemoryResolution_new_def)

text \<open>A query that asks the tiers in their order returns no hit exactly when no stored entry of those
  tiers matches; otherwise it returns a single hit, a stored entry that matches, from the first tier
  that has one. The limit of the query plays no part, although the documentation promises all
  matching entries up to it.\<close>

theorem resolve_first_tier:
  assumes "iteration_order visit" "lifecycle_ok s"
    and "MemoryResolver_resolve lower visit uuid ms q s = (Returned r, s')"
  shows "(hits r = [] \<longleftrightarrow> (\<forall>e \<in> ran (map_of (entries s)). tier e \<in> set (query_order q) \<longrightarrow> \<not> entry_matches lower q e)) \<and>
    (hits r \<noteq> [] \<longrightarrow>
      (\<exists>h pre post. hits r = [h] \<and> h \<in> ran (map_of (entries s)) \<and> entry_matches lower q h \<and>
        query_order q = pre @ tier h # post \<and>
        (\<forall>e \<in> ran (map_of (entries s)). tier e \<in> set pre \<longrightarrow> \<not> entry_matches lower q e)))"
proof -
  have l: "set (MemoryLifecycle_list_by_tier visit t s) = {e \<in> ran (map_of (entries s)). tier e = t}" for t
    using store.listing_exact assms(1,2) by blast
  note h = resolve_hits [OF assms(3)]
  have miss: "hits r = [] \<longleftrightarrow> (\<forall>e \<in> ran (map_of (entries s)). tier e \<in> set (query_order q) \<longrightarrow> \<not> entry_matches lower q e)"
    unfolding h resolve_tiers_miss l by blast
  have hit: "\<exists>h pre post. hits r = [h] \<and> h \<in> ran (map_of (entries s)) \<and> entry_matches lower q h \<and>
        query_order q = pre @ tier h # post \<and>
        (\<forall>e \<in> ran (map_of (entries s)). tier e \<in> set pre \<longrightarrow> \<not> entry_matches lower q e)" if "hits r = x # xs" for x xs
  proof -
    note x = resolve_tiers_hit [OF that [unfolded h]]
    then obtain pre t post where "query_order q = pre @ t # post" "x \<in> set (MemoryLifecycle_list_by_tier visit t s)"
      "\<forall>u \<in> set pre. \<forall>e \<in> set (MemoryLifecycle_list_by_tier visit u s). \<not> entry_matches lower q e" by blast
    then show ?thesis using x that by (intro exI [of _ x] exI [of _ pre] exI [of _ post]) (simp add: l)
  qed
  show ?thesis using miss hit by (cases "hits r") auto
qed

theorem resolve_first_tier_witness:
  "hits (MemoryResolution_new (MemoryQuery_new ''build'') [note_entry ''a'' Session ''build''] 0) \<noteq> [] \<and>
   note_entry ''a'' Session ''build'' \<in> ran (map_of (entries note_store))"
proof -
  let ?r = "MemoryResolution_new (MemoryQuery_new ''build'') [note_entry ''a'' Session ''build''] 0"
  let ?s = "snd (MemoryResolver_resolve id id ''u3'' 0 (MemoryQuery_new ''build'') note_store)"
  have ok: "lifecycle_ok note_store"
    using reachable_lifecycle_inv [OF note_store_reachable] by (auto simp: lifecycle_ok_def lifecycle_inv_defs)
  have "MemoryResolver_resolve id id ''u3'' 0 (MemoryQuery_new ''build'') note_store = (Returned ?r, ?s)"
    by code_simp
  from resolve_first_tier [OF _ ok this]
  show ?thesis by (auto simp: iteration_order_def MemoryResolution_new_def)
qed

definition ordered_metadata :: "MemoryEntry \<Rightarrow> bool" where
  "ordered_metadata e \<longleftrightarrow> importance (metadata e) \<noteq> NaN \<and> confidence (metadata e) \<noteq> NaN"

lemma conflict_cmp_total: "\<forall>e \<in> set es. ordered_metadata e \<Longrightarrow> total_cmp_on (conflict_cmp pol) es"
proof (cases pol)
  case FirstMatch
  then show ?thesis by (auto intro: total_cmp_onI)
qed (auto intro: total_cmp_on_cmp_desc simp: ordered_metadata_def f64_cmp_or_equal_cmp)

lemma set_matching_entries:
  assumes "iteration_order visit" "lifecycle_ok s"
  shows "set (matching_entries lower visit q s) =
    {e \<in> ran (map_of (entries s)). tier e \<in> set (query_order q) \<and> entry_matches lower q e}"
proof -
  have "set (MemoryLifecycle_list_by_tier visit t s) = {e \<in> ran (map_of (entries s)). tier e = t}" for t
    using store.listing_exact assms by blast
  then show ?thesis by (auto simp: matching_entries_def)
qed

lemma ranked_matches_sorted:
  assumes "\<forall>e \<in> set es. ordered_metadata e"
  shows "\<exists>ranked. ranked_matches unordered pol es = Some ranked \<and> mset ranked = mset es \<and>
    sorted_wrt (\<lambda>a b. conflict_cmp pol a b \<noteq> Greater) ranked"
proof (cases "pol = FirstMatch")
  case True
  have "sorted_wrt (\<lambda>a b. conflict_cmp FirstMatch a b \<noteq> Greater) es" by (induction es) auto
  with True show ?thesis by (simp add: ranked_matches_def)
next
  case False
  then show ?thesis
    using conflict_cmp_total [OF assms, of pol] sorted_stable_sort [of "conflict_cmp pol" es]
    by (simp add: ranked_matches_def slice_sort_by_def)
qed

lemma resolved_event_returns: "max_events s > 0 \<Longrightarrow> \<exists>s'. resolved_event uuid q hs s = (Returned (), s')"
  by (cases hs) (simp_all add: resolved_event_def MemoryLifecycle_record_event_def)

text \<open>C32: When no stored importance or confidence is NaN, resolving with a conflict policy never panics
  while sorting and returns the best matches: its hits are stored entries that match, as many as the
  limit allows, in the order of the policy, and none of the matches left out is ranked above a hit.\<close>

theorem policy_resolution_top_k:
  assumes "iteration_order visit" "lifecycle_ok s" "max_events s > 0"
    and "\<forall>e \<in> ran (map_of (entries s)). ordered_metadata e"
  shows "\<exists>r s'. MemoryResolver_resolve_with_policy unordered lower visit uuid ms q pol s = (Returned r, s') \<and>
    (\<exists>rest. mset (hits r) + mset rest = mset (matching_entries lower visit q s) \<and>
       sorted_wrt (\<lambda>a b. conflict_cmp pol a b \<noteq> Greater) (hits r) \<and>
       (\<forall>h \<in> set (hits r). \<forall>e \<in> set rest. conflict_cmp pol h e \<noteq> Greater)) \<and>
    length (hits r) = min (max_results q) (length (matching_entries lower visit q s)) \<and>
    set (hits r) \<subseteq> {e \<in> ran (map_of (entries s)). tier e \<in> set (query_order q) \<and> entry_matches lower q e}"
proof -
  let ?es = "matching_entries lower visit q s"
  have set: "set ?es = {e \<in> ran (map_of (entries s)). tier e \<in> set (query_order q) \<and> entry_matches lower q e}"
    by (rule set_matching_entries [OF assms(1,2)])
  then have "\<forall>e \<in> set ?es. ordered_metadata e" using assms(4) by blast
  then obtain ranked where r: "ranked_matches unordered pol ?es = Some ranked" "mset ranked = mset ?es"
    "sorted_wrt (\<lambda>a b. conflict_cmp pol a b \<noteq> Greater) ranked"
    using ranked_matches_sorted by blast
  let ?hs = "take (max_results q) ranked"
  obtain s' where "MemoryResolver_resolve_with_policy unordered lower visit uuid ms q pol s =
      (Returned (MemoryResolution_new q ?hs ms), s')"
    using r(1) resolved_event_returns [OF assms(3), of uuid q ?hs]
    by (auto simp: MemoryResolver_resolve_with_policy_def Let_def)
  moreover have "hits (MemoryResolution_new q ?hs ms) = ?hs" by (simp add: MemoryResolution_new_def)
  moreover have "mset ?hs + mset (drop (max_results q) ranked) = mset ?es"
    using r(2) by (metis append_take_drop_id mset_append)
  moreover have "length ?hs = min (max_results q) (length ?es)" using r(2) by (metis length_take min.commute size_mset)
  moreover have "set ?hs \<subseteq> set ?es" using r(2) mset_eq_setD set_take_subset by metis
  moreover have "\<forall>h \<in> set ?hs. \<forall>e \<in> set (drop (max_results q) ranked). conflict_cmp pol h e \<noteq> Greater"
    using sorted_wrt_take_drop [OF r(3)] by blast
  moreover have "sorted_wrt (\<lambda>a b. conflict_cmp pol a b \<noteq> Greater) ?hs" using r(3) by (rule sorted_wrt_take)
  ultimately show ?thesis
    unfolding set by (intro exI [of _ "MemoryResolution_new q ?hs ms"] exI [of _ s'] exI [of _ "drop (max_results q) ranked"] conjI) simp_all
qed

theorem policy_resolution_top_k_witness:
  "\<exists>r s'. MemoryResolver_resolve_with_policy Some id id ''u3'' 0 (MemoryQuery_new ''build'') MostRecent note_store = (Returned r, s') \<and>
    length (hits r) = 2"
proof -
  have ok: "lifecycle_ok note_store" "max_events note_store > 0"
    using reachable_lifecycle_inv [OF note_store_reachable] by (auto simp: lifecycle_ok_def lifecycle_inv_defs)
  have "map snd (entries note_store) = [note_entry ''a'' Session ''build'', note_entry ''b'' Project ''build'']"
    by code_simp
  then have "ran (map_of (entries note_store)) \<subseteq> {note_entry ''a'' Session ''build'', note_entry ''b'' Project ''build''}"
    using image_eqI [where f = snd] by (fastforce simp: ran_def dest!: map_of_SomeD arg_cong [where f = set])
  then have "\<forall>e \<in> ran (map_of (entries note_store)). ordered_metadata e"
    by (auto simp: ordered_metadata_def note_entry_def MemoryEntry_new_def MemoryMetadata_default_def)
  moreover have "length (matching_entries id id (MemoryQuery_new ''build'') note_store) = 2" by code_simp
  moreover have "max_results (MemoryQuery_new ''build'') = 10" by (simp add: MemoryQuery_new_def)
  ultimately show ?thesis
    using policy_resolution_top_k [OF _ ok, of id Some id "''u3''" 0 "MemoryQuery_new ''build''" MostRecent]
    by (auto simp: iteration_order_def)
qed

end
