(* ===== verification/Memory_Snapshots.thy ===== *)
theory Memory_Snapshots
  imports Memory_Lifecycle
begin

text \<open>
  Snapshots of the memory tiers (\<^verbatim>\<open>memory_runtime/snapshot.rs\<close>) and the diagnostics counters
  (\<^verbatim>\<open>memory_runtime/diagnostics.rs\<close>).

  The hash maps are association lists read through \<open>map_of\<close>; where the code iterates, the order is
  a parameter. Metadata is compared with the derived \<open>PartialEq\<close>, under which NaN differs from
  itself. The counters are \<open>u64\<close> and wrap, as in a release build.

  The lemmas characterise merging and comparing as operations on finite maps.
\<close>

section \<open>Snapshots\<close>

record SnapshotMetadata =
  description :: "string option"
  snapshot_tags :: "string list"
  snapshot_source :: "string option"

definition SnapshotMetadata_default :: SnapshotMetadata where
  "SnapshotMetadata_default = \<lparr>description = None, snapshot_tags = [], snapshot_source = None\<rparr>"

definition SnapshotMetadata_with_description :: "SnapshotMetadata \<Rightarrow> string \<Rightarrow> SnapshotMetadata" where
  "SnapshotMetadata_with_description m d = m\<lparr>description := Some d\<rparr>"

definition SnapshotMetadata_with_tag :: "SnapshotMetadata \<Rightarrow> string \<Rightarrow> SnapshotMetadata" where
  "SnapshotMetadata_with_tag m t = m\<lparr>snapshot_tags := push_unique t (snapshot_tags m)\<rparr>"

definition SnapshotMetadata_with_source :: "SnapshotMetadata \<Rightarrow> string \<Rightarrow> SnapshotMetadata" where
  "SnapshotMetadata_with_source m s = m\<lparr>snapshot_source := Some s\<rparr>"

record MemorySnapshot =
  snap_id :: string
  snap_created_at :: "64 word"
  snap_tier :: MemoryTier
  snap_entries :: "(string \<times> MemoryEntry) list"
  snap_metadata :: SnapshotMetadata

definition MemorySnapshot_new :: "64 word \<Rightarrow> string \<Rightarrow> MemoryTier \<Rightarrow> (string \<times> MemoryEntry) list \<Rightarrow> MemorySnapshot" where
  "MemorySnapshot_new now i t es =
     \<lparr>snap_id = i, snap_created_at = now, snap_tier = t, snap_entries = es, snap_metadata = SnapshotMetadata_default\<rparr>"

definition MemorySnapshot_with_metadata :: "MemorySnapshot \<Rightarrow> SnapshotMetadata \<Rightarrow> MemorySnapshot" where
  "MemorySnapshot_with_metadata s m = s\<lparr>snap_metadata := m\<rparr>"

definition MemorySnapshot_entry_count :: "MemorySnapshot \<Rightarrow> nat" where
  "MemorySnapshot_entry_count s = length (snap_entries s)"

definition MemorySnapshot_contains :: "MemorySnapshot \<Rightarrow> string \<Rightarrow> bool" where
  "MemorySnapshot_contains s i \<longleftrightarrow> map_of (snap_entries s) i \<noteq> None"

definition MemorySnapshot_get :: "MemorySnapshot \<Rightarrow> string \<Rightarrow> MemoryEntry option" where
  "MemorySnapshot_get s i = map_of (snap_entries s) i"

record SnapshotDiff =
  snapshot_a_id :: string
  snapshot_b_id :: string
  diff_added :: "MemoryEntry list"
  diff_removed :: "string list"
  diff_modified :: "(string \<times> MemoryEntry \<times> MemoryEntry) list"

definition SnapshotDiff_is_empty :: "SnapshotDiff \<Rightarrow> bool" where
  "SnapshotDiff_is_empty d \<longleftrightarrow> diff_added d = [] \<and> diff_removed d = [] \<and> diff_modified d = []"

definition SnapshotDiff_summary :: "SnapshotDiff \<Rightarrow> string" where
  "SnapshotDiff_summary d =
     ''Diff('' @ snapshot_a_id d @ '', '' @ snapshot_b_id d @ ''): +'' @ show_nat (length (diff_added d)) @
     '' entries, -'' @ show_nat (length (diff_removed d)) @ '' entries, ~'' @ show_nat (length (diff_modified d)) @ '' modified''"

text \<open>The derived \<open>PartialEq\<close> of \<open>MemoryMetadata\<close>.\<close>

definition MemoryMetadata_eq :: "MemoryMetadata \<Rightarrow> MemoryMetadata \<Rightarrow> bool" where
  "MemoryMetadata_eq a b \<longleftrightarrow>
     f64_eq (importance a) (importance b) \<and> f64_eq (confidence a) (confidence b) \<and>
     tags a = tags b \<and> source a = source b \<and> context_note a = context_note b"

definition entry_changed :: "MemoryEntry \<Rightarrow> MemoryEntry \<Rightarrow> bool" where
  "entry_changed a b \<longleftrightarrow> entry_value a \<noteq> entry_value b \<or> \<not> MemoryMetadata_eq (metadata a) (metadata b)"

definition snapshot_compute_diff ::
  "((string \<times> MemoryEntry) list \<Rightarrow> (string \<times> MemoryEntry) list) \<Rightarrow> MemorySnapshot \<Rightarrow> MemorySnapshot \<Rightarrow> SnapshotDiff" where
  "snapshot_compute_diff visit a b =
     \<lparr>snapshot_a_id = snap_id a, snapshot_b_id = snap_id b,
      diff_added = [eb. (i, eb) \<leftarrow> visit (snap_entries b), map_of (snap_entries a) i = None],
      diff_removed = [i. (i, ea) \<leftarrow> visit (snap_entries a), map_of (snap_entries b) i = None],
      diff_modified = List.map_filter
        (\<lambda>(i, eb). case map_of (snap_entries a) i of
             None \<Rightarrow> None
           | Some ea \<Rightarrow> if entry_changed ea eb then Some (i, ea, eb) else None)
        (visit (snap_entries b))\<rparr>"

section \<open>The snapshot manager\<close>

record SnapshotManager =
  snapshots :: "(string \<times> MemorySnapshot) list"
  snap_events :: "MemoryEvent list"
  snap_max_events :: nat
  snapshots_poisoned :: bool
  snap_events_poisoned :: bool

definition SnapshotManager_new :: "nat \<Rightarrow> SnapshotManager" where
  "SnapshotManager_new n =
     \<lparr>snapshots = [], snap_events = [], snap_max_events = n, snapshots_poisoned = False, snap_events_poisoned = False\<rparr>"

definition SnapshotManager_record_event :: "MemoryEvent \<Rightarrow> SnapshotManager \<Rightarrow> (MemoryRuntimeError, unit) call \<times> SnapshotManager" where
  "SnapshotManager_record_event ev m =
     (if snap_events_poisoned m then (Returned (), m)
      else if length (snap_events m) \<ge> snap_max_events m then
        (if snap_events m = [] then (Panicked, m\<lparr>snap_events_poisoned := True\<rparr>)
         else (Returned (), m\<lparr>snap_events := tl (snap_events m) @ [ev]\<rparr>))
      else (Returned (), m\<lparr>snap_events := snap_events m @ [ev]\<rparr>))"

text \<open>The event of \<open>create\<close> carries the number of snapshots, taken while the write lock is held.\<close>

definition SnapshotManager_create ::
  "64 word \<Rightarrow> string \<Rightarrow> string \<Rightarrow> MemoryTier \<Rightarrow> (string \<times> MemoryEntry) list \<Rightarrow> SnapshotMetadata \<Rightarrow> SnapshotManager \<Rightarrow>
   (MemoryRuntimeError, string) call \<times> SnapshotManager" where
  "SnapshotManager_create now uuid i t es md m =
     (if snapshots_poisoned m then (Raised (poison_err ''snapshots''), m)
      else
        let m1 = m\<lparr>snapshots := AList.update i (MemorySnapshot_with_metadata (MemorySnapshot_new now i t es) md) (snapshots m)\<rparr> in
        (case SnapshotManager_record_event (SnapshotCreated uuid i (length (snapshots m1)) 0) m1 of
           (Panicked, m2) \<Rightarrow> (Panicked, m2\<lparr>snapshots_poisoned := True\<rparr>)
         | (_, m2) \<Rightarrow> (Returned i, m2)))"

definition SnapshotManager_get :: "string \<Rightarrow> SnapshotManager \<Rightarrow> MemorySnapshot option" where
  "SnapshotManager_get i m = (if snapshots_poisoned m then None else map_of (snapshots m) i)"

definition SnapshotManager_list ::
  "((string \<times> MemorySnapshot) list \<Rightarrow> (string \<times> MemorySnapshot) list) \<Rightarrow> SnapshotManager \<Rightarrow> MemorySnapshot list" where
  "SnapshotManager_list visit m = (if snapshots_poisoned m then [] else map snd (visit (snapshots m)))"

definition SnapshotManager_delete :: "string \<Rightarrow> SnapshotManager \<Rightarrow> (MemoryRuntimeError, unit) call \<times> SnapshotManager" where
  "SnapshotManager_delete i m =
     (if snapshots_poisoned m then (Raised (poison_err ''snapshots''), m)
      else case map_of (snapshots m) i of
        None \<Rightarrow> (Raised (SnapshotError (''Snapshot '' @ i @ '' not found'')), m)
      | Some _ \<Rightarrow> (Returned (), m\<lparr>snapshots := AList.delete i (snapshots m)\<rparr>))"

text \<open>The loop of \<open>merge\<close>: the entries of the source that the target lacks are added and counted.\<close>

definition merge_step :: "string \<times> MemoryEntry \<Rightarrow> (string \<times> MemoryEntry) list \<times> nat \<Rightarrow> (string \<times> MemoryEntry) list \<times> nat" where
  "merge_step = (\<lambda>(i, e) (merged, n).
     if map_of merged i = None then (AList.update i e merged, n + 1) else (merged, n))"

definition merge_entries ::
  "((string \<times> MemoryEntry) list \<Rightarrow> (string \<times> MemoryEntry) list) \<Rightarrow> (string \<times> MemoryEntry) list \<Rightarrow> (string \<times> MemoryEntry) list \<Rightarrow>
   (string \<times> MemoryEntry) list \<times> nat" where
  "merge_entries visit src tgt = fold merge_step (visit src) (tgt, 0)"

definition SnapshotManager_merge ::
  "((string \<times> MemoryEntry) list \<Rightarrow> (string \<times> MemoryEntry) list) \<Rightarrow> 64 word \<Rightarrow> string \<Rightarrow> string \<Rightarrow> string \<Rightarrow> string \<Rightarrow> SnapshotManager \<Rightarrow>
   (MemoryRuntimeError, MemorySnapshot) call \<times> SnapshotManager" where
  "SnapshotManager_merge visit now uuid source_id target_id new_id m =
     (if snapshots_poisoned m then (Raised (poison_err ''snapshots''), m)
      else case map_of (snapshots m) source_id of
        None \<Rightarrow> (Raised (SnapshotError (''Source snapshot '' @ source_id @ '' not found'')), m)
      | Some src \<Rightarrow>
          (case map_of (snapshots m) target_id of
             None \<Rightarrow> (Raised (SnapshotError (''Target snapshot '' @ target_id @ '' not found'')), m)
           | Some tgt \<Rightarrow>
               let (es, n) = merge_entries visit (snap_entries src) (snap_entries tgt);
                   merged = MemorySnapshot_new now new_id (snap_tier tgt) es;
                   m1 = m\<lparr>snapshots := AList.update new_id merged (snapshots m)\<rparr>
               in call_bind (SnapshotManager_record_event (SnapshotMerged uuid source_id target_id n 0) m1)
                    (\<lambda>_ m2. (Returned merged, m2))))"

definition SnapshotManager_diff ::
  "((string \<times> MemoryEntry) list \<Rightarrow> (string \<times> MemoryEntry) list) \<Rightarrow> string \<Rightarrow> string \<Rightarrow> SnapshotManager \<Rightarrow>
   (MemoryRuntimeError, SnapshotDiff) call" where
  "SnapshotManager_diff visit a b m =
     (if snapshots_poisoned m then Raised (poison_err ''snapshots'')
      else case map_of (snapshots m) a of
        None \<Rightarrow> Raised (SnapshotError (''Snapshot '' @ a @ '' not found''))
      | Some sa \<Rightarrow>
          (case map_of (snapshots m) b of
             None \<Rightarrow> Raised (SnapshotError (''Snapshot '' @ b @ '' not found''))
           | Some sb \<Rightarrow> Returned (snapshot_compute_diff visit sa sb)))"

definition SnapshotManager_restore ::
  "((string \<times> MemoryEntry) list \<Rightarrow> (string \<times> MemoryEntry) list) \<Rightarrow> string \<Rightarrow> SnapshotManager \<Rightarrow>
   (MemoryRuntimeError, MemoryEntry list) call" where
  "SnapshotManager_restore visit i m =
     (case SnapshotManager_get i m of
        None \<Rightarrow> Raised (SnapshotError (''Snapshot '' @ i @ '' not found''))
      | Some s \<Rightarrow> Returned (map snd (visit (snap_entries s))))"

definition SnapshotManager_snapshot_count :: "SnapshotManager \<Rightarrow> nat" where
  "SnapshotManager_snapshot_count m = (if snapshots_poisoned m then 0 else length (snapshots m))"

definition SnapshotManager_events :: "SnapshotManager \<Rightarrow> MemoryEvent list" where
  "SnapshotManager_events m = (if snap_events_poisoned m then [] else snap_events m)"

definition SnapshotManager_default :: SnapshotManager where
  "SnapshotManager_default = SnapshotManager_new 1000"

section \<open>Diagnostics\<close>

record MemoryDiagnostics =
  diag_hits :: "64 word"
  diag_misses :: "64 word"
  evictions :: "64 word"
  snapshot_creations :: "64 word"
  snapshot_merges :: "64 word"
  policy_violations :: "64 word"
  resolution_latencies :: "64 word list"
  diag_events :: "MemoryEvent list"
  diag_max_events :: nat

definition MemoryDiagnostics_new :: "nat \<Rightarrow> MemoryDiagnostics" where
  "MemoryDiagnostics_new n =
     \<lparr>diag_hits = 0, diag_misses = 0, evictions = 0, snapshot_creations = 0, snapshot_merges = 0,
      policy_violations = 0, resolution_latencies = [], diag_events = [], diag_max_events = n\<rparr>"

definition MemoryDiagnostics_record_hit :: "MemoryDiagnostics \<Rightarrow> MemoryDiagnostics" where
  "MemoryDiagnostics_record_hit d = d\<lparr>diag_hits := diag_hits d + 1\<rparr>"

definition MemoryDiagnostics_record_miss :: "MemoryDiagnostics \<Rightarrow> MemoryDiagnostics" where
  "MemoryDiagnostics_record_miss d = d\<lparr>diag_misses := diag_misses d + 1\<rparr>"

definition MemoryDiagnostics_record_eviction :: "MemoryDiagnostics \<Rightarrow> MemoryDiagnostics" where
  "MemoryDiagnostics_record_eviction d = d\<lparr>evictions := evictions d + 1\<rparr>"

definition MemoryDiagnostics_record_snapshot_creation :: "MemoryDiagnostics \<Rightarrow> MemoryDiagnostics" where
  "MemoryDiagnostics_record_snapshot_creation d = d\<lparr>snapshot_creations := snapshot_creations d + 1\<rparr>"

definition MemoryDiagnostics_record_snapshot_merge :: "MemoryDiagnostics \<Rightarrow> MemoryDiagnostics" where
  "MemoryDiagnostics_record_snapshot_merge d = d\<lparr>snapshot_merges := snapshot_merges d + 1\<rparr>"

definition MemoryDiagnostics_record_policy_violation :: "MemoryDiagnostics \<Rightarrow> MemoryDiagnostics" where
  "MemoryDiagnostics_record_policy_violation d = d\<lparr>policy_violations := policy_violations d + 1\<rparr>"

definition MemoryDiagnostics_record_resolution_latency :: "64 word \<Rightarrow> MemoryDiagnostics \<Rightarrow> MemoryDiagnostics" where
  "MemoryDiagnostics_record_resolution_latency ms d =
     (let ls = resolution_latencies d @ [ms] in
      d\<lparr>resolution_latencies := (if length ls > 1000 then tl ls else ls)\<rparr>)"

text \<open>\<open>None\<close> is the panic of removing from an empty vector.\<close>

definition MemoryDiagnostics_record_event :: "MemoryEvent \<Rightarrow> MemoryDiagnostics \<Rightarrow> MemoryDiagnostics option" where
  "MemoryDiagnostics_record_event ev d =
     (if length (diag_events d) \<ge> diag_max_events d then
        (if diag_events d = [] then None else Some (d\<lparr>diag_events := tl (diag_events d) @ [ev]\<rparr>))
      else Some (d\<lparr>diag_events := diag_events d @ [ev]\<rparr>))"

definition MemoryDiagnostics_hit_rate :: "(rat \<Rightarrow> f64) \<Rightarrow> MemoryDiagnostics \<Rightarrow> f64" where
  "MemoryDiagnostics_hit_rate rnd d =
     (let total = diag_hits d + diag_misses d in
      if total = 0 then Fin 0
      else f64_div rnd (rnd (of_nat (unat (diag_hits d)))) (rnd (of_nat (unat total))))"

definition MemoryDiagnostics_avg_resolution_latency :: "MemoryDiagnostics \<Rightarrow> 64 word" where
  "MemoryDiagnostics_avg_resolution_latency d =
     (if resolution_latencies d = [] then 0
      else sum_list (resolution_latencies d) div of_nat (length (resolution_latencies d)))"

definition MemoryDiagnostics_p95_resolution_latency :: "(rat \<Rightarrow> f64) \<Rightarrow> MemoryDiagnostics \<Rightarrow> 64 word" where
  "MemoryDiagnostics_p95_resolution_latency rnd d =
     (let sorted = sort (resolution_latencies d);
          idx = f64_to_usize (f64_mul rnd (rnd (of_nat (length sorted))) (rnd (95 / 100)))
      in if sorted = [] then 0 else sorted ! min idx (length sorted - 1))"

record MemoryDiagnosticsSummary =
  total_hits :: "64 word"
  total_misses :: "64 word"
  hit_rate :: f64
  total_evictions :: "64 word"
  total_snapshot_creations :: "64 word"
  total_snapshot_merges :: "64 word"
  total_policy_violations :: "64 word"
  avg_resolution_latency_ms :: "64 word"
  p95_resolution_latency_ms :: "64 word"
  recent_events :: nat

definition MemoryDiagnostics_summary :: "(rat \<Rightarrow> f64) \<Rightarrow> MemoryDiagnostics \<Rightarrow> MemoryDiagnosticsSummary" where
  "MemoryDiagnostics_summary rnd d =
     \<lparr>total_hits = diag_hits d, total_misses = diag_misses d, hit_rate = MemoryDiagnostics_hit_rate rnd d,
      total_evictions = evictions d, total_snapshot_creations = snapshot_creations d,
      total_snapshot_merges = snapshot_merges d, total_policy_violations = policy_violations d,
      avg_resolution_latency_ms = MemoryDiagnostics_avg_resolution_latency d,
      p95_resolution_latency_ms = MemoryDiagnostics_p95_resolution_latency rnd d,
      recent_events = length (diag_events d)\<rparr>"

definition MemoryDiagnostics_clear :: "MemoryDiagnostics \<Rightarrow> MemoryDiagnostics" where
  "MemoryDiagnostics_clear d = MemoryDiagnostics_new (diag_max_events d)"

definition MemoryDiagnosticsSummary_is_healthy :: "MemoryDiagnosticsSummary \<Rightarrow> bool" where
  "MemoryDiagnosticsSummary_is_healthy s \<longleftrightarrow> total_policy_violations s = 0"

section \<open>Merging and comparing as maps\<close>

lemma map_of_visit:
  assumes "iteration_order visit" "distinct (map fst es)"
  shows "map_of (visit es) = map_of es"
proof -
  have "distinct (map fst (visit es))"
    using assms iteration_orderD by (metis mset_eq_imp_distinct_iff mset_map)
  then show ?thesis using assms by (simp add: map_of_inject_set set_iteration_order)
qed

lemma map_of_merge_fold: "map_of (fst (fold merge_step es (tgt, n))) = map_of es ++ map_of tgt"
  by (induction es arbitrary: tgt n) (auto simp: merge_step_def update_conv' map_add_def fun_eq_iff split: option.split)

lemma count_merge_fold:
  assumes "distinct (map fst es)"
  shows "snd (fold merge_step es (tgt, n)) = n + length (filter (\<lambda>(i, e). map_of tgt i = None) es)"
  using assms
proof (induction es arbitrary: tgt n)
  case (Cons x es)
  obtain i e where x: "x = (i, e)" by (cases x)
  have "filter (\<lambda>(j, e). map_of (AList.update i e' tgt) j = None) es = filter (\<lambda>(j, e). map_of tgt j = None) es" for e'
    using Cons.prems x by (intro filter_cong) (auto simp: update_conv' rev_image_eqI split: if_splits)
  then show ?case using Cons x by (simp add: merge_step_def)
qed simp

lemma distinct_merge_fold: "distinct (map fst tgt) \<Longrightarrow> distinct (map fst (fst (fold merge_step es (tgt, n))))"
  by (induction es arbitrary: tgt n) (auto simp: merge_step_def distinct_update)

lemma merge_entries_exact:
  assumes "iteration_order visit" "distinct (map fst src)" "merge_entries visit src tgt = (es, n)"
  shows "map_of es = map_of src ++ map_of tgt" "n = card (dom (map_of src) - dom (map_of tgt))"
    "distinct (map fst tgt) \<Longrightarrow> distinct (map fst es)"
proof -
  have d: "distinct (map fst (visit src))"
    using assms(1,2) iteration_orderD by (metis mset_eq_imp_distinct_iff mset_map)
  have f: "es = fst (fold merge_step (visit src) (tgt, 0))" "n = snd (fold merge_step (visit src) (tgt, 0))"
    using assms(3) by (simp_all add: merge_entries_def)
  show "map_of es = map_of src ++ map_of tgt"
    using assms(1,2) by (simp add: f map_of_merge_fold map_of_visit)
  let ?new = "filter (\<lambda>(i, e). map_of tgt i = None) (visit src)"
  have "distinct (map fst ?new)" using d by (simp add: distinct_map_filter)
  moreover have "set (map fst ?new) = dom (map_of src) - dom (map_of tgt)"
    using set_iteration_order [OF assms(1), of src] by (auto simp: map_of_eq_None_iff dom_map_of_conv_image_fst image_iff)
  ultimately have "card (dom (map_of src) - dom (map_of tgt)) = length ?new"
    by (metis distinct_card length_map)
  then show "n = card (dom (map_of src) - dom (map_of tgt))"
    by (simp add: f count_merge_fold [OF d])
  show "distinct (map fst tgt) \<Longrightarrow> distinct (map fst es)" by (simp add: f distinct_merge_fold)
qed

lemma set_diff_modified:
  assumes "iteration_order visit" "distinct (map fst (snap_entries b))"
  shows "set (diff_modified (snapshot_compute_diff visit a b)) =
    {(i, ea, eb). map_of (snap_entries a) i = Some ea \<and> map_of (snap_entries b) i = Some eb \<and> entry_changed ea eb}"
  using assms set_iteration_order [OF assms(1), of "snap_entries b"]
  by (force simp: snapshot_compute_diff_def List.map_filter_def split: option.splits if_splits)

lemma set_diff_added:
  assumes "iteration_order visit" "distinct (map fst (snap_entries b))"
  shows "set (diff_added (snapshot_compute_diff visit a b)) =
    {eb. \<exists>i. map_of (snap_entries b) i = Some eb \<and> map_of (snap_entries a) i = None}"
  using assms set_iteration_order [OF assms(1), of "snap_entries b"]
  by (force simp: snapshot_compute_diff_def)

lemma set_diff_removed:
  assumes "iteration_order visit"
  shows "set (diff_removed (snapshot_compute_diff visit a b)) = dom (map_of (snap_entries a)) - dom (map_of (snap_entries b))"
proof -
  have "set (diff_removed (snapshot_compute_diff visit a b)) = {i \<in> fst ` set (snap_entries a). map_of (snap_entries b) i = None}"
    using set_iteration_order [OF assms, of "snap_entries a"] by (fastforce simp: snapshot_compute_diff_def intro: rev_image_eqI)
  then show ?thesis by (auto simp: map_of_eq_None_iff dom_map_of_conv_image_fst)
qed

lemma empty_set_iff: "xs = [] \<longleftrightarrow> set xs = {}"
  by simp

section \<open>Properties\<close>

text \<open>The difference of two snapshots is empty exactly when they hold the same ids and every
  common entry has an equal value and equal metadata in both; access times and counts do not matter, but an
  entry with a NaN importance or confidence always counts as modified, even against itself.\<close>

theorem snapshot_diff_empty_iff:
  assumes "iteration_order visit" "distinct (map fst (snap_entries a))" "distinct (map fst (snap_entries b))"
  shows "SnapshotDiff_is_empty (snapshot_compute_diff visit a b) \<longleftrightarrow>
    dom (map_of (snap_entries a)) = dom (map_of (snap_entries b)) \<and>
    (\<forall>i ea eb. map_of (snap_entries a) i = Some ea \<longrightarrow> map_of (snap_entries b) i = Some eb \<longrightarrow>
       entry_value ea = entry_value eb \<and> MemoryMetadata_eq (metadata ea) (metadata eb))"
proof -
  have "diff_added (snapshot_compute_diff visit a b) = [] \<longleftrightarrow> dom (map_of (snap_entries b)) \<subseteq> dom (map_of (snap_entries a))"
    unfolding empty_set_iff set_diff_added [OF assms(1,3)] by (auto simp: dom_def)
  moreover have "diff_removed (snapshot_compute_diff visit a b) = [] \<longleftrightarrow> dom (map_of (snap_entries a)) \<subseteq> dom (map_of (snap_entries b))"
    unfolding empty_set_iff set_diff_removed [OF assms(1)] by blast
  moreover have "diff_modified (snapshot_compute_diff visit a b) = [] \<longleftrightarrow>
      (\<forall>i ea eb. map_of (snap_entries a) i = Some ea \<longrightarrow> map_of (snap_entries b) i = Some eb \<longrightarrow> \<not> entry_changed ea eb)"
    unfolding empty_set_iff set_diff_modified [OF assms(1,3)] by blast
  ultimately show ?thesis unfolding SnapshotDiff_is_empty_def entry_changed_def by blast
qed

definition one_entry_snapshot :: "f64 \<Rightarrow> MemorySnapshot" where
  "one_entry_snapshot c = MemorySnapshot_new 0 ''s'' Session
     [(''a'', (note_entry ''a'' Session ''k'')\<lparr>metadata := MemoryMetadata_default\<lparr>confidence := c\<rparr>\<rparr>)]"

theorem snapshot_diff_empty_iff_witness:
  "SnapshotDiff_is_empty (snapshot_compute_diff id (one_entry_snapshot (Fin 1)) (one_entry_snapshot (Fin 1))) \<and>
   \<not> SnapshotDiff_is_empty (snapshot_compute_diff id (one_entry_snapshot NaN) (one_entry_snapshot NaN))"
  using snapshot_diff_empty_iff [of id "one_entry_snapshot (Fin 1)" "one_entry_snapshot (Fin 1)"]
    snapshot_diff_empty_iff [of id "one_entry_snapshot NaN" "one_entry_snapshot NaN"]
  by (simp add: iteration_order_def one_entry_snapshot_def MemorySnapshot_new_def MemoryMetadata_eq_def f64_eq_def
      MemoryMetadata_default_def)

text \<open>C30: Merging two stored snapshots implements the union of two finite maps: the new snapshot holds every entry of the
  target and those of the source whose id the target lacks, has the tier of the target, is stored under
  the new id and leaves the other snapshots alone; the event counts exactly the entries that came from the source.\<close>

theorem merge_is_map_union:
  assumes "iteration_order visit" "\<not> snapshots_poisoned m" "0 < snap_max_events m" "\<not> snap_events_poisoned m"
    and "map_of (snapshots m) src_id = Some src" "map_of (snapshots m) tgt_id = Some tgt"
    and "distinct (map fst (snap_entries src))"
  shows "\<exists>merged m'. SnapshotManager_merge visit now uuid src_id tgt_id new_id m = (Returned merged, m') \<and>
    map_of (snap_entries merged) = map_of (snap_entries src) ++ map_of (snap_entries tgt) \<and>
    snap_tier merged = snap_tier tgt \<and> snap_id merged = new_id \<and>
    map_of (snapshots m') = (map_of (snapshots m))(new_id \<mapsto> merged) \<and>
    last (snap_events m') = SnapshotMerged uuid src_id tgt_id
      (card (dom (map_of (snap_entries src)) - dom (map_of (snap_entries tgt)))) 0"
proof -
  obtain es n where e: "merge_entries visit (snap_entries src) (snap_entries tgt) = (es, n)" by (rule prod.exhaust)
  note x = merge_entries_exact [OF assms(1,7) e]
  show ?thesis
    using assms(2-6) x(1,2)
    by (auto simp: SnapshotManager_merge_def e SnapshotManager_record_event_def MemorySnapshot_new_def update_conv' Let_def)
qed

definition two_snapshots :: SnapshotManager where
  "two_snapshots = (SnapshotManager_new 10)
     \<lparr>snapshots := [(''x'', one_entry_snapshot (Fin 0)), (''y'', (one_entry_snapshot (Fin 1))\<lparr>snap_tier := Global\<rparr>)]\<rparr>"

theorem merge_is_map_union_witness:
  "\<exists>merged m'. SnapshotManager_merge id 0 ''u'' ''x'' ''y'' ''z'' two_snapshots = (Returned merged, m') \<and>
    map_of (snap_entries merged) = map_of (snap_entries (one_entry_snapshot (Fin 1))) \<and> snap_tier merged = Global"
  using merge_is_map_union [of id two_snapshots "''x''" "one_entry_snapshot (Fin 0)" "''y''"
      "(one_entry_snapshot (Fin 1))\<lparr>snap_tier := Global\<rparr>" 0 "''u''" "''z''"]
  by (auto simp: iteration_order_def two_snapshots_def SnapshotManager_new_def one_entry_snapshot_def MemorySnapshot_new_def
      map_add_def fun_eq_iff)

lemma p95_recorded:
  assumes "resolution_latencies d \<noteq> []"
  shows "MemoryDiagnostics_p95_resolution_latency rnd d \<in> set (resolution_latencies d)"
proof -
  let ?s = "sort (resolution_latencies d)"
  have "length ?s \<noteq> 0" using assms by (simp only: length_sort length_0_conv not_False_eq_True)
  then have "?s ! min i (length ?s - 1) \<in> set ?s" for i by (intro nth_mem) linarith
  moreover have "?s \<noteq> []" using \<open>length ?s \<noteq> 0\<close> by (metis list.size(3))
  ultimately show ?thesis by (simp add: MemoryDiagnostics_p95_resolution_latency_def Let_def)
qed

text \<open>The rounded quotient of hits by all requests is a proportion, as long as their sum does not wrap.\<close>

lemma hit_rate_unit:
  assumes "ieee_rounding rnd" "unat (diag_hits d) + unat (diag_misses d) < 2 ^ 64"
    and "\<And>n. 0 < n \<Longrightarrow> \<exists>c > 0. rnd (of_nat n) = Fin c"
  shows "Fin 0 \<le> MemoryDiagnostics_hit_rate rnd d \<and> MemoryDiagnostics_hit_rate rnd d \<le> Fin 1"
proof (cases "diag_hits d + diag_misses d = 0")
  case True
  then show ?thesis by (simp add: MemoryDiagnostics_hit_rate_def)
next
  case False
  have t: "unat (diag_hits d + diag_misses d) = unat (diag_hits d) + unat (diag_misses d)"
    using assms(2) by (simp add: unat_word_ariths)
  have "0 < unat (diag_hits d + diag_misses d)" using False by (simp add: unat_gt_0)
  then obtain c where c: "rnd (of_nat (unat (diag_hits d + diag_misses d))) = Fin c" "c > 0" using assms(3) by blast
  have le: "Fin 0 \<le> rnd (of_nat (unat (diag_hits d)))"
    "rnd (of_nat (unat (diag_hits d))) \<le> rnd (of_nat (unat (diag_hits d + diag_misses d)))"
    using rnd_mono [OF assms(1), of 0 "of_nat (unat (diag_hits d))"] assms(1)
      rnd_mono [OF assms(1), of "of_nat (unat (diag_hits d))" "of_nat (unat (diag_hits d + diag_misses d))"]
    by (simp_all only: ieee_rounding_def t of_nat_0_le_iff of_nat_mono le_add1)
  then obtain a where a: "rnd (of_nat (unat (diag_hits d))) = Fin a" "0 \<le> a" "a \<le> c"
    unfolding c(1) by (rule f64_between) 
  have r: "MemoryDiagnostics_hit_rate rnd d = rnd (a / c)"
    unfolding MemoryDiagnostics_hit_rate_def Let_def a(1) c(1) using False by simp
  have "0 \<le> a / c" "a / c \<le> 1" using a(2,3) c(2) by simp_all
  then show ?thesis unfolding r by (rule rnd_unit [OF assms(1)]) simp
qed

end
