(* ===== verification/Memory_Coordinator.thy ===== *)
theory Memory_Coordinator
  imports Memory_Snapshots
begin

text \<open>
  The tier coordinator (\<^verbatim>\<open>memory_runtime/tier_coordination.rs\<close>) and the runtime facade
  (\<^verbatim>\<open>memory_runtime/mod.rs\<close>).

  The coordinator owns an entry store, a snapshot manager, the diagnostics behind a lock and a policy
  behind a lock. No operation takes the write side of the policy lock, so it cannot be poisoned and
  the model keeps the policy alone. The store operations lift to the coordinator, which is then
  again a \<open>tiered_store\<close>: its sweeps are those of that locale. The facade holds a second, separate
  store.
\<close>

section \<open>The coordinator\<close>

record TierCoordinator =
  lifecycle :: MemoryLifecycle
  snapshot_manager :: SnapshotManager
  diagnostics :: MemoryDiagnostics
  diagnostics_poisoned :: bool
  policy :: MemoryPolicy

definition TierCoordinator_new :: "MemoryPolicy \<Rightarrow> TierCoordinator" where
  "TierCoordinator_new p =
     \<lparr>lifecycle = MemoryLifecycle_new 1000, snapshot_manager = SnapshotManager_new 1000,
      diagnostics = MemoryDiagnostics_new 1000, diagnostics_poisoned = False, policy = p\<rparr>"

definition on_lifecycle :: "(MemoryLifecycle \<Rightarrow> 'r \<times> MemoryLifecycle) \<Rightarrow> TierCoordinator \<Rightarrow> 'r \<times> TierCoordinator" where
  "on_lifecycle f c = (case f (lifecycle c) of (r, l) \<Rightarrow> (r, c\<lparr>lifecycle := l\<rparr>))"

definition on_snapshots :: "(SnapshotManager \<Rightarrow> 'r \<times> SnapshotManager) \<Rightarrow> TierCoordinator \<Rightarrow> 'r \<times> TierCoordinator" where
  "on_snapshots f c = (case f (snapshot_manager c) of (r, m) \<Rightarrow> (r, c\<lparr>snapshot_manager := m\<rparr>))"

definition record_diagnostics :: "(MemoryDiagnostics \<Rightarrow> MemoryDiagnostics) \<Rightarrow> TierCoordinator \<Rightarrow> TierCoordinator" where
  "record_diagnostics f c = (if diagnostics_poisoned c then c else c\<lparr>diagnostics := f (diagnostics c)\<rparr>)"

definition TierCoordinator_get :: "64 word \<Rightarrow> string \<Rightarrow> TierCoordinator \<Rightarrow> MemoryEntry option \<times> TierCoordinator" where
  "TierCoordinator_get now i = on_lifecycle (MemoryLifecycle_get now i)"

definition TierCoordinator_update ::
  "64 word \<Rightarrow> string \<Rightarrow> string \<Rightarrow> TierCoordinator \<Rightarrow> (MemoryRuntimeError, unit) call \<times> TierCoordinator" where
  "TierCoordinator_update now i v = on_lifecycle (MemoryLifecycle_update now i v)"

definition TierCoordinator_delete :: "string \<Rightarrow> TierCoordinator \<Rightarrow> (MemoryRuntimeError, unit) call \<times> TierCoordinator" where
  "TierCoordinator_delete i = on_lifecycle (MemoryLifecycle_delete i)"

definition TierCoordinator_list_by_tier :: "(string list \<Rightarrow> string list) \<Rightarrow> MemoryTier \<Rightarrow> TierCoordinator \<Rightarrow> MemoryEntry list" where
  "TierCoordinator_list_by_tier visit t c = MemoryLifecycle_list_by_tier visit t (lifecycle c)"

definition TierCoordinator_list_all ::
  "((string \<times> MemoryEntry) list \<Rightarrow> (string \<times> MemoryEntry) list) \<Rightarrow> TierCoordinator \<Rightarrow> MemoryEntry list" where
  "TierCoordinator_list_all visit c = MemoryLifecycle_list_all visit (lifecycle c)"

text \<open>One eviction: the entry is deleted and the counter moves.\<close>

definition evict_entry :: "string \<Rightarrow> TierCoordinator \<Rightarrow> (MemoryRuntimeError, unit) call \<times> TierCoordinator" where
  "evict_entry i c =
     call_bind (TierCoordinator_delete i c) (\<lambda>_ c'. (Returned (), record_diagnostics MemoryDiagnostics_record_eviction c'))"

text \<open>The sort of each eviction policy; the two that rank by metadata compare in descending order.\<close>

fun eviction_cmp :: "EvictionPolicy \<Rightarrow> MemoryEntry \<Rightarrow> MemoryEntry \<Rightarrow> cmp_ordering" where
  "eviction_cmp LRU a b = cmp (last_accessed a) (last_accessed b)"
| "eviction_cmp LFU a b = cmp (access_count a) (access_count b)"
| "eviction_cmp LowestImportance a b = f64_cmp_or_equal (importance (metadata b)) (importance (metadata a))"
| "eviction_cmp LowestConfidence a b = f64_cmp_or_equal (confidence (metadata b)) (confidence (metadata a))"
| "eviction_cmp FIFO a b = cmp (created_at a) (created_at b)"

definition TierCoordinator_evict_by_policy ::
  "(MemoryEntry list \<Rightarrow> MemoryEntry list option) \<Rightarrow> (string list \<Rightarrow> string list) \<Rightarrow> 64 word \<Rightarrow> MemoryTier \<Rightarrow> TierCoordinator \<Rightarrow>
   (MemoryRuntimeError, nat) call \<times> TierCoordinator" where
  "TierCoordinator_evict_by_policy unordered visit now t c =
     (let es = TierCoordinator_list_by_tier visit t c in
      if es = [] then (Returned 0, c)
      else case slice_sort_by unordered (eviction_cmp (eviction (policy c))) es of
        None \<Rightarrow> (Panicked, c)
      | Some to_evict \<Rightarrow>
          let eviction_count = length to_evict div 4 in
          call_bind (sweep_entries evict_entry (evictable now (policy c)) (take eviction_count to_evict) 0 c)
            (\<lambda>_ c'. (Returned eviction_count, c')))"

definition TierCoordinator_create ::
  "(MemoryEntry list \<Rightarrow> MemoryEntry list option) \<Rightarrow> (string list \<Rightarrow> string list) \<Rightarrow> 64 word \<Rightarrow> string \<Rightarrow> MemoryEntry \<Rightarrow> TierCoordinator \<Rightarrow>
   (MemoryRuntimeError, string) call \<times> TierCoordinator" where
  "TierCoordinator_create unordered visit now uuid e c =
     (if \<not> MemoryPolicy_is_access_allowed (policy c) (tier e) (entry_key e) (confidence (metadata e)) then
        (Raised (PolicyViolation (''Access denied for key '' @ [CHR 0x27] @ entry_key e @ [CHR 0x27] @
            '' in tier '' @ MemoryTier_display (tier e))),
         record_diagnostics MemoryDiagnostics_record_policy_violation c)
      else
        call_bind
          (if MemoryLifecycle_count_by_tier (tier e) (lifecycle c) \<ge> max_entries_per_tier (policy c)
           then TierCoordinator_evict_by_policy unordered visit now (tier e) c
           else (Returned 0, c))
          (\<lambda>_ c1. call_bind (on_lifecycle (MemoryLifecycle_create uuid e) c1)
             (\<lambda>i c2. (Returned i, record_diagnostics MemoryDiagnostics_record_hit c2))))"

definition TierCoordinator_snapshot_tier ::
  "(string list \<Rightarrow> string list) \<Rightarrow> 64 word \<Rightarrow> string \<Rightarrow> string \<Rightarrow> MemoryTier \<Rightarrow> TierCoordinator \<Rightarrow>
   (MemoryRuntimeError, string) call \<times> TierCoordinator" where
  "TierCoordinator_snapshot_tier visit now uuid i t c =
     (let es = fold (\<lambda>e. AList.update (entry_id e) e) (TierCoordinator_list_by_tier visit t c) [] in
      call_bind (on_snapshots (SnapshotManager_create now uuid i t es SnapshotMetadata_default) c)
        (\<lambda>j c'. (Returned j, record_diagnostics MemoryDiagnostics_record_snapshot_creation c')))"

definition TierCoordinator_merge_snapshots ::
  "((string \<times> MemoryEntry) list \<Rightarrow> (string \<times> MemoryEntry) list) \<Rightarrow> 64 word \<Rightarrow> string \<Rightarrow> string \<Rightarrow> string \<Rightarrow> string \<Rightarrow> TierCoordinator \<Rightarrow>
   (MemoryRuntimeError, MemorySnapshot) call \<times> TierCoordinator" where
  "TierCoordinator_merge_snapshots visit now uuid source_id target_id new_id c =
     call_bind (on_snapshots (SnapshotManager_merge visit now uuid source_id target_id new_id) c)
       (\<lambda>s c'. (Returned s, record_diagnostics MemoryDiagnostics_record_snapshot_merge c'))"

definition TierCoordinator_diff_snapshots ::
  "((string \<times> MemoryEntry) list \<Rightarrow> (string \<times> MemoryEntry) list) \<Rightarrow> string \<Rightarrow> string \<Rightarrow> TierCoordinator \<Rightarrow>
   (MemoryRuntimeError, SnapshotDiff) call" where
  "TierCoordinator_diff_snapshots visit a b c = SnapshotManager_diff visit a b (snapshot_manager c)"

definition TierCoordinator_restore_from_snapshot ::
  "((string \<times> MemoryEntry) list \<Rightarrow> (string \<times> MemoryEntry) list) \<Rightarrow> string \<Rightarrow> TierCoordinator \<Rightarrow>
   (MemoryRuntimeError, MemoryEntry list) call" where
  "TierCoordinator_restore_from_snapshot visit i c = SnapshotManager_restore visit i (snapshot_manager c)"

text \<open>The three tiers one after the other; a failed deletion leaves the loop.\<close>

fun retention_sweep ::
  "(string list \<Rightarrow> string list) \<Rightarrow> 64 word \<Rightarrow> MemoryTier list \<Rightarrow> nat \<Rightarrow> TierCoordinator \<Rightarrow> (MemoryRuntimeError, nat) call \<times> TierCoordinator" where
  "retention_sweep visit now [] n c = (Returned n, c)"
| "retention_sweep visit now (t # ts) n c =
     call_bind (sweep_entries TierCoordinator_delete (evictable now (policy c)) (TierCoordinator_list_by_tier visit t c) n c)
       (\<lambda>n' c'. retention_sweep visit now ts n' c')"

definition record_retention_event :: "string \<Rightarrow> nat \<Rightarrow> TierCoordinator \<Rightarrow> (MemoryRuntimeError, unit) call \<times> TierCoordinator" where
  "record_retention_event uuid n c =
     (if diagnostics_poisoned c then (Returned (), c)
      else case MemoryDiagnostics_record_event (PolicyApplied uuid ''retention'' ''evicted'' n 0) (diagnostics c) of
        None \<Rightarrow> (Panicked, c\<lparr>diagnostics_poisoned := True\<rparr>)
      | Some d \<Rightarrow> (Returned (), c\<lparr>diagnostics := d\<rparr>))"

definition TierCoordinator_apply_retention ::
  "(string list \<Rightarrow> string list) \<Rightarrow> 64 word \<Rightarrow> string \<Rightarrow> TierCoordinator \<Rightarrow> (MemoryRuntimeError, nat) call \<times> TierCoordinator" where
  "TierCoordinator_apply_retention visit now uuid c =
     call_bind (retention_sweep visit now [Session, Project, Global] 0 c)
       (\<lambda>n c1. call_bind (record_retention_event uuid n c1) (\<lambda>_ c2. (Returned n, c2)))"

definition TierCoordinator_diagnostics :: "(rat \<Rightarrow> f64) \<Rightarrow> TierCoordinator \<Rightarrow> MemoryDiagnosticsSummary" where
  "TierCoordinator_diagnostics rnd c =
     (if diagnostics_poisoned c then
        \<lparr>total_hits = 0, total_misses = 0, hit_rate = Fin 0, total_evictions = 0, total_snapshot_creations = 0,
         total_snapshot_merges = 0, total_policy_violations = 0, avg_resolution_latency_ms = 0,
         p95_resolution_latency_ms = 0, recent_events = 0\<rparr>
      else MemoryDiagnostics_summary rnd (diagnostics c))"

definition TierCoordinator_event_count :: "TierCoordinator \<Rightarrow> nat" where
  "TierCoordinator_event_count c = (if diagnostics_poisoned c then 0 else length (diag_events (diagnostics c)))"

definition TierCoordinator_entry_count :: "TierCoordinator \<Rightarrow> nat" where
  "TierCoordinator_entry_count c = MemoryLifecycle_entry_count (lifecycle c)"

definition TierCoordinator_entry_count_by_tier :: "MemoryTier \<Rightarrow> TierCoordinator \<Rightarrow> nat" where
  "TierCoordinator_entry_count_by_tier t c = MemoryLifecycle_count_by_tier t (lifecycle c)"

definition TierCoordinator_default :: TierCoordinator where
  "TierCoordinator_default = TierCoordinator_new MemoryPolicy_default"

section \<open>The runtime facade\<close>

text \<open>The resolver field shares its store with the field \<open>lifecycle\<close>; the coordinator has a store of its own.\<close>

record MemoryRuntime =
  runtime_lifecycle :: MemoryLifecycle
  coordinator :: TierCoordinator
  runtime_snapshots :: SnapshotManager

definition MemoryRuntime_new :: "MemoryPolicy \<Rightarrow> MemoryRuntime" where
  "MemoryRuntime_new p =
     \<lparr>runtime_lifecycle = MemoryLifecycle_new 1000, coordinator = TierCoordinator_new p,
      runtime_snapshots = SnapshotManager_new 1000\<rparr>"

definition on_coordinator :: "(TierCoordinator \<Rightarrow> 'r \<times> TierCoordinator) \<Rightarrow> MemoryRuntime \<Rightarrow> 'r \<times> MemoryRuntime" where
  "on_coordinator f m = (case f (coordinator m) of (r, c) \<Rightarrow> (r, m\<lparr>coordinator := c\<rparr>))"

definition MemoryRuntime_create ::
  "(MemoryEntry list \<Rightarrow> MemoryEntry list option) \<Rightarrow> (string list \<Rightarrow> string list) \<Rightarrow> 64 word \<Rightarrow> string \<Rightarrow> MemoryEntry \<Rightarrow> MemoryRuntime \<Rightarrow>
   (MemoryRuntimeError, string) call \<times> MemoryRuntime" where
  "MemoryRuntime_create unordered visit now uuid e = on_coordinator (TierCoordinator_create unordered visit now uuid e)"

definition MemoryRuntime_get :: "64 word \<Rightarrow> string \<Rightarrow> MemoryRuntime \<Rightarrow> MemoryEntry option \<times> MemoryRuntime" where
  "MemoryRuntime_get now i = on_coordinator (TierCoordinator_get now i)"

definition MemoryRuntime_update :: "64 word \<Rightarrow> string \<Rightarrow> string \<Rightarrow> MemoryRuntime \<Rightarrow> (MemoryRuntimeError, unit) call \<times> MemoryRuntime" where
  "MemoryRuntime_update now i v = on_coordinator (TierCoordinator_update now i v)"

definition MemoryRuntime_delete :: "string \<Rightarrow> MemoryRuntime \<Rightarrow> (MemoryRuntimeError, unit) call \<times> MemoryRuntime" where
  "MemoryRuntime_delete i = on_coordinator (TierCoordinator_delete i)"

definition MemoryRuntime_resolve ::
  "(string \<Rightarrow> string) \<Rightarrow> (string list \<Rightarrow> string list) \<Rightarrow> string \<Rightarrow> 64 word \<Rightarrow> MemoryQuery \<Rightarrow> MemoryRuntime \<Rightarrow>
   (MemoryRuntimeError, MemoryResolution) call \<times> MemoryRuntime" where
  "MemoryRuntime_resolve lower visit uuid ms q =
     on_coordinator (on_lifecycle (MemoryResolver_resolve lower visit uuid ms q))"

text \<open>The policy argument is not used, and the resolver is the one over the facade's own store.\<close>

definition MemoryRuntime_resolve_with_policy ::
  "(string \<Rightarrow> string) \<Rightarrow> (string list \<Rightarrow> string list) \<Rightarrow> string \<Rightarrow> 64 word \<Rightarrow> MemoryQuery \<Rightarrow> ConflictPolicy \<Rightarrow> MemoryRuntime \<Rightarrow>
   (MemoryRuntimeError, MemoryResolution) call \<times> MemoryRuntime" where
  "MemoryRuntime_resolve_with_policy lower visit uuid ms q pol m =
     (case MemoryResolver_resolve lower visit uuid ms q (runtime_lifecycle m) of (r, l) \<Rightarrow> (r, m\<lparr>runtime_lifecycle := l\<rparr>))"

definition MemoryRuntime_list_by_tier :: "(string list \<Rightarrow> string list) \<Rightarrow> MemoryTier \<Rightarrow> MemoryRuntime \<Rightarrow> MemoryEntry list" where
  "MemoryRuntime_list_by_tier visit t m = TierCoordinator_list_by_tier visit t (coordinator m)"

definition MemoryRuntime_list_all ::
  "((string \<times> MemoryEntry) list \<Rightarrow> (string \<times> MemoryEntry) list) \<Rightarrow> MemoryRuntime \<Rightarrow> MemoryEntry list" where
  "MemoryRuntime_list_all visit m = TierCoordinator_list_all visit (coordinator m)"

definition MemoryRuntime_snapshot ::
  "(string list \<Rightarrow> string list) \<Rightarrow> 64 word \<Rightarrow> string \<Rightarrow> string \<Rightarrow> MemoryTier \<Rightarrow> MemoryRuntime \<Rightarrow>
   (MemoryRuntimeError, string) call \<times> MemoryRuntime" where
  "MemoryRuntime_snapshot visit now uuid i t = on_coordinator (TierCoordinator_snapshot_tier visit now uuid i t)"

definition MemoryRuntime_merge_snapshots ::
  "((string \<times> MemoryEntry) list \<Rightarrow> (string \<times> MemoryEntry) list) \<Rightarrow> 64 word \<Rightarrow> string \<Rightarrow> string \<Rightarrow> string \<Rightarrow> string \<Rightarrow> MemoryRuntime \<Rightarrow>
   (MemoryRuntimeError, MemorySnapshot) call \<times> MemoryRuntime" where
  "MemoryRuntime_merge_snapshots visit now uuid a b i = on_coordinator (TierCoordinator_merge_snapshots visit now uuid a b i)"

definition MemoryRuntime_diff_snapshots ::
  "((string \<times> MemoryEntry) list \<Rightarrow> (string \<times> MemoryEntry) list) \<Rightarrow> string \<Rightarrow> string \<Rightarrow> MemoryRuntime \<Rightarrow>
   (MemoryRuntimeError, SnapshotDiff) call" where
  "MemoryRuntime_diff_snapshots visit a b m = TierCoordinator_diff_snapshots visit a b (coordinator m)"

definition MemoryRuntime_restore ::
  "((string \<times> MemoryEntry) list \<Rightarrow> (string \<times> MemoryEntry) list) \<Rightarrow> string \<Rightarrow> MemoryRuntime \<Rightarrow>
   (MemoryRuntimeError, MemoryEntry list) call" where
  "MemoryRuntime_restore visit i m = TierCoordinator_restore_from_snapshot visit i (coordinator m)"

definition MemoryRuntime_apply_retention ::
  "(string list \<Rightarrow> string list) \<Rightarrow> 64 word \<Rightarrow> string \<Rightarrow> MemoryRuntime \<Rightarrow> (MemoryRuntimeError, nat) call \<times> MemoryRuntime" where
  "MemoryRuntime_apply_retention visit now uuid = on_coordinator (TierCoordinator_apply_retention visit now uuid)"

definition MemoryRuntime_diagnostics :: "(rat \<Rightarrow> f64) \<Rightarrow> MemoryRuntime \<Rightarrow> MemoryDiagnosticsSummary" where
  "MemoryRuntime_diagnostics rnd m = TierCoordinator_diagnostics rnd (coordinator m)"

definition MemoryRuntime_entry_count :: "MemoryRuntime \<Rightarrow> nat" where
  "MemoryRuntime_entry_count m = TierCoordinator_entry_count (coordinator m)"

definition MemoryRuntime_entry_count_by_tier :: "MemoryTier \<Rightarrow> MemoryRuntime \<Rightarrow> nat" where
  "MemoryRuntime_entry_count_by_tier t m = TierCoordinator_entry_count_by_tier t (coordinator m)"

section \<open>The coordinator as a store\<close>

definition live_entries :: "TierCoordinator \<Rightarrow> string \<rightharpoonup> MemoryEntry" where
  "live_entries c = map_of (entries (lifecycle c))"

lemma delete_coordinator:
  assumes "lifecycle_ok (lifecycle c)" "live_entries c i \<noteq> None"
  shows "\<exists>l. TierCoordinator_delete i c = (Returned (), c\<lparr>lifecycle := l\<rparr>) \<and> lifecycle_ok l \<and>
    map_of (entries l) = (live_entries c)(i := None) \<and> max_events l = max_events (lifecycle c)"
  using delete_live [of "lifecycle c" i] assms by (auto simp: TierCoordinator_delete_def on_lifecycle_def live_entries_def)

text \<open>The part of the coordinator a sweep does not touch is an index of the interpretation.\<close>

interpretation coord: tiered_store
  "\<lambda>c. lifecycle_ok (lifecycle c) \<and> iteration_order visit \<and> c\<lparr>lifecycle := lifecycle c0\<rparr> = c0" live_entries
  "TierCoordinator_list_by_tier visit" TierCoordinator_delete for visit c0
proof
  fix c t i and e :: MemoryEntry
  assume ok: "lifecycle_ok (lifecycle c) \<and> iteration_order visit \<and> c\<lparr>lifecycle := lifecycle c0\<rparr> = c0"
  then have s: "lifecycle_ok (lifecycle c) \<and> iteration_order visit" by blast
  show "set (TierCoordinator_list_by_tier visit t c) = {e \<in> ran (live_entries c). tier e = t}"
    using store.listing_exact [OF s] by (simp add: TierCoordinator_list_by_tier_def live_entries_def)
  show "distinct (map entry_id (TierCoordinator_list_by_tier visit t c))"
    using store.listing_distinct [OF s] by (simp add: TierCoordinator_list_by_tier_def)
  show "live_entries c i = Some e \<Longrightarrow> entry_id e = i"
    using store.live_id [OF s] by (simp add: live_entries_def)
  assume "live_entries c i \<noteq> None"
  then obtain l where "TierCoordinator_delete i c = (Returned (), c\<lparr>lifecycle := l\<rparr>)" "lifecycle_ok l"
    "map_of (entries l) = (live_entries c)(i := None)"
    using delete_coordinator s by blast
  then show "\<exists>c'. TierCoordinator_delete i c = (Returned (), c') \<and>
    (lifecycle_ok (lifecycle c') \<and> iteration_order visit \<and> c'\<lparr>lifecycle := lifecycle c0\<rparr> = c0) \<and>
    live_entries c' = (live_entries c)(i := None)"
    using ok by (auto simp: live_entries_def)
qed

interpretation evict: tiered_store "\<lambda>c. lifecycle_ok (lifecycle c) \<and> iteration_order visit \<and> policy c = p \<and> max_events (lifecycle c) = k" live_entries
  "TierCoordinator_list_by_tier visit" evict_entry for visit p k
proof
  fix c :: TierCoordinator and t i and e :: MemoryEntry
  assume ok: "lifecycle_ok (lifecycle c) \<and> iteration_order visit \<and> policy c = p \<and> max_events (lifecycle c) = k"
  then have s: "lifecycle_ok (lifecycle c) \<and> iteration_order visit \<and> c\<lparr>lifecycle := lifecycle c\<rparr> = c" by simp
  show "set (TierCoordinator_list_by_tier visit t c) = {e \<in> ran (live_entries c). tier e = t}"
    by (rule coord.listing_exact [OF s])
  show "distinct (map entry_id (TierCoordinator_list_by_tier visit t c))"
    by (rule coord.listing_distinct [OF s])
  show "live_entries c i = Some e \<Longrightarrow> entry_id e = i" by (rule coord.live_id [OF s])
  assume "live_entries c i \<noteq> None"
  then obtain l where "TierCoordinator_delete i c = (Returned (), c\<lparr>lifecycle := l\<rparr>)" "lifecycle_ok l"
    "map_of (entries l) = (live_entries c)(i := None)" "max_events l = max_events (lifecycle c)"
    using delete_coordinator s by blast
  then show "\<exists>c'. evict_entry i c = (Returned (), c') \<and>
    (lifecycle_ok (lifecycle c') \<and> iteration_order visit \<and> policy c' = p \<and> max_events (lifecycle c') = k) \<and> live_entries c' = (live_entries c)(i := None)"
    using ok by (auto simp: evict_entry_def record_diagnostics_def live_entries_def)
qed

section \<open>Retention\<close>

lemma retention_sweep_exact:
  assumes "lifecycle_ok (lifecycle c)" "iteration_order visit" "c\<lparr>lifecycle := lifecycle c0\<rparr> = c0" "distinct ts"
  shows "\<exists>c'. retention_sweep visit now ts n c =
      (Returned (n + card (victims (evictable now (policy c0)) (set ts) (live_entries c))), c') \<and>
    lifecycle_ok (lifecycle c') \<and> c'\<lparr>lifecycle := lifecycle c0\<rparr> = c0 \<and>
    live_entries c' = live_entries c |` (- victims (evictable now (policy c0)) (set ts) (live_entries c)) \<and>
    finite (victims (evictable now (policy c0)) (set ts) (live_entries c))"
  using assms
proof (induction ts arbitrary: n c)
  case Nil
  have "victims P {} m = {}" for P m by (simp add: victims_def)
  with Nil show ?case by (simp add: restrict_map_def fun_eq_iff)
next
  case (Cons t ts)
  let ?P = "evictable now (policy c0)"
  let ?m = "live_entries c"
  have p: "policy c = policy c0" using Cons.prems(3) by (metis TierCoordinator.select_convs(5) TierCoordinator.update_convs(1) TierCoordinator.surjective)
  obtain c1 where c1: "sweep_entries TierCoordinator_delete ?P (TierCoordinator_list_by_tier visit t c) n c =
      (Returned (n + card (victims ?P {t} ?m)), c1)"
    "lifecycle_ok (lifecycle c1)" "c1\<lparr>lifecycle := lifecycle c0\<rparr> = c0"
    "live_entries c1 = ?m |` (- victims ?P {t} ?m)" "finite (victims ?P {t} ?m)"
    using coord.sweep_listing [of c visit c0 ?P t n] Cons.prems(1-3) by blast
  have t: "t \<notin> set ts" "distinct ts" using Cons.prems(4) by simp_all
  note IH = Cons.IH [OF c1(2) Cons.prems(2) c1(3) t(2), of "n + card (victims ?P {t} ?m)"]
  have v: "victims ?P (set ts) (live_entries c1) = victims ?P (set ts) ?m"
    unfolding c1(4) by (rule victims_split [OF t(1)])
  obtain c' where "retention_sweep visit now ts (n + card (victims ?P {t} ?m)) c1 =
      (Returned (n + card (victims ?P {t} ?m) + card (victims ?P (set ts) ?m)), c')"
    "lifecycle_ok (lifecycle c')" "c'\<lparr>lifecycle := lifecycle c0\<rparr> = c0"
    "live_entries c' = live_entries c1 |` (- victims ?P (set ts) ?m)" "finite (victims ?P (set ts) ?m)"
    using IH unfolding v by blast
  moreover have "card (victims ?P (set (t # ts)) ?m) = card (victims ?P {t} ?m) + card (victims ?P (set ts) ?m)"
    using c1(5) calculation(5) victims_disjoint [OF t(1)] by (simp add: victims_insert [of _ t "set ts"] card_Un_disjoint)
  moreover have "live_entries c1 |` (- victims ?P (set ts) ?m) = ?m |` (- victims ?P (set (t # ts)) ?m)"
    by (simp add: c1(4) victims_insert [of _ t "set ts"] Int_commute)
  moreover have "finite (victims ?P (set (t # ts)) ?m)"
    using c1(5) calculation(5) by (simp add: victims_insert [of _ t "set ts"])
  ultimately show ?case using c1(1) by (simp add: p)
qed


definition aged_coordinator :: TierCoordinator where
  "aged_coordinator = (TierCoordinator_new (MemoryPolicy_with_expiration MemoryPolicy_default (IdleTimeout 50)))\<lparr>lifecycle := note_store\<rparr>"

lemma note_store_ok: "lifecycle_ok note_store"
  using reachable_lifecycle_inv [OF note_store_reachable] by (auto simp: lifecycle_ok_def lifecycle_inv_defs)


section \<open>Eviction\<close>

lemma eviction_cmp_total: "\<forall>e \<in> set es. ordered_metadata e \<Longrightarrow> total_cmp_on (eviction_cmp pol) es"
  by (cases pol) (auto intro: total_cmp_on_cmp total_cmp_on_cmp_desc simp: ordered_metadata_def f64_cmp_or_equal_cmp)

lemma tier_ordered:
  assumes "iteration_order visit" "lifecycle_ok (lifecycle c)" "\<forall>e \<in> ran (live_entries c). tier e = t \<longrightarrow> ordered_metadata e"
  shows "total_cmp_on (eviction_cmp pol) (TierCoordinator_list_by_tier visit t c)"
proof -
  have "lifecycle_ok (lifecycle c) \<and> iteration_order visit \<and> c\<lparr>lifecycle := lifecycle c\<rparr> = c" using assms(1,2) by simp
  from coord.listing_exact [OF this] show ?thesis using assms(3) by (intro eviction_cmp_total) auto
qed

text \<open>What an eviction removes: the entries that are due among the first quarter of the sorted tier.\<close>

lemma evict_exact:
  assumes "iteration_order visit" "lifecycle_ok (lifecycle c)"
    and tot: "total_cmp_on (eviction_cmp (eviction (policy c))) (TierCoordinator_list_by_tier visit t c)"
  shows "\<exists>c' batch rest. TierCoordinator_evict_by_policy unordered visit now t c = (Returned (length batch), c') \<and>
    mset (batch @ rest) = mset (TierCoordinator_list_by_tier visit t c) \<and> length batch = length (batch @ rest) div 4 \<and>
    sorted_wrt (\<lambda>a b. eviction_cmp (eviction (policy c)) a b \<noteq> Greater) (batch @ rest) \<and>
    lifecycle_ok (lifecycle c') \<and> policy c' = policy c \<and> max_events (lifecycle c') = max_events (lifecycle c) \<and>
    (\<forall>i. live_entries c' i =
       (if i \<in> entry_id ` {e \<in> set batch. evictable now (policy c) e} then None else live_entries c i))"
proof -
  let ?es = "TierCoordinator_list_by_tier visit t c"
  let ?cmp = "eviction_cmp (eviction (policy c))"
  let ?ok = "lifecycle_ok (lifecycle c) \<and> iteration_order visit \<and> policy c = policy c \<and> max_events (lifecycle c) = max_events (lifecycle c)"
  have ok: ?ok using assms(1,2) by simp
  define sorted where "sorted = stable_sort ?cmp ?es"
  have ms: "mset sorted = mset ?es" by (simp add: sorted_def)
  define batch where "batch = take (length sorted div 4) sorted"
  define rest where "rest = drop (length sorted div 4) sorted"
  have br: "batch @ rest = sorted" by (simp add: batch_def rest_def)
  have "distinct (map entry_id ?es)" by (rule evict.listing_distinct [OF ok])
  then have "distinct (map entry_id sorted)" using ms by (metis mset_eq_imp_distinct_iff mset_map)
  then have d: "distinct (map entry_id batch)" unfolding batch_def by (metis distinct_take take_map)
  have sub: "set batch \<subseteq> set ?es" using ms mset_eq_setD set_take_subset unfolding batch_def by metis
  obtain c' where c': "sweep_entries evict_entry (evictable now (policy c)) batch 0 c =
      (Returned (0 + length (filter (evictable now (policy c)) batch)), c')"
    "lifecycle_ok (lifecycle c') \<and> iteration_order visit \<and> policy c' = policy c \<and> max_events (lifecycle c') = max_events (lifecycle c)"
    "\<forall>i. live_entries c' i = (if i \<in> entry_id ` {e \<in> set batch. evictable now (policy c) e} then None else live_entries c i)"
    using evict.sweep_tier [OF ok sub d, of "evictable now (policy c)" 0] by blast
  have "length batch = length sorted div 4" by (simp add: batch_def)
  moreover have "TierCoordinator_evict_by_policy unordered visit now t c = (Returned (length batch), c')"
  proof (cases "?es = []")
    case True
    then have "batch = []" using sub by auto
    then show ?thesis using True c'(1) by (simp add: TierCoordinator_evict_by_policy_def)
  next
    case False
    then show ?thesis
      using tot c'(1) calculation
      by (simp add: TierCoordinator_evict_by_policy_def slice_sort_by_def sorted_def [symmetric] batch_def [symmetric])
  qed
  moreover have "sorted_wrt (\<lambda>a b. ?cmp a b \<noteq> Greater) (batch @ rest)"
    unfolding br sorted_def by (rule sorted_stable_sort [OF tot])
  ultimately show ?thesis using c'(2,3) ms br by (intro exI [of _ c'] exI [of _ batch] exI [of _ rest]) simp
qed

text \<open>The policies that are named after evicting the least important or least trusted entries work the other way round: with
  \<open>LowestImportance\<close> or \<open>LowestConfidence\<close>, whenever an entry is evicted, every entry of the tier that
  is due and has a greater importance or confidence is evicted too; a due entry of lesser rank can stay.\<close>

theorem lowest_policies_evict_highest:
  assumes "iteration_order visit" "lifecycle_ok (lifecycle c)" "\<forall>e \<in> ran (live_entries c). tier e = t \<longrightarrow> ordered_metadata e"
    and "TierCoordinator_evict_by_policy unordered visit now t c = (r, c')"
    and "live_entries c (entry_id low) = Some low" "live_entries c' (entry_id low) = None"
    and "live_entries c (entry_id high) = Some high" "tier high = t" "evictable now (policy c) high"
    and "eviction (policy c) = LowestImportance \<and> importance (metadata low) < importance (metadata high) \<or>
         eviction (policy c) = LowestConfidence \<and> confidence (metadata low) < confidence (metadata high)"
  shows "live_entries c' (entry_id high) = None"
proof -
  obtain batch rest where b: "mset (batch @ rest) = mset (TierCoordinator_list_by_tier visit t c)"
    "sorted_wrt (\<lambda>a b. eviction_cmp (eviction (policy c)) a b \<noteq> Greater) (batch @ rest)"
    "\<forall>i. live_entries c' i =
       (if i \<in> entry_id ` {e \<in> set batch. evictable now (policy c) e} then None else live_entries c i)"
    using evict_exact [OF assms(1,2) tier_ordered [OF assms(1-3)], of unordered now] assms(4) by auto
  have ok: "lifecycle_ok (lifecycle c) \<and> iteration_order visit \<and> policy c = policy c \<and> max_events (lifecycle c) = max_events (lifecycle c)"
    using assms(1,2) by simp
  have set: "set (batch @ rest) = {e \<in> ran (live_entries c). tier e = t}"
    using evict.listing_exact [OF ok] mset_eq_setD [OF b(1)] by simp
  obtain e where e: "e \<in> set batch" "entry_id e = entry_id low" using b(3) assms(5,6) by (auto split: if_splits)
  then have "e \<in> ran (live_entries c)" using set by auto
  then obtain i where i: "live_entries c i = Some e" by (auto simp: ran_def)
  then have "e = low" using evict.live_id [OF ok i] e(2) assms(5) by simp
  then have low: "low \<in> set batch" using e(1) by simp
  have high: "high \<in> set (batch @ rest)" unfolding set using assms(7,8) by (auto intro: ranI)
  have "ordered_metadata low" "ordered_metadata high"
    using assms(3) low high set by auto
  then have "eviction_cmp (eviction (policy c)) low high = Greater"
    using assms(10) by (auto simp: ordered_metadata_def f64_cmp_or_equal_cmp cmp_def)
  then have "high \<notin> set rest" using b(2) low by (auto simp: sorted_wrt_append)
  then show ?thesis using high b(3) assms(9) by auto
qed

definition ranked_entry :: "string \<Rightarrow> rat \<Rightarrow> MemoryEntry" where
  "ranked_entry i x = (note_entry i Session ''k'')\<lparr>metadata := MemoryMetadata_default\<lparr>importance := Fin x\<rparr>\<rparr>"

text \<open>A store with given entries of one tier.\<close>

definition session_store :: "MemoryEntry list \<Rightarrow> MemoryLifecycle" where
  "session_store es = (MemoryLifecycle_new 10)
     \<lparr>entries := map (\<lambda>e. (entry_id e, e)) es, tier_index := [(Session, map entry_id es)]\<rparr>"

lemma session_store_ok:
  assumes "distinct (map entry_id es)" "list_all (\<lambda>e. tier e = Session) es"
  shows "lifecycle_ok (session_store es)"
proof -
  let ?xs = "map (\<lambda>e. (entry_id e, e)) es"
  have d: "distinct (map fst ?xs)" using assms(1) by (simp add: comp_def)
  have m: "map_of ?xs i = Some e \<longleftrightarrow> e \<in> set es \<and> entry_id e = i" for i e
    unfolding map_of_eq_Some_iff [OF d] by auto
  have "indexes [(Session, map entry_id es)] (map_of ?xs)"
    unfolding indexes_def m using assms by (auto simp: tier_ids_def list_all_iff)
  then show ?thesis using d by (simp add: session_store_def lifecycle_ok_def index_consistent_def MemoryLifecycle_new_def)
qed

definition ranked_coordinator :: TierCoordinator where
  "ranked_coordinator =
     (TierCoordinator_new \<lparr>retention = Infinite, eviction = LowestImportance, expiration = IdleTimeout 50, priority = Importance,
        conflict_resolution = FirstMatch, access_rules = [], max_entries_per_tier = 4, auto_consolidate = False\<rparr>)
     \<lparr>lifecycle := session_store
        [ranked_entry ''a'' 1, ranked_entry ''b'' 2, ranked_entry ''c'' 3, ranked_entry ''d'' 4,
         ranked_entry ''e'' 5, ranked_entry ''f'' 6, ranked_entry ''g'' 7, ranked_entry ''h'' 8]\<rparr>"

lemma all_ran: "list_all P (map snd xs) \<Longrightarrow> e \<in> ran (map_of xs) \<Longrightarrow> P e"
  by (auto simp: ran_def list_all_iff dest!: map_of_SomeD bspec)

theorem lowest_policies_evict_highest_witness:
  "live_entries (snd (TierCoordinator_evict_by_policy Some id 200 Session ranked_coordinator)) ''h'' = None \<and>
   live_entries (snd (TierCoordinator_evict_by_policy Some id 200 Session ranked_coordinator)) ''a'' = Some (ranked_entry ''a'' 1)"
proof -
  let ?r = "TierCoordinator_evict_by_policy Some id 200 Session ranked_coordinator"
  have ok: "lifecycle_ok (lifecycle ranked_coordinator)"
    unfolding ranked_coordinator_def TierCoordinator_new_def TierCoordinator.simps
    by (rule session_store_ok) code_simp+
  have all: "list_all ordered_metadata (map snd (entries (lifecycle ranked_coordinator)))" by code_simp
  have "\<forall>e \<in> ran (live_entries ranked_coordinator). tier e = Session \<longrightarrow> ordered_metadata e"
    unfolding live_entries_def using all_ran [OF all] by simp
  moreover have "live_entries ranked_coordinator ''g'' = Some (ranked_entry ''g'' 7)"
    "live_entries ranked_coordinator ''h'' = Some (ranked_entry ''h'' 8)"
    "live_entries (snd ?r) ''g'' = None" "live_entries (snd ?r) ''a'' = Some (ranked_entry ''a'' 1)"
    "evictable 200 (policy ranked_coordinator) (ranked_entry ''h'' 8)" "eviction (policy ranked_coordinator) = LowestImportance"
    by code_simp+
  moreover have "entry_id (ranked_entry i x) = i" "tier (ranked_entry i x) = Session" "importance (metadata (ranked_entry i x)) = Fin x"
    for i x by (simp_all add: ranked_entry_def note_entry_def MemoryEntry_new_def)
  ultimately show ?thesis
    using lowest_policies_evict_highest [OF _ ok, of id Session Some 200 "fst ?r" "snd ?r" "ranked_entry ''g'' 7"
        "ranked_entry ''h'' 8"]
    by (simp add: iteration_order_def)
qed

lemma create_live:
  assumes "lifecycle_ok s" "0 < max_events s" "map_of (entries s) (entry_id e) = None"
  shows "\<exists>s'. MemoryLifecycle_create uuid e s = (Returned (entry_id e), s') \<and> lifecycle_ok s' \<and>
    map_of (entries s') = (map_of (entries s))(entry_id e \<mapsto> e) \<and> max_events s' = max_events s"
proof -
  have "distinct (map fst (entries s))" "indexes (tier_index s) (map_of (entries s))"
    using assms(1) by (simp_all add: lifecycle_ok_def index_consistent_def)
  then show ?thesis
    using assms indexes_put [of "tier_index s" "map_of (entries s)" e]
    by (auto simp: MemoryLifecycle_create_def MemoryLifecycle_record_event_def lifecycle_ok_def index_consistent_def
        distinct_update update_conv' simp del: map_of_eq_None_iff)
qed

text \<open>Creating an entry when none of its tier is due: the eviction of a full tier deletes nothing.\<close>

lemma create_none_due:
  assumes "iteration_order visit" "lifecycle_ok (lifecycle c)" "0 < max_events (lifecycle c)"
    and tot: "total_cmp_on (eviction_cmp (eviction (policy c))) (TierCoordinator_list_by_tier visit (tier e) c)"
    and due: "\<forall>e' \<in> ran (live_entries c). tier e' = tier e \<longrightarrow> \<not> evictable now (policy c) e'"
    and "MemoryPolicy_is_access_allowed (policy c) (tier e) (entry_key e) (confidence (metadata e))"
    and "live_entries c (entry_id e) = None"
  shows "\<exists>c'. TierCoordinator_create unordered visit now uuid e c = (Returned (entry_id e), c') \<and>
    live_entries c' = (live_entries c)(entry_id e \<mapsto> e) \<and> lifecycle_ok (lifecycle c') \<and> policy c' = policy c \<and>
    max_events (lifecycle c') = max_events (lifecycle c)"
proof -
  let ?full = "MemoryLifecycle_count_by_tier (tier e) (lifecycle c) \<ge> max_entries_per_tier (policy c)"
  obtain n c1 where c1: "(if ?full then TierCoordinator_evict_by_policy unordered visit now (tier e) c else (Returned 0, c)) = (Returned n, c1)"
    "lifecycle_ok (lifecycle c1)" "live_entries c1 = live_entries c" "max_events (lifecycle c1) = max_events (lifecycle c)"
    "policy c1 = policy c"
  proof (cases ?full)
    case True
    have ok: "lifecycle_ok (lifecycle c) \<and> iteration_order visit \<and> policy c = policy c \<and> max_events (lifecycle c) = max_events (lifecycle c)"
      using assms(1,2) by simp
    obtain c' batch rest where c': "TierCoordinator_evict_by_policy unordered visit now (tier e) c = (Returned (length batch), c')"
      "mset (batch @ rest) = mset (TierCoordinator_list_by_tier visit (tier e) c)"
      "lifecycle_ok (lifecycle c')" "max_events (lifecycle c') = max_events (lifecycle c)" "policy c' = policy c"
      "\<forall>i. live_entries c' i = (if i \<in> entry_id ` {e \<in> set batch. evictable now (policy c) e} then None else live_entries c i)"
      using evict_exact [OF assms(1,2) tot, of unordered now] by blast
    have "set batch \<subseteq> {e' \<in> ran (live_entries c). tier e' = tier e}"
      using evict.listing_exact [OF ok] mset_eq_setD [OF c'(2)] by auto
    then have "{e \<in> set batch. evictable now (policy c) e} = {}" using due by blast
    with c'(6) have "live_entries c' = live_entries c" by (simp add: fun_eq_iff)
    then show ?thesis using that True c'(1,3-5) by simp
  qed (use that assms(2) in simp)
  obtain l where "MemoryLifecycle_create uuid e (lifecycle c1) = (Returned (entry_id e), l)" "lifecycle_ok l"
    "map_of (entries l) = (live_entries c)(entry_id e \<mapsto> e)" "max_events l = max_events (lifecycle c)"
    using create_live [OF c1(2)] c1(3,4) assms(3,7) by (auto simp: live_entries_def)
  then show ?thesis
    using assms(6) c1(1,5)
    by (simp add: TierCoordinator_create_def on_lifecycle_def record_diagnostics_def live_entries_def)
qed

text \<open>The limit of entries per tier is not enforced: when no entry of the tier is due under the
  retention and expiration rules, creating an entry in a full tier deletes nothing and succeeds, so the tier grows beyond
  its limit, whatever the limit is.\<close>

theorem tier_limit_not_enforced:
  assumes "iteration_order visit" "lifecycle_ok (lifecycle c)" "0 < max_events (lifecycle c)"
    and "\<forall>e' \<in> ran (live_entries c). tier e' = tier e \<longrightarrow> ordered_metadata e' \<and> \<not> evictable now (policy c) e'"
    and "MemoryPolicy_is_access_allowed (policy c) (tier e) (entry_key e) (confidence (metadata e))"
    and "live_entries c (entry_id e) = None"
  shows "\<exists>c'. TierCoordinator_create unordered visit now uuid e c = (Returned (entry_id e), c') \<and>
    live_entries c' = (live_entries c)(entry_id e \<mapsto> e)"
  using create_none_due [OF assms(1-3) tier_ordered [OF assms(1,2)] _ assms(5,6)] assms(4) by blast

theorem tier_limit_not_enforced_witness:
  "max_entries_per_tier (policy ranked_coordinator) = 4 \<and>
   (\<exists>c'. TierCoordinator_create Some id 120 ''u'' (ranked_entry ''i'' 9) ranked_coordinator = (Returned ''i'', c') \<and>
      live_entries c' = (live_entries ranked_coordinator)(''i'' \<mapsto> ranked_entry ''i'' 9))"
proof -
  have ok: "lifecycle_ok (lifecycle ranked_coordinator)"
    unfolding ranked_coordinator_def TierCoordinator_new_def TierCoordinator.simps
    by (rule session_store_ok) code_simp+
  have all: "list_all (\<lambda>e. ordered_metadata e \<and> \<not> evictable 120 (policy ranked_coordinator) e)
      (map snd (entries (lifecycle ranked_coordinator)))" by code_simp
  have "\<forall>e \<in> ran (live_entries ranked_coordinator). tier e = Session \<longrightarrow>
      ordered_metadata e \<and> \<not> evictable 120 (policy ranked_coordinator) e"
    unfolding live_entries_def using all_ran [OF all] by simp
  moreover have "max_events (lifecycle ranked_coordinator) = 10" "live_entries ranked_coordinator ''i'' = None"
    "max_entries_per_tier (policy ranked_coordinator) = 4"
    "MemoryPolicy_is_access_allowed (policy ranked_coordinator) Session ''k'' (confidence (metadata (ranked_entry ''i'' 9)))"
    by code_simp+
  moreover have "entry_id (ranked_entry ''i'' 9) = ''i''" "tier (ranked_entry ''i'' 9) = Session" "entry_key (ranked_entry ''i'' 9) = ''k''"
    by (simp_all add: ranked_entry_def note_entry_def MemoryEntry_new_def)
  ultimately show ?thesis
    using tier_limit_not_enforced [OF _ ok, of id "ranked_entry ''i'' 9" 120 Some "''u''"] by (simp add: iteration_order_def)
qed

section \<open>Snapshots of a tier\<close>

lemma map_of_collected: "map_of (fold (\<lambda>e. AList.update (entry_id e) e) es m) =
   map_of m ++ map_of (rev (map (\<lambda>e. (entry_id e, e)) es))"
  by (induction es arbitrary: m) (auto simp: update_conv' map_add_def fun_eq_iff split: option.split)

lemma collected_distinct: "distinct (map fst m) \<Longrightarrow> distinct (map fst (fold (\<lambda>e. AList.update (entry_id e) e) es m))"
  by (induction es arbitrary: m) (simp_all add: distinct_update)

lemma distinct_snd: "distinct (map fst xs) \<Longrightarrow> \<forall>x \<in> set xs. fst x = f (snd x) \<Longrightarrow> distinct (map snd xs)"
  by (induction xs) (auto simp: image_iff)

text \<open>C31: A snapshot of a tier restores to exactly the entries the tier held when it was taken, each
  once, however the entries of the store change afterwards.\<close>

theorem snapshot_restore_roundtrip:
  assumes "iteration_order visit" "iteration_order visit'" "lifecycle_ok (lifecycle c)"
    and "TierCoordinator_snapshot_tier visit now uuid i t c = (Returned j, c')"
    and "snapshot_manager later = snapshot_manager c'"
  shows "\<exists>es. TierCoordinator_restore_from_snapshot visit' i later = Returned es \<and>
    set es = {e. live_entries c (entry_id e) = Some e \<and> tier e = t} \<and> distinct es"
proof -
  have ok: "lifecycle_ok (lifecycle c) \<and> iteration_order visit \<and> c\<lparr>lifecycle := lifecycle c\<rparr> = c" using assms(1,3) by simp
  let ?l = "TierCoordinator_list_by_tier visit t c"
  let ?es = "fold (\<lambda>e. AList.update (entry_id e) e) ?l []"
  have d: "distinct (map fst ?es)" by (simp add: collected_distinct)
  have dl: "distinct (map entry_id ?l)" by (rule coord.listing_distinct [OF ok])
  have "map_of ?es = map_of (rev (map (\<lambda>e. (entry_id e, e)) ?l))" by (simp add: map_of_collected)
  then have set: "set ?es = set (rev (map (\<lambda>e. (entry_id e, e)) ?l))"
    using d dl by (subst (asm) map_of_inject_set) (simp_all add: rev_map [symmetric] comp_def distinct_rev)
  then have es: "snd ` set ?es = set ?l" by (force simp: image_iff)
  have s: "SnapshotManager_get i (snapshot_manager c') = Some (MemorySnapshot_with_metadata (MemorySnapshot_new now i t ?es) SnapshotMetadata_default)"
    using assms(4)
    by (auto simp: TierCoordinator_snapshot_tier_def call_bind_Returned on_snapshots_def SnapshotManager_create_def Let_def
        SnapshotManager_record_event_def record_diagnostics_def SnapshotManager_get_def update_conv' split: if_splits)
  have "set ?l = {e. live_entries c (entry_id e) = Some e \<and> tier e = t}"
    using coord.listing_exact [OF ok] coord.live_id [OF ok] by (auto simp: ran_def)
  moreover have "set (map snd (visit' ?es)) = set ?l" using es set_iteration_order [OF assms(2)] by simp
  moreover have "distinct (map snd (visit' ?es))"
  proof (rule distinct_snd)
    show "distinct (map fst (visit' ?es))" using d iteration_orderD [OF assms(2)] by (metis mset_eq_imp_distinct_iff mset_map)
    show "\<forall>x \<in> set (visit' ?es). fst x = entry_id (snd x)"
      unfolding set_iteration_order [OF assms(2)] set by auto
  qed
  ultimately show ?thesis
    by (simp add: TierCoordinator_restore_from_snapshot_def SnapshotManager_restore_def assms(5) s
        MemorySnapshot_with_metadata_def MemorySnapshot_new_def)
qed

theorem snapshot_restore_roundtrip_witness:
  "\<exists>es. TierCoordinator_restore_from_snapshot rev ''s''
      (snd (TierCoordinator_delete ''a'' (snd (TierCoordinator_snapshot_tier id 5 ''u'' ''s'' Session aged_coordinator)))) = Returned es \<and>
    note_entry ''a'' Session ''build'' \<in> set es"
proof -
  let ?c = "snd (TierCoordinator_snapshot_tier id 5 ''u'' ''s'' Session aged_coordinator)"
  have "TierCoordinator_snapshot_tier id 5 ''u'' ''s'' Session aged_coordinator = (Returned ''s'', ?c)" by code_simp
  moreover have "snapshot_manager (snd (TierCoordinator_delete ''a'' ?c)) = snapshot_manager ?c"
    by (simp add: TierCoordinator_delete_def on_lifecycle_def split: prod.split)
  moreover have "live_entries aged_coordinator (entry_id (note_entry ''a'' Session ''build'')) = Some (note_entry ''a'' Session ''build'')"
    "tier (note_entry ''a'' Session ''build'') = Session" by code_simp+
  moreover have "lifecycle_ok (lifecycle aged_coordinator)" by (simp add: aged_coordinator_def note_store_ok)
  ultimately show ?thesis
    using snapshot_restore_roundtrip [of id rev aged_coordinator 5 "''u''" "''s''" Session "''s''" ?c "snd (TierCoordinator_delete ''a'' ?c)"]
    by (auto simp: iteration_order_def)
qed

section \<open>The facade's two stores\<close>

inductive runtime_step :: "MemoryRuntime \<Rightarrow> MemoryRuntime \<Rightarrow> bool" where
  rt_create: "runtime_step m (snd (MemoryRuntime_create unordered visit now uuid e m))"
| rt_get: "runtime_step m (snd (MemoryRuntime_get now i m))"
| rt_update: "runtime_step m (snd (MemoryRuntime_update now i v m))"
| rt_delete: "runtime_step m (snd (MemoryRuntime_delete i m))"
| rt_resolve: "runtime_step m (snd (MemoryRuntime_resolve lower visit uuid ms q m))"
| rt_resolve_policy: "runtime_step m (snd (MemoryRuntime_resolve_with_policy lower visit uuid ms q pol m))"
| rt_snapshot: "runtime_step m (snd (MemoryRuntime_snapshot visit now uuid i t m))"
| rt_merge: "runtime_step m (snd (MemoryRuntime_merge_snapshots visit_entries now uuid a b i m))"
| rt_retention: "runtime_step m (snd (MemoryRuntime_apply_retention visit now uuid m))"

lemma on_coordinator_lifecycle [simp]: "runtime_lifecycle (snd (on_coordinator f m)) = runtime_lifecycle m"
  by (simp add: on_coordinator_def split: prod.split)

lemma empty_store_lists_nothing: "MemoryLifecycle_list_by_tier visit t (MemoryLifecycle_new n) = []"
  by (simp add: MemoryLifecycle_list_by_tier_def MemoryLifecycle_new_def)

lemma empty_store_resolves_nothing:
  "MemoryResolver_resolve lower visit uuid ms q (MemoryLifecycle_new n) =
   (Returned (MemoryResolution_new q [] ms), MemoryLifecycle_new n)"
proof -
  have "resolve_tiers lower visit q (MemoryLifecycle_new n) [] ts = []" for ts
    unfolding resolve_tiers_miss by (simp add: empty_store_lists_nothing)
  then show ?thesis by (simp add: MemoryResolver_resolve_def resolved_event_def)
qed

lemma runtime_step_inv:
  assumes "runtime_lifecycle m = MemoryLifecycle_new 1000" "runtime_step m m'"
  shows "runtime_lifecycle m' = MemoryLifecycle_new 1000"
  using assms(2,1)
  by (induction rule: runtime_step.induct)
    (simp_all add: MemoryRuntime_create_def MemoryRuntime_get_def MemoryRuntime_update_def MemoryRuntime_delete_def
      MemoryRuntime_resolve_def MemoryRuntime_snapshot_def MemoryRuntime_merge_snapshots_def MemoryRuntime_apply_retention_def
      MemoryRuntime_resolve_with_policy_def empty_store_resolves_nothing)

interpretation runtime: preserved_system "\<lambda>m. m = MemoryRuntime_new p" runtime_step
  "\<lambda>m. runtime_lifecycle m = MemoryLifecycle_new 1000" for p
  by unfold_locales (auto simp: MemoryRuntime_new_def intro: runtime_step_inv)

text \<open>C40: Whatever has been stored through the runtime, resolving with a conflict policy finds nothing: it asks the
  facade's own store, which no operation ever fills, while entries live in the coordinator's store.\<close>

theorem policy_resolution_is_blind:
  assumes "runtime_step\<^sup>*\<^sup>* (MemoryRuntime_new p) m"
  shows "MemoryRuntime_resolve_with_policy lower visit uuid ms q pol m = (Returned (MemoryResolution_new q [] ms), m)"
proof -
  have r: "runtime_lifecycle m = MemoryLifecycle_new 1000" by (rule runtime.reachable_inv [OF refl assms])
  have "m\<lparr>runtime_lifecycle := MemoryLifecycle_new 1000\<rparr> = m" using r by (metis MemoryRuntime.surjective MemoryRuntime.update_convs(1))
  then show ?thesis by (simp add: MemoryRuntime_resolve_with_policy_def r empty_store_resolves_nothing)
qed

definition noted_runtime :: MemoryRuntime where
  "noted_runtime = snd (MemoryRuntime_create Some id 100 ''u'' (note_entry ''a'' Session ''build'') (MemoryRuntime_new MemoryPolicy_default))"

theorem policy_resolution_is_blind_witness:
  "fst (MemoryRuntime_resolve id id ''u'' 0 (MemoryQuery_new ''build'') noted_runtime) =
     Returned (MemoryResolution_new (MemoryQuery_new ''build'') [note_entry ''a'' Session ''build''] 0) \<and>
   fst (MemoryRuntime_resolve_with_policy id id ''u'' 0 (MemoryQuery_new ''build'') MostRecent noted_runtime) =
     Returned (MemoryResolution_new (MemoryQuery_new ''build'') [] 0)"
proof -
  have "runtime_step\<^sup>*\<^sup>* (MemoryRuntime_new MemoryPolicy_default) noted_runtime"
    unfolding noted_runtime_def by (rule r_into_rtranclp) (rule rt_create)
  note blind = policy_resolution_is_blind [OF this, of id id "''u''" 0 "MemoryQuery_new ''build''" MostRecent]
  have "fst (MemoryRuntime_resolve id id ''u'' 0 (MemoryQuery_new ''build'') noted_runtime) =
     Returned (MemoryResolution_new (MemoryQuery_new ''build'') [note_entry ''a'' Session ''build''] 0)"
    by code_simp
  then show ?thesis by (simp add: blind)
qed

end
