(* ===== verification/Eng_Memory.thy ===== *)
theory Eng_Memory
  imports Memory_Coordinator Host_Fs "HOL-Library.Sublist"
begin

text \<open>
  Engineering memory: its entries (\<^verbatim>\<open>engineering_memory/types.rs\<close>), the resolved context
  (\<^verbatim>\<open>memory_context.rs\<close>) and the resolver (\<^verbatim>\<open>resolver.rs\<close>).

  Strings are UTF-8 bytes, so \<open>len\<close> is the length of the list and the character boundaries at which a slice may be
  cut are computed from the bytes. \<open>usize\<close> arithmetic on lengths and budgets is on natural numbers. The clock,
  \<open>to_lowercase\<close> and the rounding of \<open>f64\<close> literals are the parameters \<open>now\<close>, \<open>lower\<close> and \<open>rnd\<close>.

  The lemmas show what a resolution may contain, that it respects its budgets, and that an
  excerpt is a prefix cut at a character boundary.
\<close>

section \<open>Entries\<close>

datatype MemoryStatus = Active | Expired | Superseded

fun MemoryStatus_as_str :: "MemoryStatus \<Rightarrow> string" where
  "MemoryStatus_as_str Active = ''active''"
| "MemoryStatus_as_str Expired = ''expired''"
| "MemoryStatus_as_str Superseded = ''superseded''"

record MemoryProvenance =
  origin :: string
  prov_session :: "string option"
  created_via :: "string option"

definition MemoryProvenance_default :: MemoryProvenance where
  "MemoryProvenance_default = \<lparr>origin = '''', prov_session = None, created_via = None\<rparr>"

definition MemoryProvenance_agent :: "string option \<Rightarrow> MemoryProvenance" where
  "MemoryProvenance_agent s = \<lparr>origin = ''agent'', prov_session = s, created_via = Some ''record_memory''\<rparr>"

record ConfidenceAdjustment =
  adjusted_at :: "64 word"
  adjusted_from :: f64
  adjusted_to :: f64
  adjust_reason :: "string option"

record EngineeringMemoryMetadata =
  eng_importance :: f64
  eng_confidence :: f64
  eng_tags :: "string list"
  eng_source :: "string option"
  expires_at :: "64 word option"
  status :: MemoryStatus
  provenance :: MemoryProvenance
  supersedes :: "string option"
  adjustments :: "ConfidenceAdjustment list"

definition EngineeringMemoryMetadata_default :: EngineeringMemoryMetadata where
  "EngineeringMemoryMetadata_default =
     \<lparr>eng_importance = Fin (1 / 2), eng_confidence = Fin (1 / 2), eng_tags = [], eng_source = None, expires_at = None,
      status = Active, provenance = MemoryProvenance_default, supersedes = None, adjustments = []\<rparr>"

definition EngineeringMemoryMetadata_with_importance :: "EngineeringMemoryMetadata \<Rightarrow> f64 \<Rightarrow> EngineeringMemoryMetadata" where
  "EngineeringMemoryMetadata_with_importance m x = m\<lparr>eng_importance := f64_clamp (Fin 0) (Fin 1) x\<rparr>"

definition EngineeringMemoryMetadata_with_confidence :: "EngineeringMemoryMetadata \<Rightarrow> f64 \<Rightarrow> EngineeringMemoryMetadata" where
  "EngineeringMemoryMetadata_with_confidence m x = m\<lparr>eng_confidence := f64_clamp (Fin 0) (Fin 1) x\<rparr>"

definition EngineeringMemoryMetadata_with_tag :: "EngineeringMemoryMetadata \<Rightarrow> string \<Rightarrow> EngineeringMemoryMetadata" where
  "EngineeringMemoryMetadata_with_tag m t = m\<lparr>eng_tags := push_unique t (eng_tags m)\<rparr>"

definition EngineeringMemoryMetadata_with_source :: "EngineeringMemoryMetadata \<Rightarrow> string \<Rightarrow> EngineeringMemoryMetadata" where
  "EngineeringMemoryMetadata_with_source m s = m\<lparr>eng_source := Some s\<rparr>"

definition EngineeringMemoryMetadata_with_ttl :: "64 word \<Rightarrow> EngineeringMemoryMetadata \<Rightarrow> 64 word \<Rightarrow> EngineeringMemoryMetadata" where
  "EngineeringMemoryMetadata_with_ttl now m seconds = m\<lparr>expires_at := (if seconds = 0 then None else Some (now + seconds))\<rparr>"

definition EngineeringMemoryMetadata_with_expires_at :: "EngineeringMemoryMetadata \<Rightarrow> 64 word \<Rightarrow> EngineeringMemoryMetadata" where
  "EngineeringMemoryMetadata_with_expires_at m t = m\<lparr>expires_at := Some t\<rparr>"

record EngineeringMemoryEntry =
  eng_id :: string
  eng_key :: string
  eng_value :: string
  eng_metadata :: EngineeringMemoryMetadata
  eng_created_at :: "64 word"
  eng_last_accessed :: "64 word"
  eng_access_count :: "64 word"

definition EngineeringMemoryEntry_new :: "64 word \<Rightarrow> string \<Rightarrow> string \<Rightarrow> string \<Rightarrow> EngineeringMemoryEntry" where
  "EngineeringMemoryEntry_new now i k v =
     \<lparr>eng_id = i, eng_key = k, eng_value = v, eng_metadata = EngineeringMemoryMetadata_default,
      eng_created_at = now, eng_last_accessed = now, eng_access_count = 0\<rparr>"

definition EngineeringMemoryEntry_with_metadata :: "EngineeringMemoryEntry \<Rightarrow> EngineeringMemoryMetadata \<Rightarrow> EngineeringMemoryEntry" where
  "EngineeringMemoryEntry_with_metadata e m = e\<lparr>eng_metadata := m\<rparr>"

definition EngineeringMemoryEntry_record_access :: "64 word \<Rightarrow> EngineeringMemoryEntry \<Rightarrow> EngineeringMemoryEntry" where
  "EngineeringMemoryEntry_record_access now e = e\<lparr>eng_last_accessed := now, eng_access_count := eng_access_count e + 1\<rparr>"

definition is_expired_at :: "64 word \<Rightarrow> EngineeringMemoryEntry \<Rightarrow> bool" where
  "is_expired_at now e \<longleftrightarrow> (case expires_at (eng_metadata e) of Some t \<Rightarrow> t \<le> now | None \<Rightarrow> False)"

definition is_resolvable_at :: "64 word \<Rightarrow> EngineeringMemoryEntry \<Rightarrow> bool" where
  "is_resolvable_at now e \<longleftrightarrow> status (eng_metadata e) = Active \<and> \<not> is_expired_at now e"

definition matches_keyword :: "(string \<Rightarrow> string) \<Rightarrow> EngineeringMemoryEntry \<Rightarrow> string \<Rightarrow> bool" where
  "matches_keyword lower e kw \<longleftrightarrow> occurs_in (lower kw) (lower (eng_key e)) \<or> occurs_in (lower kw) (lower (eng_value e))"

definition matches_tags :: "EngineeringMemoryEntry \<Rightarrow> string list \<Rightarrow> bool" where
  "matches_tags e ts \<longleftrightarrow> ts = [] \<or> list_ex (\<lambda>t. t \<in> set (eng_tags (eng_metadata e))) ts"

datatype EngineeringMemoryResolveError = TokenBudgetExceeded nat | NoMatches | ResolveGeneric string

fun EngineeringMemoryResolveError_display :: "EngineeringMemoryResolveError \<Rightarrow> string" where
  "EngineeringMemoryResolveError_display (TokenBudgetExceeded n) = ''token budget exceeded: '' @ show_nat n @ '' tokens''"
| "EngineeringMemoryResolveError_display NoMatches = ''no memory entries matched the query''"
| "EngineeringMemoryResolveError_display (ResolveGeneric m) = ''resolution error: '' @ m"

section \<open>The resolved context\<close>

datatype ContextMemoryTier = Ephemeral | Session | Project | Persistent

fun ContextMemoryTier_display :: "ContextMemoryTier \<Rightarrow> string" where
  "ContextMemoryTier_display Ephemeral = ''ephemeral''"
| "ContextMemoryTier_display ContextMemoryTier.Session = ''session''"
| "ContextMemoryTier_display ContextMemoryTier.Project = ''project''"
| "ContextMemoryTier_display Persistent = ''persistent''"

record ContextMemoryEntry =
  frag_key :: string
  frag_value :: string
  frag_confidence :: f64
  frag_tier :: ContextMemoryTier

record EngineeringMemoryContext =
  fragments :: "ContextMemoryEntry list"
  budget_remaining :: nat

definition EngineeringMemoryContext_new :: EngineeringMemoryContext where
  "EngineeringMemoryContext_new = \<lparr>fragments = [], budget_remaining = 0\<rparr>"

definition EngineeringMemoryContext_with_entries :: "EngineeringMemoryContext \<Rightarrow> ContextMemoryEntry list \<Rightarrow> EngineeringMemoryContext" where
  "EngineeringMemoryContext_with_entries c es = c\<lparr>fragments := stable_sort (\<lambda>a b. cmp (frag_key a) (frag_key b)) es\<rparr>"

definition EngineeringMemoryContext_with_budget :: "EngineeringMemoryContext \<Rightarrow> nat \<Rightarrow> EngineeringMemoryContext" where
  "EngineeringMemoryContext_with_budget c n = c\<lparr>budget_remaining := n\<rparr>"

definition EngineeringMemoryContext_entry_count :: "EngineeringMemoryContext \<Rightarrow> nat" where
  "EngineeringMemoryContext_entry_count c = length (fragments c)"

definition EngineeringMemoryContext_is_empty :: "EngineeringMemoryContext \<Rightarrow> bool" where
  "EngineeringMemoryContext_is_empty c \<longleftrightarrow> fragments c = []"

section \<open>Excerpts\<close>

definition DEFAULT_MAX_ENTRIES :: nat where "DEFAULT_MAX_ENTRIES = 20"
definition DEFAULT_TOKEN_BUDGET :: nat where "DEFAULT_TOKEN_BUDGET = 500"
definition EXCERPT_MAX_CHARS :: nat where "EXCERPT_MAX_CHARS = 2000"
definition MIN_EXCERPT_CHARS :: nat where "MIN_EXCERPT_CHARS = 64"

definition TRUNCATION_MARKER :: string where
  "TRUNCATION_MARKER = [CHR 0x0A, CHR 0xE2, CHR 0x80, CHR 0xA6] @ ''[truncated for memory budget]''"

text \<open>\<^verbatim>\<open>str::floor_char_boundary\<close>.\<close>

fun boundary_below :: "string \<Rightarrow> nat \<Rightarrow> nat" where
  "boundary_below s 0 = 0"
| "boundary_below s (Suc i) = (if is_char_boundary s (Suc i) then Suc i else boundary_below s i)"

definition floor_char_boundary :: "string \<Rightarrow> nat \<Rightarrow> nat" where
  "floor_char_boundary s i = (if i \<ge> length s then length s else boundary_below s i)"

definition BOUNDARIES :: "string list" where
  "BOUNDARIES = [[CHR 0x0A, CHR 0x0A], [CHR 0x0A], ''. '', [CHR ''.'', CHR 0x0A], ''; '', '', '']"

definition best_boundary :: "string \<Rightarrow> nat \<Rightarrow> nat option" where
  "best_boundary head safe_max =
     fold (\<lambda>b best. case rfind b head of
               None \<Rightarrow> best
             | Some pos \<Rightarrow>
                 if pos + length b \<le> safe_max
                 then Some (case best of None \<Rightarrow> pos + length b | Some cur \<Rightarrow> max (pos + length b) cur)
                 else best)
       BOUNDARIES None"

definition bounded_excerpt :: "string \<Rightarrow> nat \<Rightarrow> string \<times> bool" where
  "bounded_excerpt txt max_chars =
     (let m = min max_chars EXCERPT_MAX_CHARS in
      if length txt \<le> m then (txt, False)
      else
        let safe_max = floor_char_boundary txt m;
            head = take safe_max txt
        in case best_boundary head safe_max of
             Some end_pos \<Rightarrow>
               if end_pos \<ge> safe_max div 2 then (trim_end (take end_pos txt), True)
               else (trim_end (take safe_max txt), True)
           | None \<Rightarrow> (trim_end (take safe_max txt), True))"

section \<open>The resolver\<close>

record EngineeringMemoryResolver =
  max_entries :: nat
  token_budget :: nat
  resolver_min_confidence :: f64

definition EngineeringMemoryResolver_default :: "(rat \<Rightarrow> f64) \<Rightarrow> EngineeringMemoryResolver" where
  "EngineeringMemoryResolver_default rnd =
     \<lparr>max_entries = DEFAULT_MAX_ENTRIES, token_budget = DEFAULT_TOKEN_BUDGET, resolver_min_confidence = rnd (3 / 10)\<rparr>"

definition EngineeringMemoryResolver_new :: "nat \<Rightarrow> nat \<Rightarrow> f64 \<Rightarrow> EngineeringMemoryResolver" where
  "EngineeringMemoryResolver_new n b c = \<lparr>max_entries = n, token_budget = b, resolver_min_confidence = c\<rparr>"

text \<open>Steps 1 to 3: keywords, lifecycle, tags, confidence.\<close>

definition resolve_candidates ::
  "(string \<Rightarrow> string) \<Rightarrow> 64 word \<Rightarrow> EngineeringMemoryResolver \<Rightarrow> EngineeringMemoryEntry list \<Rightarrow> string list \<Rightarrow> string list \<Rightarrow>
   EngineeringMemoryEntry list" where
  "resolve_candidates lower now r es kws ts =
     (let keyword_matches = (if kws = [] then es else filter (\<lambda>e. list_ex (matches_keyword lower e) kws) es);
          live = filter (is_resolvable_at now) keyword_matches;
          tag_matches = (if ts = [] then live else filter (\<lambda>e. matches_tags e ts) live)
      in filter (\<lambda>e. f64_ge (eng_confidence (eng_metadata e)) (resolver_min_confidence r)) tag_matches)"

definition rank_cmp :: "EngineeringMemoryEntry \<Rightarrow> EngineeringMemoryEntry \<Rightarrow> cmp_ordering" where
  "rank_cmp a b =
     then_with (f64_cmp_or_equal (eng_importance (eng_metadata b)) (eng_importance (eng_metadata a)))
       (then_with (f64_cmp_or_equal (eng_confidence (eng_metadata b)) (eng_confidence (eng_metadata a)))
         (then_with (cmp (eng_key a) (eng_key b)) (cmp (eng_id a) (eng_id b))))"

definition entry_tokens :: "EngineeringMemoryEntry \<Rightarrow> nat" where
  "entry_tokens e = length (eng_key e @ '': '' @ eng_value e) div 4"

definition fragment_of :: "EngineeringMemoryEntry \<Rightarrow> string \<Rightarrow> ContextMemoryEntry" where
  "fragment_of e v = \<lparr>frag_key = eng_key e, frag_value = v, frag_confidence = eng_confidence (eng_metadata e),
     frag_tier = ContextMemoryTier.Project\<rparr>"

definition excerpt_fragment :: "EngineeringMemoryEntry \<Rightarrow> nat \<Rightarrow> ContextMemoryEntry" where
  "excerpt_fragment e n =
     (case bounded_excerpt (eng_value e) n of
        (excerpt, truncated) \<Rightarrow> fragment_of e (if truncated then excerpt @ TRUNCATION_MARKER else excerpt))"

text \<open>Step 6: the loop over the ranked entries, with the tokens used so far.\<close>

fun select_entries :: "nat \<Rightarrow> nat \<Rightarrow> EngineeringMemoryEntry list \<Rightarrow> ContextMemoryEntry list \<times> nat" where
  "select_entries budget used [] = ([], used)"
| "select_entries budget used (e # es) =
     (let remaining = budget - used in
      if entry_tokens e \<le> remaining then
        (let (fs, u) = select_entries budget (used + entry_tokens e) es in (fragment_of e (eng_value e) # fs, u))
      else if remaining \<ge> MIN_EXCERPT_CHARS then
        ([excerpt_fragment e (remaining * 4)], budget)
      else ([], used))"

definition EngineeringMemoryResolver_resolve ::
  "(EngineeringMemoryEntry list \<Rightarrow> EngineeringMemoryEntry list option) \<Rightarrow> (string \<Rightarrow> string) \<Rightarrow> 64 word \<Rightarrow> EngineeringMemoryResolver \<Rightarrow>
   EngineeringMemoryEntry list \<Rightarrow> string list \<Rightarrow> string list \<Rightarrow> (EngineeringMemoryResolveError, EngineeringMemoryContext) call" where
  "EngineeringMemoryResolver_resolve unordered lower now r es kws ts =
     (let candidates = resolve_candidates lower now r es kws ts in
      if candidates = [] then Raised NoMatches
      else case slice_sort_by unordered rank_cmp candidates of
        None \<Rightarrow> Panicked
      | Some ranked \<Rightarrow>
          let (selected, used) = select_entries (token_budget r) 0 (take (max_entries r) ranked) in
          if selected = [] then Raised NoMatches
          else Returned (EngineeringMemoryContext_with_budget
                 (EngineeringMemoryContext_with_entries EngineeringMemoryContext_new selected) (token_budget r - used)))"

section \<open>Where a slice may be cut\<close>

definition continuation_byte :: "char \<Rightarrow> bool" where
  "continuation_byte c \<longleftrightarrow> byte_in c 0x80 0xBF"

lemma second_ok_continuation: "second_ok b c \<Longrightarrow> continuation_byte c"
  by (auto simp: second_ok_def continuation_byte_def split: if_splits)

lemma utf8_width_cases: "\<not> continuation_byte b \<or> utf8_width b = 0" "1 < utf8_width b \<Longrightarrow> (of_char b :: nat) \<ge> 128"
  by (auto simp: continuation_byte_def utf8_width_def split: if_splits)

text \<open>Inside a well-formed sequence, every byte after the first is a continuation byte.\<close>

lemma utf8_front_Inr:
  assumes "utf8_front b r = Inr n"
  shows "0 < n" "\<not> continuation_byte b" "n - 1 \<le> length r"
    and "\<And>i. i < n - 1 \<Longrightarrow> continuation_byte (r ! i)" "1 < n \<Longrightarrow> (of_char b :: nat) \<ge> 128"
proof -
  have w: "utf8_width b \<noteq> 0" using assms by (auto simp: utf8_front_def split: if_splits)
  then show "\<not> continuation_byte b" using utf8_width_cases(1) [of b] by simp
  show "0 < n" "n - 1 \<le> length r" using assms by (auto simp: utf8_front_def split: if_splits list.splits)
  show "1 < n \<Longrightarrow> (of_char b :: nat) \<ge> 128"
    using assms utf8_width_cases(2) [of b] by (auto simp: utf8_front_def utf8_width_def split: if_splits list.splits)
  have all: "list_all continuation_byte (take (n - 1) r)"
    using assms second_ok_continuation [of b "hd r"]
    by (auto simp: utf8_front_def take_Cons' continuation_byte_def split: if_splits list.splits)
  show "continuation_byte (r ! i)" if "i < n - 1" for i
    using all that \<open>n - 1 \<le> length r\<close> by (simp add: list_all_length)
qed

lemma continuation_after_high:
  assumes "valid_utf8 s" "i < length s" "continuation_byte (s ! i)"
  shows "0 < i \<and> (of_char (s ! (i - 1)) :: nat) \<ge> 128"
  using assms
proof (induction s arbitrary: i rule: valid_utf8.induct)
  case (2 b r)
  obtain n where n: "utf8_front b r = Inr n" "valid_utf8 (drop (n - 1) r)"
    using "2.prems"(1) by (auto simp: valid_utf8.simps split: sum.splits)
  note u = utf8_front_Inr [OF n(1)]
  have hi: "continuation_byte c \<Longrightarrow> (of_char c :: nat) \<ge> 128" for c by (simp add: continuation_byte_def)
  show ?case
  proof (cases "i < n")
    case True
    then obtain j where j: "i = Suc j" using u(2) "2.prems"(3) by (cases i) auto
    show ?thesis
    proof (cases j)
      case 0
      then show ?thesis using j True u(5) by simp
    next
      case (Suc k)
      then show ?thesis using j True hi u(4) [of k] by simp
    qed
  next
    case False
    let ?s = "drop (n - 1) r"
    have "i - n < length ?s" "?s ! (i - n) = (b # r) ! i"
      using False "2.prems"(2) u(1,3) by (auto simp: nth_Cons' not_less)
    then have IH: "0 < i - n \<and> (of_char (?s ! (i - n - 1)) :: nat) \<ge> 128"
      using "2.IH" [OF n, of "i - n"] "2.prems"(3) by argo
    then have "?s ! (i - n - 1) = (b # r) ! (i - 1)"
      using False u(1,3) "2.prems"(2) by (subst nth_drop) (auto simp: nth_Cons' intro: arg_cong)
    with IH show ?thesis by simp
  qed
qed simp

lemma boundary_iff: "is_char_boundary s i \<longleftrightarrow> i = 0 \<or> i = length s \<or> (i < length s \<and> \<not> continuation_byte (s ! i))"
  by (auto simp: is_char_boundary_def continuation_byte_def)

lemma boundary_after_ascii:
  assumes "valid_utf8 s" "0 < i" "i \<le> length s" "(of_char (s ! (i - 1)) :: nat) < 128"
  shows "is_char_boundary s i"
  using continuation_after_high [OF assms(1), of i] assms by (auto simp: boundary_iff)

lemma boundary_below: "is_char_boundary s (boundary_below s i) \<and> boundary_below s i \<le> i"
  by (induction i) (auto simp: boundary_iff)

lemma floor_char_boundary: "is_char_boundary s (floor_char_boundary s i)" "floor_char_boundary s i \<le> i" if "i \<le> length s"
  using boundary_below [of s i] that by (auto simp: floor_char_boundary_def boundary_iff)

section \<open>Excerpts are prefixes\<close>

lemma prefix_trim_end: "prefix (trim_end s) s"
proof (induction s rule: trim_end.induct)
  case (1 s)
  show ?case
  proof (cases "ws_back s = 0")
    case True
    then show ?thesis by (simp add: trim_end.simps [of s])
  next
    case False
    then have "prefix (trim_end s) (take (length s - ws_back s) s)" using 1 by (simp add: trim_end.simps [of s])
    then show ?thesis using take_is_prefix prefix_order.trans by blast
  qed
qed

lemma boundaries_ascii: "b \<in> set BOUNDARIES \<Longrightarrow> b \<noteq> [] \<and> (of_char (last b) :: nat) < 128"
  by (auto simp: BOUNDARIES_def)

lemma rfind_end:
  assumes "rfind b s = Some pos" "b \<noteq> []"
  shows "s ! (pos + length b - 1) = last b" "pos + length b \<le> length s"
proof -
  show l: "pos + length b \<le> length s" by (rule rfind_bound [OF assms(1)])
  have t: "take (length b) (drop pos s) = b" using rfind_from_Some [OF assms(1) [unfolded rfind_def]] by simp
  have "last b = take (length b) (drop pos s) ! (length b - 1)" using assms(2) by (simp add: t last_conv_nth)
  then show "s ! (pos + length b - 1) = last b" using assms(2) l by (cases "length b") auto
qed

text \<open>The chosen boundary, if any, follows an ASCII byte of the head.\<close>

lemma best_boundary_sound:
  assumes "best_boundary s n = Some e"
  shows "0 < e \<and> e \<le> n \<and> e \<le> length s \<and> (of_char (s ! (e - 1)) :: nat) < 128"
proof -
  let ?ok = "\<lambda>e. 0 < e \<and> e \<le> n \<and> e \<le> length s \<and> (of_char (s ! (e - 1)) :: nat) < 128"
  let ?step = "\<lambda>b best. case rfind b s of None \<Rightarrow> best
     | Some pos \<Rightarrow> if pos + length b \<le> n
         then Some (case best of None \<Rightarrow> pos + length b | Some cur \<Rightarrow> max (pos + length b) cur) else best"
  have step: "?ok e" if "?step b best = Some e" "b \<in> set BOUNDARIES" "\<forall>e. best = Some e \<longrightarrow> ?ok e" for b best e
    using that rfind_end [of b s] boundaries_ascii [OF that(2)]
    by (auto simp: max_def Suc_le_eq split: option.splits if_splits)
  have "\<forall>e. fold ?step bs best = Some e \<longrightarrow> ?ok e" if "set bs \<subseteq> set BOUNDARIES" "\<forall>e. best = Some e \<longrightarrow> ?ok e" for bs best
    using that
  proof (induction bs arbitrary: best)
    case (Cons b bs)
    have "b \<in> set BOUNDARIES" "set bs \<subseteq> set BOUNDARIES" using Cons.prems(1) by simp_all
    moreover have "\<forall>e. ?step b best = Some e \<longrightarrow> ?ok e" using step [OF _ calculation(1) Cons.prems(2)] by blast
    ultimately show ?case unfolding fold_simps comp_def by (intro Cons.IH)
  qed simp
  then show ?thesis using assms unfolding best_boundary_def by blast
qed

lemma nth_char_take: "i < n \<Longrightarrow> take n s ! i = s ! i"
  by simp

text \<open>C35: An excerpt of a stored value is a prefix of it of at most the requested number of bytes and never more
  than the hard cap; it is the whole value exactly when that fits. A shortened value is cut at a
  character boundary of the text, so the slicing does not panic, and then loses its trailing white space.\<close>

theorem excerpt_bounded_prefix:
  assumes "valid_utf8 txt" "bounded_excerpt txt n = (ex, shortened)"
  shows "prefix ex txt \<and> length ex \<le> min n EXCERPT_MAX_CHARS \<and> (shortened \<longleftrightarrow> min n EXCERPT_MAX_CHARS < length txt) \<and>
    (\<not> shortened \<longrightarrow> ex = txt) \<and> (shortened \<longrightarrow> (\<exists>c \<le> min n EXCERPT_MAX_CHARS. is_char_boundary txt c \<and> ex = trim_end (take c txt)))"
proof (cases "length txt \<le> min n EXCERPT_MAX_CHARS")
  case True
  then show ?thesis using assms(2) by (auto simp: bounded_excerpt_def Let_def)
next
  case False
  let ?m = "min n EXCERPT_MAX_CHARS"
  let ?s = "floor_char_boundary txt ?m"
  have m: "?m \<le> length txt" using False by linarith
  have s: "is_char_boundary txt ?s" "?s \<le> ?m" by (rule floor_char_boundary [OF m])+
  obtain c where c: "c \<le> ?m" "is_char_boundary txt c" "ex = trim_end (take c txt)" "shortened"
  proof (cases "best_boundary (take ?s txt) ?s")
    case None
    then show ?thesis using that [of ?s] s assms(2) False by (auto simp: bounded_excerpt_def Let_def)
  next
    case (Some e)
    note e = best_boundary_sound [OF Some]
    then have "is_char_boundary txt e" using boundary_after_ascii [OF assms(1), of e] by (auto simp: nth_char_take)
    then show ?thesis
      using that [of ?s] that [of e] s e assms(2) False Some
      by (auto simp: bounded_excerpt_def Let_def split: if_splits)
  qed
  have "prefix ex (take c txt)" using c(3) prefix_trim_end by simp
  then have "length ex \<le> c" "prefix ex txt"
    using prefix_length_le [of ex "take c txt"] take_is_prefix prefix_order.trans by (fastforce, blast)
  then show ?thesis using c False by auto
qed

theorem excerpt_bounded_prefix_witness:
  "prefix ''a b'' ''a b c. d'' \<and> bounded_excerpt ''a b c. d'' 4 = (''a b'', True)"
proof -
  have e: "bounded_excerpt ''a b c. d'' 4 = (''a b'', True)" by code_simp
  have "valid_utf8 ''a b c. d''" by (rule valid_utf8_ascii) simp
  from excerpt_bounded_prefix [OF this e] e show ?thesis by simp
qed

section \<open>Ranking and selection\<close>

lemma total_cmp_on_then:
  assumes "total_cmp_on c xs" "total_cmp_on d xs"
  shows "total_cmp_on (\<lambda>a b. then_with (c a b) (d a b)) xs"
proof (rule total_cmp_onI)
  fix x y assume "x \<in> set xs" "y \<in> set xs"
  then show "then_with (c y x) (d y x) = swap_ordering (then_with (c x y) (d x y))"
    using total_cmp_onD(1) [OF assms(1), of x y] total_cmp_onD(1) [OF assms(2), of x y] by (simp add: then_with_def)
next
  fix x y z assume s: "x \<in> set xs" "y \<in> set xs" "z \<in> set xs"
    and le: "then_with (c x y) (d x y) \<noteq> Greater" "then_with (c y z) (d y z) \<noteq> Greater"
  note c = total_cmp_onD(1) [OF assms(1)] total_cmp_onD(2) [OF assms(1)]
  have cxz: "c x z \<noteq> Greater" using c(2) [OF s] le by (auto simp: then_with_def split: if_splits)
  have eq: "c x y = Equal \<and> c y z = Equal" if "c x z = Equal"
  proof -
    have "c z x = Equal" using c(1) [OF s(1,3)] that by simp
    then have "c z y \<noteq> Greater" "c y x \<noteq> Greater"
      using c(2) [OF s(3,1,2)] c(2) [OF s(2,3,1)] le by (auto simp: then_with_def split: if_splits)
    then show ?thesis using c(1) [OF s(1,2)] c(1) [OF s(2,3)] le by (cases "c x y"; cases "c y z") (auto simp: then_with_def)
  qed
  show "then_with (c x z) (d x z) \<noteq> Greater"
    using cxz eq total_cmp_onD(2) [OF assms(2) s] le by (auto simp: then_with_def)
qed

lemma rank_cmp_total:
  assumes "\<forall>e \<in> set es. eng_importance (eng_metadata e) \<noteq> NaN \<and> eng_confidence (eng_metadata e) \<noteq> NaN"
  shows "total_cmp_on rank_cmp es"
proof -
  have "total_cmp_on (\<lambda>a b. f64_cmp_or_equal (eng_importance (eng_metadata b)) (eng_importance (eng_metadata a))) es"
    "total_cmp_on (\<lambda>a b. f64_cmp_or_equal (eng_confidence (eng_metadata b)) (eng_confidence (eng_metadata a))) es"
    using assms by (auto intro!: total_cmp_on_cmp_desc simp: f64_cmp_or_equal_cmp)
  moreover have "total_cmp_on (\<lambda>a b. cmp (eng_key a) (eng_key b)) es" "total_cmp_on (\<lambda>a b. cmp (eng_id a) (eng_id b)) es"
    by (auto intro: total_cmp_on_cmp)
  ultimately have "total_cmp_on (\<lambda>a b. then_with (f64_cmp_or_equal (eng_importance (eng_metadata b)) (eng_importance (eng_metadata a)))
      (then_with (f64_cmp_or_equal (eng_confidence (eng_metadata b)) (eng_confidence (eng_metadata a)))
        (then_with (cmp (eng_key a) (eng_key b)) (cmp (eng_id a) (eng_id b))))) es"
    by (intro total_cmp_on_then)
  then show ?thesis by (simp add: rank_cmp_def [abs_def])
qed

definition eligible :: "(string \<Rightarrow> string) \<Rightarrow> 64 word \<Rightarrow> EngineeringMemoryResolver \<Rightarrow> string list \<Rightarrow> string list \<Rightarrow> EngineeringMemoryEntry \<Rightarrow> bool" where
  "eligible lower now r kws ts e \<longleftrightarrow>
     (kws = [] \<or> (\<exists>kw \<in> set kws. matches_keyword lower e kw)) \<and> status (eng_metadata e) = Active \<and> \<not> is_expired_at now e \<and>
     (ts = [] \<or> (\<exists>t \<in> set ts. t \<in> set (eng_tags (eng_metadata e)))) \<and>
     eng_confidence (eng_metadata e) \<noteq> NaN \<and> resolver_min_confidence r \<noteq> NaN \<and>
     resolver_min_confidence r \<le> eng_confidence (eng_metadata e)"

lemma f64_ge_iff: "f64_ge x y \<longleftrightarrow> x \<noteq> NaN \<and> y \<noteq> NaN \<and> y \<le> x"
  by (cases "x = NaN"; cases "y = NaN") (auto simp: f64_ge_def f64_eq_def f64_lt_less)

lemma resolve_candidates_eligible: "resolve_candidates lower now r es kws ts = filter (eligible lower now r kws ts) es"
  by (auto simp: resolve_candidates_def Let_def eligible_def list_ex_iff is_resolvable_at_def matches_tags_def f64_ge_iff
      intro!: filter_cong)

text \<open>The loop takes a prefix of the ranked entries in full and then at most one excerpt.\<close>

lemma select_entries_prefix:
  assumes "select_entries budget used es = (fs, u)" "used \<le> budget"
  shows "\<exists>full rest tail. es = full @ rest \<and> fs = map (\<lambda>e. fragment_of e (eng_value e)) full @ tail \<and>
    used + sum_list (map entry_tokens full) \<le> budget \<and>
    (let left = budget - (used + sum_list (map entry_tokens full)) in
     case rest of
       [] \<Rightarrow> tail = [] \<and> u = budget - left
     | e # _ \<Rightarrow> left < entry_tokens e \<and>
         (if left < MIN_EXCERPT_CHARS then tail = [] \<and> u = budget - left
          else u = budget \<and> tail = [excerpt_fragment e (left * 4)]))"
  using assms
proof (induction es arbitrary: used fs u)
  case (Cons e es)
  show ?case
  proof (cases "entry_tokens e \<le> budget - used")
    case True
    obtain fs' u' where s: "select_entries budget (used + entry_tokens e) es = (fs', u')" by (rule prod.exhaust)
    then have fs: "fs = fragment_of e (eng_value e) # fs'" "u = u'" using Cons.prems(1) True by simp_all
    have "used + entry_tokens e \<le> budget" using True Cons.prems(2) by simp
    from Cons.IH [OF s this] obtain full rest tail where "es = full @ rest"
      "fs' = map (\<lambda>e. fragment_of e (eng_value e)) full @ tail"
      "used + entry_tokens e + sum_list (map entry_tokens full) \<le> budget"
      "let left = budget - (used + entry_tokens e + sum_list (map entry_tokens full)) in
       case rest of
         [] \<Rightarrow> tail = [] \<and> u' = budget - left
       | e # _ \<Rightarrow> left < entry_tokens e \<and>
           (if left < MIN_EXCERPT_CHARS then tail = [] \<and> u' = budget - left
            else u' = budget \<and> tail = [excerpt_fragment e (left * 4)])" by blast
    then show ?thesis
      unfolding fs by (intro exI [of _ "e # full"] exI [of _ rest] exI [of _ tail]) (simp add: add.assoc)
  next
    case False
    then show ?thesis
      using Cons.prems
      by (intro exI [of _ "[]"] exI [of _ "e # es"] exI [of _ fs]) (auto simp: Let_def split: if_splits)
  qed
qed simp

section \<open>Properties of the resolver\<close>

lemma resolve_call:
  fixes lower now r kws ts and es :: "EngineeringMemoryEntry list"
  assumes "\<forall>e \<in> set es. eng_importance (eng_metadata e) \<noteq> NaN"
  defines "ranked \<equiv> stable_sort rank_cmp (filter (eligible lower now r kws ts) es)"
  shows "EngineeringMemoryResolver_resolve unordered lower now r es kws ts =
    (let (selected, used) = select_entries (token_budget r) 0 (take (max_entries r) ranked) in
     if selected = [] then Raised NoMatches
     else Returned \<lparr>fragments = stable_sort (\<lambda>a b. cmp (frag_key a) (frag_key b)) selected, budget_remaining = token_budget r - used\<rparr>)"
    and "sorted_wrt (\<lambda>a b. rank_cmp a b \<noteq> Greater) ranked"
proof -
  have tot: "total_cmp_on rank_cmp (filter (eligible lower now r kws ts) es)"
    using assms(1) by (intro rank_cmp_total) (auto simp: eligible_def)
  then show "sorted_wrt (\<lambda>a b. rank_cmp a b \<noteq> Greater) ranked" unfolding ranked_def by (rule sorted_stable_sort)
  show "EngineeringMemoryResolver_resolve unordered lower now r es kws ts =
    (let (selected, used) = select_entries (token_budget r) 0 (take (max_entries r) ranked) in
     if selected = [] then Raised NoMatches
     else Returned \<lparr>fragments = stable_sort (\<lambda>a b. cmp (frag_key a) (frag_key b)) selected, budget_remaining = token_budget r - used\<rparr>)"
  proof (cases "filter (eligible lower now r kws ts) es = []")
    case True
    then show ?thesis
      by (simp add: EngineeringMemoryResolver_resolve_def resolve_candidates_eligible ranked_def stable_sort_def)
  next
    case False
    then show ?thesis
      using tot
      by (simp add: EngineeringMemoryResolver_resolve_def resolve_candidates_eligible slice_sort_by_def ranked_def [symmetric]
          EngineeringMemoryContext_with_budget_def EngineeringMemoryContext_with_entries_def EngineeringMemoryContext_new_def split: prod.split)
  qed
qed

text \<open>C11: A resolution contains only stored entries that are active, unexpired, match the keywords and tags and reach the
  minimum confidence. It takes the entries of the best rank, at most the entry limit: a first part in full,
  whose token counts together stay within the token budget, and then at most one more entry as an excerpt. The fragments
  are ordered by key, and the reported remaining budget is what the full entries leave, or zero after an excerpt.\<close>

theorem resolution_within_budget:
  assumes "\<forall>e \<in> set es. eng_importance (eng_metadata e) \<noteq> NaN"
    and "EngineeringMemoryResolver_resolve unordered lower now r es kws ts = Returned ctx"
  shows "\<exists>full tail left_out.
    mset (full @ tail @ left_out) = mset (filter (eligible lower now r kws ts) es) \<and>
    sorted_wrt (\<lambda>a b. rank_cmp a b \<noteq> Greater) (full @ tail @ left_out) \<and>
    length (full @ tail) \<le> max_entries r \<and> length tail \<le> 1 \<and>
    sum_list (map entry_tokens full) \<le> token_budget r \<and>
    sorted (map frag_key (fragments ctx)) \<and>
    mset (fragments ctx) = mset (map (\<lambda>e. fragment_of e (eng_value e)) full @
      map (\<lambda>e. excerpt_fragment e (4 * (token_budget r - sum_list (map entry_tokens full)))) tail) \<and>
    budget_remaining ctx = (if tail = [] then token_budget r - sum_list (map entry_tokens full) else 0)"
proof -
  let ?ranked = "stable_sort rank_cmp (filter (eligible lower now r kws ts) es)"
  obtain fs u where s: "select_entries (token_budget r) 0 (take (max_entries r) ?ranked) = (fs, u)" by (rule prod.exhaust)
  have ctx: "fragments ctx = stable_sort (\<lambda>a b. cmp (frag_key a) (frag_key b)) fs" "budget_remaining ctx = token_budget r - u"
    using assms(2) resolve_call(1) [OF assms(1), of unordered lower now r kws ts] s by (auto simp: Let_def split: if_splits)
  from select_entries_prefix [OF s] obtain full rest cuts where f: "take (max_entries r) ?ranked = full @ rest"
    "fs = map (\<lambda>e. fragment_of e (eng_value e)) full @ cuts" "sum_list (map entry_tokens full) \<le> token_budget r"
    "let left = token_budget r - sum_list (map entry_tokens full) in
     case rest of
       [] \<Rightarrow> cuts = [] \<and> u = token_budget r - left
     | e # _ \<Rightarrow> left < entry_tokens e \<and>
         (if left < MIN_EXCERPT_CHARS then cuts = [] \<and> u = token_budget r - left
          else u = token_budget r \<and> cuts = [excerpt_fragment e (left * 4)])" by auto
  define tail where "tail = (if cuts = [] then [] else take 1 rest)"
  define left_out where "left_out = drop (length (full @ tail)) ?ranked"
  have pt: "prefix (full @ tail) (take (max_entries r) ?ranked)"
    unfolding f(1) tail_def by (auto simp: take_is_prefix)
  have p: "prefix (full @ tail) ?ranked" "length (full @ tail) \<le> max_entries r"
    using prefix_order.trans [OF pt take_is_prefix] prefix_length_le [OF pt] by simp_all
  then have r: "full @ tail @ left_out = ?ranked" unfolding left_out_def by (auto simp: prefix_def)
  have u: "token_budget r - (token_budget r - (token_budget r - sum_list (map entry_tokens full))) = token_budget r - sum_list (map entry_tokens full)"
    using f(3) by simp
  have "cuts = map (\<lambda>e. excerpt_fragment e (4 * (token_budget r - sum_list (map entry_tokens full)))) tail \<and>
    budget_remaining ctx = (if tail = [] then token_budget r - sum_list (map entry_tokens full) else 0)"
  proof (cases "cuts = []")
    case True
    then have "u = token_budget r - (token_budget r - sum_list (map entry_tokens full))"
      using f(4) unfolding Let_def by (cases rest) (simp_all split: if_splits)
    then show ?thesis using True ctx(2) u by (simp add: tail_def)
  next
    case False
    then obtain e rest' where rest: "rest = e # rest'" using f(4) unfolding Let_def by (cases rest) simp_all
    then have "u = token_budget r" "cuts = [excerpt_fragment e ((token_budget r - sum_list (map entry_tokens full)) * 4)]"
      using f(4) False unfolding Let_def by (simp_all split: if_splits)
    then show ?thesis using ctx(2) rest by (simp add: tail_def mult.commute)
  qed
  moreover have "length tail \<le> 1" by (simp add: tail_def)
  moreover have "mset (fragments ctx) = mset (map (\<lambda>e. fragment_of e (eng_value e)) full @ cuts)" by (simp only: ctx(1) f(2) mset_stable_sort)
  moreover have "sorted (map frag_key (fragments ctx))"
    unfolding ctx(1) using sorted_stable_sort [of "\<lambda>a b. cmp (frag_key a) (frag_key b)" fs] total_cmp_on_cmp [of fs _ frag_key]
    by (simp add: sorted_map sorted_wrt_iff_nth_less not_less)
  moreover have "mset (full @ tail @ left_out) = mset (filter (eligible lower now r kws ts) es)" unfolding r by simp
  moreover have "sorted_wrt (\<lambda>a b. rank_cmp a b \<noteq> Greater) (full @ tail @ left_out)"
    unfolding r by (rule resolve_call(2) [OF assms(1)])
  ultimately show ?thesis
    using p(2) f(3) by (intro exI [of _ full] exI [of _ tail] exI [of _ left_out] conjI) simp_all
qed

definition memo :: "string \<Rightarrow> string \<Rightarrow> string \<Rightarrow> EngineeringMemoryEntry" where
  "memo i k v = EngineeringMemoryEntry_new 100 i k v"

lemma memo_importance: "eng_importance (eng_metadata (memo i k v)) = Fin (1 / 2)"
  by (simp add: memo_def EngineeringMemoryEntry_new_def EngineeringMemoryMetadata_default_def)

theorem resolution_within_budget_witness:
  "\<exists>ctx full. EngineeringMemoryResolver_resolve Some id 100 (EngineeringMemoryResolver_new 5 10 (Fin 0)) [memo ''1'' ''b'' ''x'', memo ''2'' ''a'' ''y''] [] [] =
      Returned ctx \<and> sum_list (map entry_tokens full) \<le> 10 \<and> sorted (map frag_key (fragments ctx)) \<and> length (fragments ctx) = 2"
proof -
  let ?es = "[memo ''1'' ''b'' ''x'', memo ''2'' ''a'' ''y'']"
  let ?ctx = "\<lparr>fragments = [fragment_of (memo ''2'' ''a'' ''y'') ''y'', fragment_of (memo ''1'' ''b'' ''x'') ''x''], budget_remaining = 8\<rparr>"
  have r: "EngineeringMemoryResolver_resolve Some id 100 (EngineeringMemoryResolver_new 5 10 (Fin 0)) ?es [] [] = Returned ?ctx"
    by code_simp
  have n: "\<forall>e \<in> set ?es. eng_importance (eng_metadata e) \<noteq> NaN" by (simp add: memo_importance)
  have "token_budget (EngineeringMemoryResolver_new 5 10 (Fin 0)) = 10" by (simp add: EngineeringMemoryResolver_new_def)
  then show ?thesis using resolution_within_budget [OF n r] r by auto
qed

text \<open>An entry that does not fit is dropped, not excerpted, when fewer than 64 tokens are left: the limit is
  documented in characters but compared with tokens. If the best ranked entry does not fit a budget of less
  than 64 tokens, the resolution reports that nothing matches, although up to 252 characters could be shown.\<close>

theorem oversized_best_entry_dropped:
  assumes "\<forall>e \<in> set es. eng_importance (eng_metadata e) \<noteq> NaN"
    and "stable_sort rank_cmp (filter (eligible lower now r kws ts) es) = best # others"
    and "token_budget r < entry_tokens best" "token_budget r < 64"
  shows "EngineeringMemoryResolver_resolve unordered lower now r es kws ts = Raised NoMatches"
  using assms(3,4) unfolding resolve_call(1) [OF assms(1)] assms(2)
  by (cases "max_entries r") (simp_all add: MIN_EXCERPT_CHARS_def)

theorem oversized_best_entry_dropped_witness:
  "EngineeringMemoryResolver_resolve Some id 100 (EngineeringMemoryResolver_new 5 63 (Fin 0)) [memo ''1'' ''k'' (replicate 300 (CHR ''v''))] [] [] =
   Raised NoMatches"
proof (rule oversized_best_entry_dropped [where others = "[]"])
  let ?e = "memo ''1'' ''k'' (replicate 300 (CHR ''v''))"
  let ?r = "EngineeringMemoryResolver_new 5 63 (Fin 0)"
  show "\<forall>e \<in> set [?e]. eng_importance (eng_metadata e) \<noteq> NaN" by (simp add: memo_importance)
  have "eligible id 100 ?r [] [] ?e"
    by (simp add: eligible_def memo_def EngineeringMemoryEntry_new_def EngineeringMemoryMetadata_default_def is_expired_at_def
        EngineeringMemoryResolver_new_def)
  then show "stable_sort rank_cmp (filter (eligible id 100 ?r [] []) [?e]) = [?e]" by (simp add: stable_sort_def)
  show "token_budget ?r < entry_tokens ?e" "token_budget ?r < 64"
    by (simp_all add: EngineeringMemoryResolver_new_def entry_tokens_def memo_def EngineeringMemoryEntry_new_def)
qed

end
