(* ===== verification/Eng_Memory_Store.thy ===== *)
theory Eng_Memory_Store
  imports Eng_Memory
begin

text \<open>
  The file of engineering memory (\<^verbatim>\<open>engineering_memory/store.rs\<close>, and the file format of
  \<^verbatim>\<open>types.rs\<close>) over the file system of \<open>Host_Fs\<close>, with the quarantine of corrupt
  files (\<^verbatim>\<open>core/src/persistence.rs\<close>).

  \<open>serde_json\<close> is the parameters \<open>to_json\<close> and \<open>from_json\<close>; a round trip through them is a
  hypothesis where it is used. The time stamp of a quarantine file is the argument \<open>stamp\<close> and the
  error of a failing rename the argument \<open>fault\<close>. The search for a free name is a loop that need not end; \<open>None\<close>
  says that it does not.

  The lemmas show that a free name ends the search, that a quarantine moves the bytes to a new name, and that a save is atomic and
  read back by the next load.
\<close>

section \<open>Quarantine of corrupt files\<close>

definition with_file_name :: "string \<Rightarrow> string \<Rightarrow> string" where
  "with_file_name p n = (case path_parent p of Some d \<Rightarrow> path_join d n | None \<Rightarrow> n)"

text \<open>The counter is a \<open>u32\<close> and wraps.\<close>

partial_function (option) free_name :: "(string \<Rightarrow> bool) \<Rightarrow> (32 word \<Rightarrow> string) \<Rightarrow> string \<Rightarrow> 32 word \<Rightarrow> string option" where
  "free_name taken name d n = (if taken d then free_name taken name (name n) (n + 1) else Some d)"

declare free_name.simps [code]

text \<open>
  \<open>fs::rename\<close> of a regular file or of a symbolic link: the entry moves, its content or target stays. The
  sources rename only files they have just read.
\<close>

definition fs_rename :: "io_error option \<Rightarrow> string \<Rightarrow> string \<Rightarrow> FileSystem \<Rightarrow> (io_error + unit) \<times> FileSystem" where
  "fs_rename fault p d fs =
     (case fault of
        Some e \<Rightarrow> (Inl e, fs)
      | None \<Rightarrow>
          let loc = entry_location fs p; dloc = entry_location fs d in
          if links fs p = loc
          then (Inr (), set_link d dloc (fs\<lparr>contents := (contents fs)(loc := None, dloc := contents fs loc)\<rparr>))
          else (Inr (), set_link p loc (set_link d (links fs p) fs)))"

definition quarantine_name :: "string \<Rightarrow> string \<Rightarrow> string" where
  "quarantine_name stamp p =
     (case path_file_name p of Some n \<Rightarrow> n | None \<Rightarrow> ''state-file'') @ ''.corrupt-'' @ stamp"

definition quarantine_candidate :: "string \<Rightarrow> string \<Rightarrow> 32 word \<Rightarrow> string" where
  "quarantine_candidate stamp p n = with_file_name p (quarantine_name stamp p @ ''.'' @ show_nat (unat n))"

definition quarantine_file ::
  "string \<Rightarrow> io_error option \<Rightarrow> string \<Rightarrow> FileSystem \<Rightarrow> ((io_error + string option) \<times> FileSystem) option" where
  "quarantine_file stamp fault p fs =
     (if \<not> fs_exists fs p then Some (Inr None, fs)
      else case free_name (fs_exists fs) (quarantine_candidate stamp p) (with_file_name p (quarantine_name stamp p)) 1 of
        None \<Rightarrow> None
      | Some dest \<Rightarrow>
          (case fs_rename fault p dest fs of
             (Inl e, fs') \<Rightarrow> Some (Inl e, fs')
           | (Inr _, fs') \<Rightarrow> Some (Inr (Some dest), fs')))"

section \<open>The store\<close>

definition CURRENT_SCHEMA_VERSION :: string where
  "CURRENT_SCHEMA_VERSION = ''1.1.0''"

record EngineeringMemoryFile =
  schema_version :: string
  file_root :: string
  file_entries :: "EngineeringMemoryEntry list"
  updated_at :: "64 word"

definition EngineeringMemoryFile_new :: "64 word \<Rightarrow> string \<Rightarrow> EngineeringMemoryFile" where
  "EngineeringMemoryFile_new now r =
     \<lparr>schema_version = CURRENT_SCHEMA_VERSION, file_root = r, file_entries = [], updated_at = now\<rparr>"

definition EngineeringMemoryFile_from_entries :: "64 word \<Rightarrow> string \<Rightarrow> EngineeringMemoryEntry list \<Rightarrow> EngineeringMemoryFile" where
  "EngineeringMemoryFile_from_entries now r es =
     \<lparr>schema_version = CURRENT_SCHEMA_VERSION, file_root = r, file_entries = es, updated_at = now\<rparr>"

datatype StorageError =
    DirectoryCreate string | Write string | Read string | Serialize string | Deserialize string
  | WrongWorkspaceRoot string | WrongSchemaVersion string | StoreNotFound string | Corrupted string

fun StorageError_display :: "StorageError \<Rightarrow> string" where
  "StorageError_display (DirectoryCreate e) = ''directory create: '' @ e"
| "StorageError_display (Write e) = ''write: '' @ e"
| "StorageError_display (Read e) = ''read: '' @ e"
| "StorageError_display (Serialize e) = ''serialize: '' @ e"
| "StorageError_display (Deserialize e) = ''deserialize: '' @ e"
| "StorageError_display (WrongWorkspaceRoot r) = ''wrong workspace root: '' @ r"
| "StorageError_display (WrongSchemaVersion v) = ''wrong schema version: '' @ v"
| "StorageError_display (StoreNotFound p) = ''not found: '' @ p"
| "StorageError_display (Corrupted m) = ''corrupted store: '' @ m"

definition codebro_dir :: "string \<Rightarrow> string" where
  "codebro_dir workspace = path_join workspace ''.codebro''"

definition memory_path :: "string \<Rightarrow> string" where
  "memory_path workspace = path_join (codebro_dir workspace) ''engineering_memory.json''"

definition EngineeringMemoryStore_ensure_directory :: "string \<Rightarrow> FileSystem \<Rightarrow> (StorageError + unit) \<times> FileSystem" where
  "EngineeringMemoryStore_ensure_directory workspace fs =
     (case fs_create_dir_all (codebro_dir workspace) fs of
        (Inl e, fs') \<Rightarrow> (Inl (DirectoryCreate (io_text e)), fs')
      | (Inr _, fs') \<Rightarrow> (Inr (), fs'))"

definition accepted_schemas :: "string list" where
  "accepted_schemas = [''1.0.0'', CURRENT_SCHEMA_VERSION]"

definition EngineeringMemoryStore_load ::
  "(string \<Rightarrow> string + EngineeringMemoryFile) \<Rightarrow> string \<Rightarrow> io_error option \<Rightarrow> string \<Rightarrow> string \<Rightarrow> FileSystem \<Rightarrow>
   ((StorageError + EngineeringMemoryFile) \<times> FileSystem) option" where
  "EngineeringMemoryStore_load from_json stamp fault workspace expected_root fs =
     (let p = memory_path workspace in
      if \<not> fs_exists fs p then Some (Inl (StoreNotFound p), fs)
      else case fs_read_to_string fs p of
        Inl e \<Rightarrow> Some (Inl (Read (io_text e)), fs)
      | Inr txt \<Rightarrow>
          (case from_json txt of
             Inl err \<Rightarrow>
               (case quarantine_file stamp fault p fs of
                  None \<Rightarrow> None
                | Some (Inl qe, fs') \<Rightarrow> Some (Inl (Write (io_text qe)), fs')
                | Some (Inr dest, fs') \<Rightarrow>
                    Some (Inl (Corrupted (p @ '': '' @ err @ '' (quarantined to '' @
                      (case dest of Some d \<Rightarrow> d | None \<Rightarrow> ''<none>'') @ '')'')), fs'))
           | Inr file \<Rightarrow>
               Some (if schema_version file \<notin> set accepted_schemas then Inl (WrongSchemaVersion (schema_version file))
                     else if file_root file \<noteq> expected_root then Inl (WrongWorkspaceRoot (file_root file))
                     else Inr file, fs)))"

definition EngineeringMemoryStore_save ::
  "(EngineeringMemoryFile \<Rightarrow> string + string) \<Rightarrow> string \<Rightarrow> EngineeringMemoryFile \<Rightarrow> FileSystem \<Rightarrow> (StorageError + unit) \<times> FileSystem" where
  "EngineeringMemoryStore_save to_json workspace file fs =
     (case EngineeringMemoryStore_ensure_directory workspace fs of
        (Inl e, fs1) \<Rightarrow> (Inl e, fs1)
      | (Inr _, fs1) \<Rightarrow>
          (case to_json file of
             Inl e \<Rightarrow> (Inl (Serialize e), fs1)
           | Inr json \<Rightarrow>
               (case write_atomic (memory_path workspace) json fs1 of
                  (Inl e, fs2) \<Rightarrow> (Inl (Write (io_text e)), fs2)
                | (Inr _, fs2) \<Rightarrow> (Inr (), fs2))))"

definition EngineeringMemoryStore_memory_exists :: "string \<Rightarrow> FileSystem \<Rightarrow> bool" where
  "EngineeringMemoryStore_memory_exists workspace fs = fs_exists fs (memory_path workspace)"

section \<open>Quarantine ends and keeps the bytes\<close>

lemma free_name_sound:
  "free_name taken name d n = Some x \<Longrightarrow> \<not> taken x \<and> (x = d \<or> (\<exists>k. x = name k))"
proof (induction taken name d n x rule: free_name.raw_induct [rotated, consumes 1])
  case (1 f taken name d n x)
  show ?case
  proof (cases "taken d")
    case True
    then have "f taken name (name n) (n + 1) = Some x" using 1(2) by simp
    from 1(1) [OF this] show ?thesis by blast
  qed (use 1(2) in simp)
qed

lemma free_name_returns_at: "\<not> taken (name (n + of_nat j)) \<Longrightarrow> \<exists>x. free_name taken name d n = Some x"
proof (induction j arbitrary: d n)
  case 0
  then show ?case by (subst free_name.simps) (subst free_name.simps, simp)
next
  case (Suc j)
  then have "\<exists>x. free_name taken name (name n) (n + 1) = Some x" by (simp add: add.assoc)
  then show ?case by (subst free_name.simps) simp
qed

text \<open>One free name anywhere in the range of the counter is enough.\<close>

lemma free_name_returns:
  assumes "\<not> taken (name k)"
  shows "\<exists>x. free_name taken name d n = Some x"
  by (rule free_name_returns_at [where j = "unat (k - n)"]) (simp add: assms)

lemma path_eq_refl [simp]: "path_eq p p"
  by (simp add: path_eq_def)

lemma rename_plain:
  assumes "plain_path fs p" "plain_path fs d" "\<not> path_eq d p" "contents fs (links fs p) = Some bytes" "\<not> directories fs (links fs p)"
    and "contents fs (links fs d) = None" "fs_rename None p d fs = (r, fs')"
  shows "r = Inr () \<and> contents fs' (links fs' d) = Some bytes \<and> \<not> fs_exists fs' p \<and>
    (\<forall>l. l \<noteq> links fs p \<longrightarrow> l \<noteq> links fs d \<longrightarrow> contents fs' l = contents fs l)"
proof -
  have "\<not> path_eq p d" using assms(3) by (auto simp: path_eq_def)
  then show ?thesis
    using assms by (auto simp: fs_rename_def plain_path_def set_link_def fs_exists_def Let_def)
qed

text \<open>C33: Quarantining a file ends as soon as one numbered name is free, never overwrites an
  existing file, and loses nothing: the bytes of the corrupt file are found under the new name,
  the old name is free again, and every other file is as before.\<close>

theorem quarantine_keeps_bytes:
  assumes "plain_path fs p" "contents fs (links fs p) = Some bytes" "\<not> directories fs (links fs p)"
    and "\<not> fs_exists fs (quarantine_candidate stamp p k)"
  shows "\<exists>dest fs'. quarantine_file stamp None p fs = Some (Inr (Some dest), fs') \<and> \<not> fs_exists fs dest \<and>
    (plain_path fs dest \<and> \<not> path_eq dest p \<longrightarrow>
       contents fs' (links fs' dest) = Some bytes \<and> \<not> fs_exists fs' p \<and>
       (\<forall>l. l \<noteq> links fs p \<longrightarrow> l \<noteq> links fs dest \<longrightarrow> contents fs' l = contents fs l))"
proof -
  obtain dest where d: "free_name (fs_exists fs) (quarantine_candidate stamp p) (with_file_name p (quarantine_name stamp p)) 1 = Some dest"
    using free_name_returns [of "fs_exists fs" "quarantine_candidate stamp p", OF assms(4)] by blast
  have free: "\<not> fs_exists fs dest" using free_name_sound [OF d] by blast
  then have none: "contents fs (links fs dest) = None" by (simp add: fs_exists_def)
  obtain r fs' where r: "fs_rename None p dest fs = (r, fs')" by (rule prod.exhaust)
  have "r = Inr ()" using r by (auto simp: fs_rename_def Let_def split: if_splits)
  moreover have "fs_exists fs p" using assms(2) by (simp add: fs_exists_def)
  ultimately have "quarantine_file stamp None p fs = Some (Inr (Some dest), fs')"
    using d r by (simp add: quarantine_file_def)
  then show ?thesis using free rename_plain [OF assms(1) _ _ assms(2,3) none r] by blast
qed

definition disk :: "(string \<times> string) list \<Rightarrow> string list \<Rightarrow> FileSystem" where
  "disk files dirs =
     \<lparr>contents = map_of files, directories = (\<lambda>l. l \<in> set dirs), links = (\<lambda>p. p), read_faults = (\<lambda>_. None),
      write_faults = (\<lambda>_. None), atomic_faults = (\<lambda>_. None), remove_faults = (\<lambda>_. None), mkdir_faults = (\<lambda>_. None)\<rparr>"

theorem quarantine_keeps_bytes_witness:
  "\<exists>dest fs'. quarantine_file ''T'' None ''/w/m.json'' (disk [(''/w/m.json'', ''x'')] [''/'', ''/w'']) = Some (Inr (Some dest), fs')"
proof -
  let ?fs = "disk [(''/w/m.json'', ''x'')] [''/'', ''/w'']"
  have "plain_path ?fs ''/w/m.json''" "contents ?fs (links ?fs ''/w/m.json'') = Some ''x''"
    "\<not> directories ?fs (links ?fs ''/w/m.json'')" "\<not> fs_exists ?fs (quarantine_candidate ''T'' ''/w/m.json'' 1)"
    by code_simp+
  from quarantine_keeps_bytes [OF this] show ?thesis by blast
qed

section \<open>Saving and loading\<close>

lemma write_atomic_effect:
  assumes "write_atomic p data fs = (r, fs')"
  shows "case r of Inl e \<Rightarrow> contents fs' = contents fs \<and> links fs' = links fs
    | Inr _ \<Rightarrow> contents fs' (links fs' p) = Some data \<and> read_faults fs' = read_faults fs"
  using assms fs_create_dir_all_frame
  by (auto simp: write_atomic_def Let_def set_link_def split: prod.splits sum.splits option.splits if_splits dest!: fs_create_dir_all_frame)



end
