(* ===== verification/Eng_Memory_Runtime.thy ===== *)
theory Eng_Memory_Runtime
  imports Eng_Memory_Store
begin

text \<open>
  The engineering memory runtime (\<^verbatim>\<open>engineering_memory/runtime.rs\<close>): the entries of a
  project, recorded with conflict detection, expired, adjusted, persisted, and mirrored into a \<open>MemoryRuntime\<close>.

  The project identity provider is only stored and asked for diagnostics; it is not part of the state
  here. Every operation that changes an entry rebuilds the mirror; the random ids of the events this writes are the argument
  \<open>uuid\<close>, by entry.

  The operations form a transition system whose reachable states have distinct ids and an exact mirror.
\<close>

section \<open>State and errors\<close>

datatype EngineeringMemoryError =
    Storage StorageError | WrongProject string | WrongSchema string | Resolution EngineeringMemoryResolveError
  | ConfirmationRequired string | EngGeneric string

fun EngineeringMemoryError_display :: "EngineeringMemoryError \<Rightarrow> string" where
  "EngineeringMemoryError_display (Storage e) = ''storage: '' @ StorageError_display e"
| "EngineeringMemoryError_display (WrongProject r) = ''wrong project workspace root: '' @ r"
| "EngineeringMemoryError_display (WrongSchema v) = ''wrong schema version: '' @ v"
| "EngineeringMemoryError_display (Resolution e) = ''resolution: '' @ EngineeringMemoryResolveError_display e"
| "EngineeringMemoryError_display (ConfirmationRequired m) = m"
| "EngineeringMemoryError_display (EngGeneric m) = ''generic: '' @ m"

fun from_storage_error :: "StorageError \<Rightarrow> EngineeringMemoryError" where
  "from_storage_error (WrongWorkspaceRoot r) = WrongProject r"
| "from_storage_error (WrongSchemaVersion v) = WrongSchema v"
| "from_storage_error e = Storage e"

record EngineeringMemoryRuntime =
  rt_root :: string
  rt_memory :: MemoryRuntime
  rt_resolver :: EngineeringMemoryResolver
  rt_entries :: "EngineeringMemoryEntry list"

definition EngineeringMemoryRuntime_new :: "(rat \<Rightarrow> f64) \<Rightarrow> string \<Rightarrow> EngineeringMemoryRuntime" where
  "EngineeringMemoryRuntime_new rnd workspace =
     \<lparr>rt_root = workspace, rt_memory = MemoryRuntime_new MemoryPolicy_default,
      rt_resolver = EngineeringMemoryResolver_default rnd, rt_entries = []\<rparr>"

section \<open>The mirror\<close>

definition mirror_entry :: "64 word \<Rightarrow> EngineeringMemoryEntry \<Rightarrow> MemoryEntry" where
  "mirror_entry now e =
     MemoryEntry_with_metadata (MemoryEntry_new now (eng_id e) MemoryTier.Project (eng_key e) (eng_value e))
       \<lparr>importance = eng_importance (eng_metadata e), confidence = eng_confidence (eng_metadata e),
        tags = eng_tags (eng_metadata e), source = eng_source (eng_metadata e), context_note = None\<rparr>"

definition sync_to_runtime ::
  "(MemoryEntry list \<Rightarrow> MemoryEntry list option) \<Rightarrow> (string list \<Rightarrow> string list) \<Rightarrow> 64 word \<Rightarrow> (string \<Rightarrow> string) \<Rightarrow>
   EngineeringMemoryRuntime \<Rightarrow> EngineeringMemoryRuntime" where
  "sync_to_runtime unordered visit now uuid rt =
     rt\<lparr>rt_memory := fold (\<lambda>e m. snd (MemoryRuntime_create unordered visit now (uuid (eng_id e)) (mirror_entry now e) m))
          (rt_entries rt) (MemoryRuntime_new MemoryPolicy_default)\<rparr>"

section \<open>Recording\<close>

datatype ConflictKind = KeyReplaced | NearDuplicate

record MemoryConflict =
  conflict_kind :: ConflictKind
  prior_id :: string
  prior_key :: string

fun kind_str :: "ConflictKind \<Rightarrow> string" where
  "kind_str KeyReplaced = ''key_replaced''"
| "kind_str NearDuplicate = ''near_duplicate''"

record RecordOutcome =
  outcome_id :: string
  outcome_conflicts :: "MemoryConflict list"

text \<open>
  The normalised tokens of a value: the non-empty pieces between white space, commas, semicolons and full stops, each once.
\<close>

definition overlap_tokens :: "(string \<Rightarrow> string) \<Rightarrow> string \<Rightarrow> string list" where
  "overlap_tokens lower s =
     remdups (split_whitespace (map (\<lambda>c. if c \<in> set '',;.'' then CHR '' '' else c) (lower s)))"

definition token_overlap :: "(rat \<Rightarrow> f64) \<Rightarrow> (string \<Rightarrow> string) \<Rightarrow> string \<Rightarrow> string \<Rightarrow> f64" where
  "token_overlap rnd lower a b =
     (let sa = overlap_tokens lower a; sb = overlap_tokens lower b in
      if sa = [] \<and> sb = [] then Fin 1
      else
        let inter = length (filter (\<lambda>t. t \<in> set sb) sa); un = length (remdups (sa @ sb)) in
        if un = 0 then Fin 0 else rnd (of_nat inter / of_nat un))"

definition replaces :: "EngineeringMemoryEntry \<Rightarrow> EngineeringMemoryEntry \<Rightarrow> bool" where
  "replaces new e \<longleftrightarrow> eng_key e = eng_key new \<and> status (eng_metadata e) = Active \<and> eng_value e \<noteq> eng_value new"

definition near_duplicate :: "(rat \<Rightarrow> f64) \<Rightarrow> (string \<Rightarrow> string) \<Rightarrow> EngineeringMemoryEntry \<Rightarrow> EngineeringMemoryEntry \<Rightarrow> bool" where
  "near_duplicate rnd lower new e \<longleftrightarrow>
     eng_key e \<noteq> eng_key new \<and> status (eng_metadata e) = Active \<and> eng_value e \<noteq> eng_value new \<and>
     f64_ge (token_overlap rnd lower (eng_value e) (eng_value new)) (rnd (7 / 10))"

definition mark_superseded :: "EngineeringMemoryEntry \<Rightarrow> EngineeringMemoryEntry" where
  "mark_superseded e = e\<lparr>eng_metadata := (eng_metadata e)\<lparr>status := Superseded\<rparr>\<rparr>"

definition conflict_of :: "ConflictKind \<Rightarrow> EngineeringMemoryEntry \<Rightarrow> MemoryConflict" where
  "conflict_of k e = \<lparr>conflict_kind = k, prior_id = eng_id e, prior_key = eng_key e\<rparr>"

definition EngineeringMemoryRuntime_record ::
  "(rat \<Rightarrow> f64) \<Rightarrow> (string \<Rightarrow> string) \<Rightarrow> (MemoryEntry list \<Rightarrow> MemoryEntry list option) \<Rightarrow> (string list \<Rightarrow> string list) \<Rightarrow> 64 word \<Rightarrow> (string \<Rightarrow> string) \<Rightarrow>
   EngineeringMemoryEntry \<Rightarrow> EngineeringMemoryRuntime \<Rightarrow> (EngineeringMemoryError + RecordOutcome) \<times> EngineeringMemoryRuntime" where
  "EngineeringMemoryRuntime_record rnd lower unordered visit now uuid new rt =
     (if list_ex (\<lambda>e. eng_id e = eng_id new) (rt_entries rt)
      then (Inl (EngGeneric (''entry already exists: '' @ eng_id new)), rt)
      else
        let replaced = filter (replaces new) (rt_entries rt);
            marked = map (\<lambda>e. if replaces new e then mark_superseded e else e) (rt_entries rt);
            conflicts = map (conflict_of KeyReplaced) replaced @
              map (conflict_of NearDuplicate) (filter (near_duplicate rnd lower new) marked);
            stored = new\<lparr>eng_metadata := (eng_metadata new)\<lparr>supersedes :=
              map_option prior_id (find (\<lambda>c. conflict_kind c = KeyReplaced) conflicts)\<rparr>\<rparr>
        in (Inr \<lparr>outcome_id = eng_id new, outcome_conflicts = conflicts\<rparr>,
            sync_to_runtime unordered visit now uuid (rt\<lparr>rt_entries := marked @ [stored]\<rparr>)))"

section \<open>Other operations\<close>

definition expire_entry :: "64 word \<Rightarrow> EngineeringMemoryEntry \<Rightarrow> EngineeringMemoryEntry" where
  "expire_entry now e =
     (if is_expired_at now e \<and> status (eng_metadata e) = Active
      then e\<lparr>eng_metadata := (eng_metadata e)\<lparr>status := Expired\<rparr>\<rparr> else e)"

definition EngineeringMemoryRuntime_sweep_expired ::
  "(MemoryEntry list \<Rightarrow> MemoryEntry list option) \<Rightarrow> (string list \<Rightarrow> string list) \<Rightarrow> 64 word \<Rightarrow> (string \<Rightarrow> string) \<Rightarrow>
   EngineeringMemoryRuntime \<Rightarrow> nat \<times> EngineeringMemoryRuntime" where
  "EngineeringMemoryRuntime_sweep_expired unordered visit now uuid rt =
     (let n = length (filter (\<lambda>e. is_expired_at now e \<and> status (eng_metadata e) = Active) (rt_entries rt));
          rt1 = rt\<lparr>rt_entries := map (expire_entry now) (rt_entries rt)\<rparr>
      in (n, if n > 0 then sync_to_runtime unordered visit now uuid rt1 else rt1))"

text \<open>The first entry with an id is changed; \<open>None\<close> when there is none.\<close>

fun update_first :: "string \<Rightarrow> (EngineeringMemoryEntry \<Rightarrow> EngineeringMemoryEntry) \<Rightarrow> EngineeringMemoryEntry list \<Rightarrow>
    EngineeringMemoryEntry list option" where
  "update_first i f [] = None"
| "update_first i f (e # es) = (if eng_id e = i then Some (f e # es) else map_option ((#) e) (update_first i f es))"

definition not_found :: "string \<Rightarrow> EngineeringMemoryError" where
  "not_found i = EngGeneric (''entry not found: '' @ i)"

definition MAX_ADJUSTMENTS :: nat where "MAX_ADJUSTMENTS = 16"

definition adjust_entry :: "64 word \<Rightarrow> f64 \<Rightarrow> string option \<Rightarrow> EngineeringMemoryEntry \<Rightarrow> EngineeringMemoryEntry" where
  "adjust_entry now to_conf why e =
     (let a = \<lparr>adjusted_at = now, adjusted_from = eng_confidence (eng_metadata e), adjusted_to = to_conf, adjust_reason = why\<rparr>;
          trail = adjustments (eng_metadata e) @ [a]
      in EngineeringMemoryEntry_record_access now
           (e\<lparr>eng_metadata := (eng_metadata e)
             \<lparr>adjustments := (if length trail > MAX_ADJUSTMENTS then drop (length trail - MAX_ADJUSTMENTS) trail else trail),
              eng_confidence := to_conf\<rparr>\<rparr>))"

definition EngineeringMemoryRuntime_adjust_confidence ::
  "(MemoryEntry list \<Rightarrow> MemoryEntry list option) \<Rightarrow> (string list \<Rightarrow> string list) \<Rightarrow> 64 word \<Rightarrow> (string \<Rightarrow> string) \<Rightarrow>
   string \<Rightarrow> f64 \<Rightarrow> string option \<Rightarrow> EngineeringMemoryRuntime \<Rightarrow> (EngineeringMemoryError + ConfidenceAdjustment) \<times> EngineeringMemoryRuntime" where
  "EngineeringMemoryRuntime_adjust_confidence unordered visit now uuid i to_conf why rt =
     (let conf = f64_clamp (Fin 0) (Fin 1) to_conf in
      case find (\<lambda>e. eng_id e = i) (rt_entries rt) of
        None \<Rightarrow> (Inl (not_found i), rt)
      | Some e \<Rightarrow>
          (Inr \<lparr>adjusted_at = now, adjusted_from = eng_confidence (eng_metadata e), adjusted_to = conf, adjust_reason = why\<rparr>,
           sync_to_runtime unordered visit now uuid
             (rt\<lparr>rt_entries := the (update_first i (adjust_entry now conf why) (rt_entries rt))\<rparr>)))"

definition EngineeringMemoryRuntime_update ::
  "(MemoryEntry list \<Rightarrow> MemoryEntry list option) \<Rightarrow> (string list \<Rightarrow> string list) \<Rightarrow> 64 word \<Rightarrow> (string \<Rightarrow> string) \<Rightarrow>
   string \<Rightarrow> string \<Rightarrow> EngineeringMemoryRuntime \<Rightarrow> (EngineeringMemoryError + unit) \<times> EngineeringMemoryRuntime" where
  "EngineeringMemoryRuntime_update unordered visit now uuid i v rt =
     (case update_first i (\<lambda>e. EngineeringMemoryEntry_record_access now (e\<lparr>eng_value := v\<rparr>)) (rt_entries rt) of
        None \<Rightarrow> (Inl (not_found i), rt)
      | Some es \<Rightarrow> (Inr (), sync_to_runtime unordered visit now uuid (rt\<lparr>rt_entries := es\<rparr>)))"

definition EngineeringMemoryRuntime_update_with_metadata ::
  "(MemoryEntry list \<Rightarrow> MemoryEntry list option) \<Rightarrow> (string list \<Rightarrow> string list) \<Rightarrow> 64 word \<Rightarrow> (string \<Rightarrow> string) \<Rightarrow>
   string \<Rightarrow> string \<Rightarrow> EngineeringMemoryMetadata \<Rightarrow> EngineeringMemoryRuntime \<Rightarrow> (EngineeringMemoryError + unit) \<times> EngineeringMemoryRuntime" where
  "EngineeringMemoryRuntime_update_with_metadata unordered visit now uuid i v md rt =
     (case update_first i (\<lambda>e. EngineeringMemoryEntry_record_access now (e\<lparr>eng_value := v, eng_metadata := md\<rparr>)) (rt_entries rt) of
        None \<Rightarrow> (Inl (not_found i), rt)
      | Some es \<Rightarrow> (Inr (), sync_to_runtime unordered visit now uuid (rt\<lparr>rt_entries := es\<rparr>)))"

fun remove_entry :: "string \<Rightarrow> EngineeringMemoryEntry list \<Rightarrow> EngineeringMemoryEntry list option" where
  "remove_entry i [] = None"
| "remove_entry i (e # es) = (if eng_id e = i then Some es else map_option ((#) e) (remove_entry i es))"

definition EngineeringMemoryRuntime_delete ::
  "(MemoryEntry list \<Rightarrow> MemoryEntry list option) \<Rightarrow> (string list \<Rightarrow> string list) \<Rightarrow> 64 word \<Rightarrow> (string \<Rightarrow> string) \<Rightarrow>
   string \<Rightarrow> bool \<Rightarrow> EngineeringMemoryRuntime \<Rightarrow> (EngineeringMemoryError + unit) \<times> EngineeringMemoryRuntime" where
  "EngineeringMemoryRuntime_delete unordered visit now uuid i confirm rt =
     (if \<not> confirm
      then (Inl (ConfirmationRequired (''delete rejected: set confirm=true to delete '' @ [CHR 0x27] @ i @ [CHR 0x27])), rt)
      else case remove_entry i (rt_entries rt) of
        None \<Rightarrow> (Inl (not_found i), rt)
      | Some es \<Rightarrow> (Inr (), sync_to_runtime unordered visit now uuid (rt\<lparr>rt_entries := es\<rparr>)))"

section \<open>The file\<close>

text \<open>The checks of the store are repeated here, after it has already made them.\<close>

definition EngineeringMemoryRuntime_load ::
  "(string \<Rightarrow> string + EngineeringMemoryFile) \<Rightarrow> string \<Rightarrow> io_error option \<Rightarrow>
   (MemoryEntry list \<Rightarrow> MemoryEntry list option) \<Rightarrow> (string list \<Rightarrow> string list) \<Rightarrow> 64 word \<Rightarrow> (string \<Rightarrow> string) \<Rightarrow>
   EngineeringMemoryRuntime \<Rightarrow> FileSystem \<Rightarrow> ((EngineeringMemoryError + nat) \<times> EngineeringMemoryRuntime \<times> FileSystem) option" where
  "EngineeringMemoryRuntime_load from_json stamp fault unordered visit now uuid rt fs =
     (case EngineeringMemoryStore_load from_json stamp fault (rt_root rt) (rt_root rt) fs of
        None \<Rightarrow> None
      | Some (Inl e, fs') \<Rightarrow> Some (Inl (from_storage_error e), rt, fs')
      | Some (Inr file, fs') \<Rightarrow>
          if schema_version file \<notin> set accepted_schemas then Some (Inl (WrongSchema (schema_version file)), rt, fs')
          else if file_root file \<noteq> rt_root rt then Some (Inl (WrongProject (file_root file)), rt, fs')
          else
            let rt1 = sync_to_runtime unordered visit now uuid (rt\<lparr>rt_entries := file_entries file\<rparr>);
                rt2 = snd (EngineeringMemoryRuntime_sweep_expired unordered visit now uuid rt1)
            in Some (Inr (length (rt_entries rt2)), rt2, fs'))"

definition EngineeringMemoryRuntime_memory_exists :: "EngineeringMemoryRuntime \<Rightarrow> FileSystem \<Rightarrow> bool" where
  "EngineeringMemoryRuntime_memory_exists rt fs = EngineeringMemoryStore_memory_exists (rt_root rt) fs"

definition EngineeringMemoryRuntime_persist ::
  "(EngineeringMemoryFile \<Rightarrow> string + string) \<Rightarrow> 64 word \<Rightarrow> EngineeringMemoryRuntime \<Rightarrow> FileSystem \<Rightarrow> (EngineeringMemoryError + unit) \<times> FileSystem" where
  "EngineeringMemoryRuntime_persist to_json now rt fs =
     (case EngineeringMemoryStore_save to_json (rt_root rt) (EngineeringMemoryFile_from_entries now (rt_root rt) (rt_entries rt)) fs of
        (Inl e, fs') \<Rightarrow> (Inl (from_storage_error e), fs')
      | (Inr _, fs') \<Rightarrow> (Inr (), fs'))"

definition EngineeringMemoryRuntime_snapshot :: "EngineeringMemoryRuntime \<Rightarrow> EngineeringMemoryEntry list" where
  "EngineeringMemoryRuntime_snapshot rt = rt_entries rt"

text \<open>\<open>None\<close> is a panic of the sort.\<close>

definition EngineeringMemoryRuntime_resolve_for_task ::
  "(EngineeringMemoryEntry list \<Rightarrow> EngineeringMemoryEntry list option) \<Rightarrow> (string \<Rightarrow> string) \<Rightarrow> 64 word \<Rightarrow> string list \<Rightarrow> string list \<Rightarrow>
   EngineeringMemoryRuntime \<Rightarrow> EngineeringMemoryContext option" where
  "EngineeringMemoryRuntime_resolve_for_task unordered lower now kws ts rt =
     (case EngineeringMemoryResolver_resolve unordered lower now (rt_resolver rt) (rt_entries rt) kws ts of
        Returned c \<Rightarrow> Some c
      | Raised _ \<Rightarrow> Some EngineeringMemoryContext_new
      | Panicked \<Rightarrow> None)"

definition EngineeringMemoryRuntime_entry_count :: "EngineeringMemoryRuntime \<Rightarrow> nat" where
  "EngineeringMemoryRuntime_entry_count rt = length (rt_entries rt)"

definition provider_snapshot :: "EngineeringMemoryRuntime \<Rightarrow> EngineeringMemoryContext" where
  "provider_snapshot rt =
     EngineeringMemoryContext_with_entries EngineeringMemoryContext_new (map (\<lambda>e. fragment_of e (eng_value e)) (rt_entries rt))"

section \<open>The mirror is exact\<close>

text \<open>What a live entry of the runtime and a stored entry have in common.\<close>

definition mirrors :: "EngineeringMemoryEntry \<Rightarrow> MemoryEntry \<Rightarrow> bool" where
  "mirrors e m \<longleftrightarrow> entry_id m = eng_id e \<and> tier m = MemoryTier.Project \<and> entry_key m = eng_key e \<and> entry_value m = eng_value e \<and>
     importance (metadata m) = eng_importance (eng_metadata e) \<and> confidence (metadata m) = eng_confidence (eng_metadata e) \<and>
     tags (metadata m) = eng_tags (eng_metadata e) \<and> source (metadata m) = eng_source (eng_metadata e)"

definition runtime_live :: "MemoryRuntime \<Rightarrow> string \<rightharpoonup> MemoryEntry" where
  "runtime_live m = live_entries (coordinator m)"

definition exact_mirror :: "EngineeringMemoryEntry list \<Rightarrow> MemoryRuntime \<Rightarrow> bool" where
  "exact_mirror es m \<longleftrightarrow>
     (\<forall>e \<in> set es. \<exists>x. runtime_live m (eng_id e) = Some x \<and> mirrors e x) \<and> dom (runtime_live m) = eng_id ` set es"

lemma mirror_entry_simps [simp]:
  "entry_id (mirror_entry now e) = eng_id e" "tier (mirror_entry now e) = MemoryTier.Project"
  "last_accessed (mirror_entry now e) = now" "mirrors e (mirror_entry now e)"
  by (simp_all add: mirror_entry_def MemoryEntry_with_metadata_def MemoryEntry_new_def mirrors_def)

definition mirror_ok :: "64 word \<Rightarrow> MemoryRuntime \<Rightarrow> bool" where
  "mirror_ok now m \<longleftrightarrow> lifecycle_ok (lifecycle (coordinator m)) \<and> max_events (lifecycle (coordinator m)) = 1000 \<and>
     policy (coordinator m) = MemoryPolicy_default \<and> (\<forall>x \<in> ran (runtime_live m). last_accessed x = now)"

lemma mirror_ok_new: "mirror_ok now (MemoryRuntime_new MemoryPolicy_default)" "runtime_live (MemoryRuntime_new p) = Map.empty"
  using lifecycle_inv_new [of 1000]
  by (auto simp: mirror_ok_def MemoryRuntime_new_def TierCoordinator_new_def runtime_live_def live_entries_def
      lifecycle_ok_def lifecycle_inv_defs MemoryLifecycle_new_def)

lemma fresh_not_due: "last_accessed x = now \<Longrightarrow> \<not> evictable now MemoryPolicy_default x"
  by (simp add: evictable_def MemoryPolicy_should_evict_def MemoryPolicy_is_expired_def MemoryPolicy_default_def
      RetentionPolicy_default_def MemoryEntry_is_expired_def saturating_sub_def)

lemma default_allows: "MemoryPolicy_is_access_allowed MemoryPolicy_default t k c"
  by (simp add: MemoryPolicy_is_access_allowed_def MemoryPolicy_default_def)

lemma default_orders: "total_cmp_on (eviction_cmp (eviction MemoryPolicy_default)) es"
  by (auto intro: total_cmp_on_cmp simp: MemoryPolicy_default_def)

lemma mirror_step:
  assumes "iteration_order visit" "mirror_ok now m" "runtime_live m (eng_id e) = None"
  shows "\<exists>m'. MemoryRuntime_create unordered visit now u (mirror_entry now e) m = (Returned (eng_id e), m') \<and>
    mirror_ok now m' \<and> runtime_live m' = (runtime_live m)(eng_id e \<mapsto> mirror_entry now e)"
proof -
  let ?c = "coordinator m"
  have m: "lifecycle_ok (lifecycle ?c)" "max_events (lifecycle ?c) = 1000" "policy ?c = MemoryPolicy_default"
    "\<forall>x \<in> ran (live_entries ?c). last_accessed x = now" "live_entries ?c (eng_id e) = None"
    using assms(2,3) by (simp_all add: mirror_ok_def runtime_live_def)
  obtain c' where c': "TierCoordinator_create unordered visit now u (mirror_entry now e) ?c = (Returned (eng_id e), c')"
    "live_entries c' = (live_entries ?c)(eng_id e \<mapsto> mirror_entry now e)" "lifecycle_ok (lifecycle c')"
    "policy c' = policy ?c" "max_events (lifecycle c') = max_events (lifecycle ?c)"
    using create_none_due [OF assms(1) m(1), of "mirror_entry now e" now unordered u] m(2-5)
    by (auto simp: default_orders default_allows fresh_not_due)
  have "\<forall>x \<in> ran (live_entries c'). last_accessed x = now"
    using m(4,5) by (simp add: c'(2) ran_map_upd)
  then show ?thesis
    using c' m(2,3) by (simp add: MemoryRuntime_create_def on_coordinator_def mirror_ok_def runtime_live_def)
qed

lemma mirror_fold:
  assumes "iteration_order visit" "mirror_ok now m" "distinct (map eng_id es)" "\<forall>e \<in> set es. runtime_live m (eng_id e) = None"
  shows "let m' = fold (\<lambda>e m. snd (MemoryRuntime_create unordered visit now (uuid (eng_id e)) (mirror_entry now e) m)) es m in
    mirror_ok now m' \<and> runtime_live m' = runtime_live m ++ map_of (map (\<lambda>e. (eng_id e, mirror_entry now e)) es)"
  using assms(2-4)
proof (induction es arbitrary: m)
  case (Cons e es)
  obtain m1 where m1: "MemoryRuntime_create unordered visit now (uuid (eng_id e)) (mirror_entry now e) m = (Returned (eng_id e), m1)"
    "mirror_ok now m1" "runtime_live m1 = (runtime_live m)(eng_id e \<mapsto> mirror_entry now e)"
    using mirror_step [OF assms(1) Cons.prems(1)] Cons.prems(3) by (metis list.set_intros(1))
  have "\<forall>e' \<in> set es. runtime_live m1 (eng_id e') = None"
    using Cons.prems(2,3) m1(3) by (auto simp: rev_image_eqI)
  from Cons.IH [OF m1(2) _ this] Cons.prems(2)
  have "let m' = fold (\<lambda>e m. snd (MemoryRuntime_create unordered visit now (uuid (eng_id e)) (mirror_entry now e) m)) es m1 in
    mirror_ok now m' \<and> runtime_live m' = runtime_live m1 ++ map_of (map (\<lambda>e. (eng_id e, mirror_entry now e)) es)" by simp
  moreover have "eng_id e \<notin> dom (map_of (map (\<lambda>e. (eng_id e, mirror_entry now e)) es))"
    using Cons.prems(2) by (simp add: dom_map_of_conv_image_fst image_image)
  ultimately show ?case
    using m1(1) unfolding Let_def m1(3)
    by (simp add: map_add_upd_left map_add_upd)
qed (simp add: Let_def)

lemma exact_mirror_map_of:
  assumes "distinct (map eng_id es)" "runtime_live m = map_of (map (\<lambda>e. (eng_id e, mirror_entry now e)) es)"
  shows "exact_mirror es m"
proof -
  have "distinct (map fst (map (\<lambda>e. (eng_id e, mirror_entry now e)) es))" using assms(1) by (simp add: comp_def)
  then have "runtime_live m (eng_id e) = Some (mirror_entry now e)" if "e \<in> set es" for e
    unfolding assms(2) using that by (intro map_of_is_SomeI) auto
  moreover have "dom (runtime_live m) = eng_id ` set es"
    unfolding assms(2) by (simp add: dom_map_of_conv_image_fst image_image)
  ultimately show ?thesis by (auto simp: exact_mirror_def intro: mirror_entry_simps(4))
qed

lemma sync_exact:
  assumes "iteration_order visit" "distinct (map eng_id (rt_entries rt))"
  shows "exact_mirror (rt_entries rt) (rt_memory (sync_to_runtime unordered visit now uuid rt))"
    and "rt_entries (sync_to_runtime unordered visit now uuid rt) = rt_entries rt"
    and "rt_root (sync_to_runtime unordered visit now uuid rt) = rt_root rt"
proof -
  show "exact_mirror (rt_entries rt) (rt_memory (sync_to_runtime unordered visit now uuid rt))"
    using mirror_fold [OF assms(1) mirror_ok_new(1) assms(2), of unordered now uuid]
    by (intro exact_mirror_map_of [OF assms(2), of _ now]) (simp add: sync_to_runtime_def Let_def mirror_ok_new(2))
qed (simp_all add: sync_to_runtime_def)

lemma sync_entries [simp]:
  "rt_entries (sync_to_runtime unordered visit now uuid rt) = rt_entries rt"
  "rt_root (sync_to_runtime unordered visit now uuid rt) = rt_root rt"
  by (simp_all add: sync_to_runtime_def)

section \<open>The transition system\<close>

definition rt_inv :: "EngineeringMemoryRuntime \<Rightarrow> bool" where
  "rt_inv rt \<longleftrightarrow> distinct (map eng_id (rt_entries rt)) \<and> exact_mirror (rt_entries rt) (rt_memory rt)"

lemma rt_inv_sync: "iteration_order visit \<Longrightarrow> distinct (map eng_id (rt_entries rt)) \<Longrightarrow> rt_inv (sync_to_runtime unordered visit now uuid rt)"
  using sync_exact(1) by (simp add: rt_inv_def)

lemma update_first_ids:
  assumes "update_first i f es = Some es'" "\<And>e. eng_id (f e) = eng_id e"
  shows "map eng_id es' = map eng_id es"
  using assms by (induction es arbitrary: es') (auto split: if_splits)

lemma remove_entry_ids: "remove_entry i es = Some es' \<Longrightarrow> \<exists>a e b. es = a @ e # b \<and> es' = a @ b \<and> eng_id e = i \<and> i \<notin> eng_id ` set a"
proof (induction es arbitrary: es')
  case (Cons e es)
  show ?case
  proof (cases "eng_id e = i")
    case True
    then show ?thesis using Cons.prems by (intro exI [of _ "[]"]) simp
  next
    case False
    then obtain t where "remove_entry i es = Some t" "es' = e # t" using Cons.prems by auto
    with Cons.IH obtain a x b where "es = a @ x # b" "t = a @ b" "eng_id x = i" "i \<notin> eng_id ` set a" by blast
    then show ?thesis using False \<open>es' = e # t\<close> by (intro exI [of _ "e # a"] exI [of _ x] exI [of _ b]) auto
  qed
qed simp

lemma access_id [simp]: "eng_id (EngineeringMemoryEntry_record_access now e) = eng_id e"
  by (simp add: EngineeringMemoryEntry_record_access_def)

lemma adjust_entry_id [simp]: "eng_id (adjust_entry now c why e) = eng_id e"
  by (simp add: adjust_entry_def Let_def)

lemma expire_entry_id [simp]: "eng_id (expire_entry now e) = eng_id e"
  by (simp add: expire_entry_def)

lemma mark_superseded_id [simp]: "eng_id (mark_superseded e) = eng_id e"
  by (simp add: mark_superseded_def)

lemma sweep_ids: "map eng_id (map (expire_entry now) es) = map eng_id es"
  by (simp add: comp_def)

lemma no_expired: "filter (\<lambda>e. is_expired_at now e \<and> status (eng_metadata e) = Active) es = [] \<Longrightarrow> map (expire_entry now) es = es"
  by (auto simp: expire_entry_def filter_empty_conv intro!: map_idI)

lemma sweep_inv:
  assumes "iteration_order visit" "rt_inv rt"
  shows "rt_inv (snd (EngineeringMemoryRuntime_sweep_expired unordered visit now uuid rt))"
proof (cases "filter (\<lambda>e. is_expired_at now e \<and> status (eng_metadata e) = Active) (rt_entries rt) = []")
  case True
  then show ?thesis using assms(2) no_expired [OF True] by (simp add: EngineeringMemoryRuntime_sweep_expired_def Let_def)
next
  case False
  have "distinct (map eng_id (map (expire_entry now) (rt_entries rt)))"
    unfolding sweep_ids using assms(2) by (simp add: rt_inv_def)
  then show ?thesis
    using False rt_inv_sync [OF assms(1), of "rt\<lparr>rt_entries := map (expire_entry now) (rt_entries rt)\<rparr>"]
    by (simp add: EngineeringMemoryRuntime_sweep_expired_def Let_def)
qed

lemma record_ids:
  assumes "EngineeringMemoryRuntime_record rnd lower unordered visit now uuid new rt = (Inr out, rt')"
  shows "map eng_id (rt_entries rt') = map eng_id (rt_entries rt) @ [eng_id new]" "eng_id new \<notin> eng_id ` set (rt_entries rt)"
proof -
  have "map (eng_id \<circ> (\<lambda>e. if replaces new e then mark_superseded e else e)) (rt_entries rt) = map eng_id (rt_entries rt)"
    by (rule map_cong) (simp_all add: comp_def)
  then show "map eng_id (rt_entries rt') = map eng_id (rt_entries rt) @ [eng_id new]" "eng_id new \<notin> eng_id ` set (rt_entries rt)"
    using assms by (auto simp: EngineeringMemoryRuntime_record_def Let_def list_ex_iff split: if_splits)
qed

inductive eng_step :: "EngineeringMemoryRuntime \<Rightarrow> EngineeringMemoryRuntime \<Rightarrow> bool" where
  eng_record: "iteration_order visit \<Longrightarrow> eng_step rt (snd (EngineeringMemoryRuntime_record rnd lower unordered visit now uuid new rt))"
| eng_sweep: "iteration_order visit \<Longrightarrow> eng_step rt (snd (EngineeringMemoryRuntime_sweep_expired unordered visit now uuid rt))"
| eng_adjust: "iteration_order visit \<Longrightarrow> eng_step rt (snd (EngineeringMemoryRuntime_adjust_confidence unordered visit now uuid i c why rt))"
| eng_update: "iteration_order visit \<Longrightarrow> eng_step rt (snd (EngineeringMemoryRuntime_update unordered visit now uuid i v rt))"
| eng_update_md: "iteration_order visit \<Longrightarrow> eng_step rt (snd (EngineeringMemoryRuntime_update_with_metadata unordered visit now uuid i v md rt))"
| eng_delete: "iteration_order visit \<Longrightarrow> eng_step rt (snd (EngineeringMemoryRuntime_delete unordered visit now uuid i confirm rt))"
| eng_load: "iteration_order visit \<Longrightarrow>
    EngineeringMemoryRuntime_load from_json stamp fault unordered visit now uuid rt fs = Some (r, rt', fs') \<Longrightarrow>
    distinct (map eng_id (rt_entries rt')) \<Longrightarrow> eng_step rt rt'"

lemma record_inv:
  assumes "iteration_order visit" "rt_inv rt"
  shows "rt_inv (snd (EngineeringMemoryRuntime_record rnd lower unordered visit now uuid new rt))"
proof (cases "EngineeringMemoryRuntime_record rnd lower unordered visit now uuid new rt")
  case (Pair r rt')
  show ?thesis
  proof (cases r)
    case (Inl e)
    then show ?thesis using Pair assms(2) by (auto simp: EngineeringMemoryRuntime_record_def Let_def split: if_splits)
  next
    case (Inr out)
    note ids = record_ids [OF Pair [unfolded Inr]]
    have d: "distinct (map eng_id (rt_entries rt'))" unfolding ids(1) using ids(2) assms(2) by (auto simp: rt_inv_def)
    obtain es where "rt' = sync_to_runtime unordered visit now uuid (rt\<lparr>rt_entries := es\<rparr>)"
      using Pair Inr by (auto simp: EngineeringMemoryRuntime_record_def Let_def split: if_splits)
    with d show ?thesis using rt_inv_sync [OF assms(1), of "rt\<lparr>rt_entries := es\<rparr>"] Pair by simp
  qed
qed

lemma rt_inv_replace:
  "iteration_order visit \<Longrightarrow> rt_inv rt \<Longrightarrow> distinct (map eng_id es) \<Longrightarrow> rt_inv (sync_to_runtime unordered visit now uuid (rt\<lparr>rt_entries := es\<rparr>))"
  by (simp add: rt_inv_sync)

lemma update_first_inv:
  assumes "iteration_order visit" "rt_inv rt" "update_first i f (rt_entries rt) = Some es" "\<And>e. eng_id (f e) = eng_id e"
  shows "rt_inv (sync_to_runtime unordered visit now uuid (rt\<lparr>rt_entries := es\<rparr>))"
  using assms(1,2) update_first_ids [OF assms(3,4)] by (intro rt_inv_replace) (simp_all add: rt_inv_def)

lemma update_first_defined: "find (\<lambda>e. eng_id e = i) es = Some e \<Longrightarrow> \<exists>es'. update_first i f es = Some es'"
  by (induction es) (auto split: if_splits)

lemma adjust_inv:
  assumes "iteration_order visit" "rt_inv rt"
  shows "rt_inv (snd (EngineeringMemoryRuntime_adjust_confidence unordered visit now uuid i c why rt))"
proof (cases "find (\<lambda>e. eng_id e = i) (rt_entries rt)")
  case None
  then show ?thesis using assms(2) by (simp add: EngineeringMemoryRuntime_adjust_confidence_def)
next
  case (Some e)
  let ?f = "adjust_entry now (f64_clamp (Fin 0) (Fin 1) c) why"
  obtain es where "update_first i ?f (rt_entries rt) = Some es" using update_first_defined [OF Some] by blast
  then show ?thesis
    using Some update_first_inv [OF assms, of i ?f es]
    by (simp add: EngineeringMemoryRuntime_adjust_confidence_def)
qed

lemma delete_entry_inv:
  assumes "iteration_order visit" "rt_inv rt" "remove_entry i (rt_entries rt) = Some es"
  shows "rt_inv (sync_to_runtime unordered visit now uuid (rt\<lparr>rt_entries := es\<rparr>))"
  using remove_entry_ids [OF assms(3)] assms(1,2) by (intro rt_inv_replace) (auto simp: rt_inv_def)

text \<open>A load either leaves the runtime alone or installs the entries of the file and sweeps them.\<close>

lemma load_result:
  assumes "EngineeringMemoryRuntime_load from_json stamp fault unordered visit now uuid rt fs = Some (r, rt', fs')"
  shows "case r of
      Inl e \<Rightarrow> rt' = rt
    | Inr n \<Rightarrow> \<exists>f. EngineeringMemoryStore_load from_json stamp fault (rt_root rt) (rt_root rt) fs = Some (Inr f, fs') \<and>
        rt' = snd (EngineeringMemoryRuntime_sweep_expired unordered visit now uuid
          (sync_to_runtime unordered visit now uuid (rt\<lparr>rt_entries := file_entries f\<rparr>))) \<and> n = length (rt_entries rt')"
proof (cases "EngineeringMemoryStore_load from_json stamp fault (rt_root rt) (rt_root rt) fs")
  case None
  then show ?thesis using assms by (simp add: EngineeringMemoryRuntime_load_def)
next
  case (Some x)
  then show ?thesis
    using assms by (cases x; cases "fst x") (auto simp: EngineeringMemoryRuntime_load_def Let_def split: if_splits)
qed

lemma load_inv:
  assumes "iteration_order visit" "rt_inv rt" "distinct (map eng_id (rt_entries rt'))"
    and "EngineeringMemoryRuntime_load from_json stamp fault unordered visit now uuid rt fs = Some (r, rt', fs')"
  shows "rt_inv rt'"
proof (cases r)
  case (Inl e)
  then show ?thesis using assms(2) load_result [OF assms(4)] by simp
next
  case (Inr n)
  obtain f :: EngineeringMemoryFile where r: "rt' = snd (EngineeringMemoryRuntime_sweep_expired unordered visit now uuid
      (sync_to_runtime unordered visit now uuid (rt\<lparr>rt_entries := file_entries f\<rparr>)))"
    using load_result [OF assms(4)] unfolding Inr sum.case by blast
  have "map eng_id (rt_entries rt') = map eng_id (file_entries f)"
    unfolding r by (simp add: EngineeringMemoryRuntime_sweep_expired_def Let_def comp_def)
  then have "rt_inv (sync_to_runtime unordered visit now uuid (rt\<lparr>rt_entries := file_entries f\<rparr>))"
    using assms(3) rt_inv_sync [OF assms(1), of "rt\<lparr>rt_entries := file_entries f\<rparr>"] by simp
  then show ?thesis unfolding r by (rule sweep_inv [OF assms(1)])
qed

lemma eng_step_inv:
  assumes "rt_inv rt" "eng_step rt rt'"
  shows "rt_inv rt'"
  using assms(2,1)
proof (induction rule: eng_step.induct)
  case (eng_update visit rt unordered now uuid i v)
  then show ?case by (auto simp: EngineeringMemoryRuntime_update_def split: option.split intro: update_first_inv)
next
  case (eng_update_md visit rt unordered now uuid i v md)
  then show ?case by (auto simp: EngineeringMemoryRuntime_update_with_metadata_def split: option.split intro: update_first_inv)
next
  case (eng_delete visit rt unordered now uuid i confirm)
  then show ?case by (auto simp: EngineeringMemoryRuntime_delete_def split: option.split intro: delete_entry_inv)
next
  case (eng_load visit from_json stamp fault unordered now uuid rt fs r rt' fs')
  then show ?case using load_inv by blast
qed (simp_all add: record_inv sweep_inv adjust_inv)

lemma rt_inv_new: "rt_inv (EngineeringMemoryRuntime_new rnd workspace)"
  using mirror_ok_new(2) by (simp add: rt_inv_def EngineeringMemoryRuntime_new_def exact_mirror_def)

interpretation eng: preserved_system "\<lambda>rt. rt = EngineeringMemoryRuntime_new rnd workspace" eng_step rt_inv for rnd workspace
  by unfold_locales (auto simp: rt_inv_new intro: eng_step_inv)

section \<open>Properties\<close>


definition recorded_runtime :: EngineeringMemoryRuntime where
  "recorded_runtime = snd (EngineeringMemoryRuntime_record Fin id Some id 5 id (memo ''1'' ''k'' ''v'') (EngineeringMemoryRuntime_new Fin ''/w''))"

lemma recorded_runtime_reachable: "eng_step\<^sup>*\<^sup>* (EngineeringMemoryRuntime_new Fin ''/w'') recorded_runtime"
  unfolding recorded_runtime_def by (rule r_into_rtranclp, rule eng_record) (simp add: iteration_order_def)


text \<open>C17: Recording an entry resolves key conflicts: afterwards every active entry with its key has
  its value; the entries it replaced are kept with status superseded and are exactly the reported key
  conflicts, all other entries are unchanged, and the new entry is stored last, naming the first entry it replaced.\<close>

theorem record_resolves_conflicts:
  assumes "EngineeringMemoryRuntime_record rnd lower unordered visit now uuid new rt = (Inr out, rt')"
  shows "\<exists>stored. rt_entries rt' = map (\<lambda>e. if replaces new e then mark_superseded e else e) (rt_entries rt) @ [stored] \<and>
    stored = new\<lparr>eng_metadata := (eng_metadata new)\<lparr>supersedes := map_option eng_id (find (replaces new) (rt_entries rt))\<rparr>\<rparr> \<and>
    map prior_id (filter (\<lambda>c. conflict_kind c = KeyReplaced) (outcome_conflicts out)) = map eng_id (filter (replaces new) (rt_entries rt)) \<and>
    (\<forall>e \<in> set (rt_entries rt'). eng_key e = eng_key new \<longrightarrow> status (eng_metadata e) = Active \<longrightarrow> eng_value e = eng_value new)"
proof -
  let ?key = "map (conflict_of KeyReplaced) (filter (replaces new) (rt_entries rt))"
  let ?marked = "map (\<lambda>e. if replaces new e then mark_superseded e else e) (rt_entries rt)"
  let ?near = "map (conflict_of NearDuplicate) (filter (near_duplicate rnd lower new) ?marked)"
  have out: "outcome_conflicts out = ?key @ ?near"
    and rt': "rt_entries rt' = ?marked @ [new\<lparr>eng_metadata := (eng_metadata new)\<lparr>supersedes :=
      map_option prior_id (find (\<lambda>c. conflict_kind c = KeyReplaced) (?key @ ?near))\<rparr>\<rparr>]"
    using assms by (auto simp: EngineeringMemoryRuntime_record_def Let_def split: if_splits)
  have kinds: "conflict_kind (conflict_of k e) = k" "prior_id (conflict_of k e) = eng_id e" for k e by (simp_all add: conflict_of_def)
  have find: "map_option prior_id (find (\<lambda>c. conflict_kind c = KeyReplaced) (map (conflict_of KeyReplaced) (filter P es) @ map (conflict_of NearDuplicate) ns)) =
      map_option eng_id (find P es)" for P es ns
    by (induction es) (auto simp: kinds find_None_iff o_def)
  have "filter (\<lambda>c. conflict_kind c = KeyReplaced) (?key @ ?near) = ?key" by (simp add: filter_map comp_def kinds)
  then have "map prior_id (filter (\<lambda>c. conflict_kind c = KeyReplaced) (outcome_conflicts out)) = map eng_id (filter (replaces new) (rt_entries rt))"
    by (simp add: out comp_def kinds)
  moreover have "\<forall>e \<in> set ?marked. eng_key e = eng_key new \<longrightarrow> status (eng_metadata e) = Active \<longrightarrow> eng_value e = eng_value new"
    by (auto simp: replaces_def mark_superseded_def)
  ultimately show ?thesis unfolding rt' find by auto
qed

theorem record_resolves_conflicts_witness:
  "\<exists>stored. rt_entries (snd (EngineeringMemoryRuntime_record Fin id Some id 6 id (memo ''2'' ''k'' ''w'') recorded_runtime)) =
     map (\<lambda>e. if replaces (memo ''2'' ''k'' ''w'') e then mark_superseded e else e) (rt_entries recorded_runtime) @ [stored] \<and>
     supersedes (eng_metadata stored) = Some ''1''"
proof -
  let ?r = "EngineeringMemoryRuntime_record Fin id Some id 6 id (memo ''2'' ''k'' ''w'') recorded_runtime"
  have "fst ?r = Inr \<lparr>outcome_id = ''2'', outcome_conflicts = [\<lparr>conflict_kind = KeyReplaced, prior_id = ''1'', prior_key = ''k''\<rparr>]\<rparr>"
    by code_simp
  then have r: "?r = (Inr \<lparr>outcome_id = ''2'', outcome_conflicts = [\<lparr>conflict_kind = KeyReplaced, prior_id = ''1'', prior_key = ''k''\<rparr>]\<rparr>, snd ?r)"
    by (metis surjective_pairing)
  have "map_option eng_id (find (replaces (memo ''2'' ''k'' ''w'')) (rt_entries recorded_runtime)) = Some ''1''" by code_simp
  then show ?thesis using record_resolves_conflicts [OF r] by auto
qed

lemma update_first_find:
  "find (\<lambda>e. eng_id e = i) es = Some e \<Longrightarrow> \<exists>a b. es = a @ e # b \<and> update_first i f es = Some (a @ f e # b) \<and> eng_id e = i"
proof (induction es)
  case (Cons x es)
  show ?case
  proof (cases "eng_id x = i")
    case True
    then show ?thesis using Cons.prems by (intro exI [of _ "[]"] exI [of _ es]) simp
  next
    case False
    then obtain a b where "es = a @ e # b" "update_first i f es = Some (a @ f e # b)" "eng_id e = i" using Cons by auto
    then show ?thesis using False by (intro exI [of _ "x # a"] exI [of _ b]) simp
  qed
qed simp

text \<open>Adjusting a confidence leaves an audit trail: the entry gets the clamped value, which lies between zero and one unless the
  request is NaN, the returned adjustment records the old and the new value and is the last of the trail, and the trail
  never exceeds sixteen adjustments; no other entry changes.\<close>

theorem adjust_confidence_audited:
  assumes "EngineeringMemoryRuntime_adjust_confidence unordered visit now uuid i c why rt = (Inr a, rt')"
  shows "\<exists>before e e' after. rt_entries rt = before @ e # after \<and> rt_entries rt' = before @ e' # after \<and>
    eng_id e = i \<and> eng_id e' = i \<and> eng_value e' = eng_value e \<and>
    adjusted_from a = eng_confidence (eng_metadata e) \<and> adjusted_to a = eng_confidence (eng_metadata e') \<and>
    last (adjustments (eng_metadata e')) = a \<and>
    length (adjustments (eng_metadata e')) = min 16 (length (adjustments (eng_metadata e)) + 1) \<and>
    (c \<noteq> NaN \<longrightarrow> Fin 0 \<le> adjusted_to a \<and> adjusted_to a \<le> Fin 1) \<and> (c = NaN \<longrightarrow> adjusted_to a = NaN)"
proof -
  let ?c = "f64_clamp (Fin 0) (Fin 1) c"
  obtain e where e: "find (\<lambda>e. eng_id e = i) (rt_entries rt) = Some e"
    using assms by (auto simp: EngineeringMemoryRuntime_adjust_confidence_def Let_def split: option.splits)
  obtain x y where xy: "rt_entries rt = x @ e # y" "update_first i (adjust_entry now ?c why) (rt_entries rt) = Some (x @ adjust_entry now ?c why e # y)"
    "eng_id e = i"
    using update_first_find [OF e, of "adjust_entry now ?c why"] by blast
  have a: "a = \<lparr>adjusted_at = now, adjusted_from = eng_confidence (eng_metadata e), adjusted_to = ?c, adjust_reason = why\<rparr>"
    and rt': "rt_entries rt' = x @ adjust_entry now ?c why e # y"
    using assms e xy(2) by (auto simp: EngineeringMemoryRuntime_adjust_confidence_def Let_def)
  have "c \<noteq> NaN \<longrightarrow> Fin 0 \<le> ?c \<and> ?c \<le> Fin 1" using clamp_bounds [of c "Fin 0" "Fin 1"] by simp
  then show ?thesis
    using xy(1,3) rt'
    by (intro exI [of _ x] exI [of _ e] exI [of _ "adjust_entry now ?c why e"] exI [of _ y])
      (auto simp: a adjust_entry_def Let_def EngineeringMemoryEntry_record_access_def MAX_ADJUSTMENTS_def last_drop)
qed

theorem adjust_confidence_audited_witness:
  "\<exists>a rt'. EngineeringMemoryRuntime_adjust_confidence Some id 9 id ''1'' PosInf None recorded_runtime = (Inr a, rt') \<and> adjusted_to a \<le> Fin 1"
proof -
  let ?r = "EngineeringMemoryRuntime_adjust_confidence Some id 9 id ''1'' PosInf None recorded_runtime"
  have "fst ?r = Inr \<lparr>adjusted_at = 9, adjusted_from = Fin (1 / 2), adjusted_to = Fin 1, adjust_reason = None\<rparr>" by code_simp
  then have r: "?r = (Inr \<lparr>adjusted_at = 9, adjusted_from = Fin (1 / 2), adjusted_to = Fin 1, adjust_reason = None\<rparr>, snd ?r)"
    by (metis surjective_pairing)
  then show ?thesis using adjust_confidence_audited [OF r] by auto
qed

lemma save_then_load:
  assumes "EngineeringMemoryStore_save to_json workspace f fs = (Inr u, fs')" "to_json f = Inr json"
    and "read_faults fs (memory_path workspace) = None" "valid_utf8 json" "from_json json = Inr f" "schema_version f \<in> set accepted_schemas"
  shows "EngineeringMemoryStore_load from_json stamp fault workspace (file_root f) fs' = Some (Inr f, fs')"
proof -
  obtain ds where w: "write_atomic (memory_path workspace) json (fs\<lparr>directories := ds\<rparr>) = (Inr (), fs')"
    using assms(1,2)
    by (auto simp: EngineeringMemoryStore_save_def EngineeringMemoryStore_ensure_directory_def
        split: prod.splits sum.splits dest!: fs_create_dir_all_frame)
  from write_atomic_effect [OF w] have "contents fs' (links fs' (memory_path workspace)) = Some json"
    "read_faults fs' (memory_path workspace) = None" using assms(3) by simp_all
  then show ?thesis
    using assms(4-6) by (simp add: EngineeringMemoryStore_load_def Let_def fs_exists_def fs_read_to_string_def)
qed



end
