(* ===== verification/Impact_Search.thy ===== *)
theory Impact_Search
  imports Impact_Graph
begin

text \<open>
  Correctness of the traversal of \<open>Impact_Graph\<close>. The abstract side is the distance in a relation. The
  invariant of the search has two parts: what has been found lies at the distance it is reported
  with (this also holds when a limit stops the search), and the nodes are found level by level.
\<close>

section \<open>Distances\<close>

definition at_distance :: "('a \<times> 'a) set \<Rightarrow> 'a \<Rightarrow> nat \<Rightarrow> 'a \<Rightarrow> bool" where
  "at_distance E a n b \<longleftrightarrow> (a, b) \<in> E ^^ n \<and> (\<forall>m < n. (a, b) \<notin> E ^^ m)"

definition distance :: "('a \<times> 'a) set \<Rightarrow> 'a \<Rightarrow> 'a \<Rightarrow> nat" where
  "distance E a b = (LEAST n. (a, b) \<in> E ^^ n)"

lemma at_distance_eq: "at_distance E a n b \<Longrightarrow> distance E a b = n"
  unfolding at_distance_def distance_def by (rule Least_equality) (auto simp: not_less [symmetric])

lemma at_distance_unique: "at_distance E a n b \<Longrightarrow> at_distance E a m b \<Longrightarrow> n = m"
  by (auto dest!: at_distance_eq)

lemma at_distance_0 [simp]: "at_distance E a 0 b \<longleftrightarrow> a = b"
  by (auto simp: at_distance_def)

lemma at_distance_least: "(a, b) \<in> E ^^ m \<Longrightarrow> \<exists>k \<le> m. at_distance E a k b"
proof (induction m rule: less_induct)
  case (less m)
  show ?case
  proof (cases "\<exists>k < m. (a, b) \<in> E ^^ k")
    case True
    then show ?thesis using less.IH by (meson le_trans less_imp_le)
  next
    case False
    then show ?thesis using less.prems by (auto simp: at_distance_def)
  qed
qed

lemma at_distance_pred:
  assumes "at_distance E a (Suc n) b"
  shows "\<exists>z. at_distance E a n z \<and> (z, b) \<in> E"
proof -
  obtain z where z: "(a, z) \<in> E ^^ n" "(z, b) \<in> E" using assms by (auto simp: at_distance_def)
  have "(a, z) \<notin> E ^^ m" if "m < n" for m
  proof
    assume "(a, z) \<in> E ^^ m"
    then have "(a, b) \<in> E ^^ Suc m" using z(2) by auto
    then show False using assms that unfolding at_distance_def by blast
  qed
  then show ?thesis using z by (auto simp: at_distance_def)
qed

lemma at_distance_step:
  assumes "at_distance E a n z" "(z, b) \<in> E" "\<And>m. m \<le> n \<Longrightarrow> \<not> at_distance E a m b"
  shows "at_distance E a (Suc n) b"
proof -
  have "(a, b) \<in> E ^^ Suc n" using assms(1, 2) by (auto simp: at_distance_def)
  moreover have "(a, b) \<notin> E ^^ m" if "m < Suc n" for m
    using at_distance_least [of a b m E] assms(3) that by (meson le_trans less_Suc_eq_le)
  ultimately show ?thesis by (auto simp: at_distance_def)
qed

section \<open>The invariant of the search\<close>

definition walk_rel :: "Walk \<Rightarrow> (FactId \<times> FactId) set" where
  "walk_rel w = {(x, edge_target e) | x e. e \<in> set (neighbors w x)}"

fun walk_path :: "Walk \<Rightarrow> FactId \<Rightarrow> PathEdge list \<Rightarrow> FactId \<Rightarrow> bool" where
  "walk_path w a [] b \<longleftrightarrow> a = b"
| "walk_path w a (p # ps) b \<longleftrightarrow> (\<exists>e \<in> set (neighbors w a). p = path_edge w a e \<and> walk_path w (edge_target e) ps b)"

lemma walk_path_snoc:
  "walk_path w a ps x \<Longrightarrow> e \<in> set (neighbors w x) \<Longrightarrow> walk_path w a (ps @ [path_edge w x e]) (edge_target e)"
  by (induction ps arbitrary: a) auto

abbreviation found :: "Traversal \<Rightarrow> ImpactRelationship list" where
  "found s \<equiv> direct_found s @ transitive_found s"

definition id_depth :: "ImpactRelationship \<Rightarrow> string \<times> nat" where
  "id_depth r = (rel_target_id r, rel_depth r)"

definition reported_ok :: "Walk \<Rightarrow> FactId \<Rightarrow> ImpactRelationship \<Rightarrow> bool" where
  "reported_ok w start r \<longleftrightarrow>
     (\<exists>x p. rel_target_id r = FactId_as_str x \<and> walk_path w start p x \<and> length p = rel_depth r \<and>
        rel_path r = (if rel_depth r \<ge> 2 then p else []))"

definition queued_ok :: "Walk \<Rightarrow> FactId \<Rightarrow> Traversal \<Rightarrow> FactId \<times> nat \<times> PathEdge list \<Rightarrow> bool" where
  "queued_ok w start s = (\<lambda>(x, d, p).
     x \<in> seen s \<and> at_distance (walk_rel w) start d x \<and> d \<le> walk_depth w \<and> walk_path w start p x \<and> length p = d)"

definition sound_inv :: "Walk \<Rightarrow> FactId \<Rightarrow> Traversal \<Rightarrow> bool" where
  "sound_inv w start s \<longleftrightarrow>
     start \<in> seen s \<and> finite (seen s) \<and>
     (\<forall>x \<in> seen s. \<exists>n \<le> walk_depth w. at_distance (walk_rel w) start n x) \<and>
     (\<forall>q \<in> set (queue s). queued_ok w start s q) \<and>
     visited_count s = card (seen s) \<and> (\<forall>k \<in> emitted s. fst k \<in> seen s) \<and>
     mset (map id_depth (found s)) =
       image_mset (\<lambda>x. (FactId_as_str x, distance (walk_rel w) start x)) (mset_set (seen s - {start})) \<and>
     (\<forall>r \<in> set (direct_found s). rel_depth r = 1) \<and> (\<forall>r \<in> set (transitive_found s). rel_depth r \<ge> 2) \<and>
     (\<forall>r \<in> set (found s). reported_ok w start r)"

lemma sound_inv_fields:
  assumes "sound_inv w start s" "seen s' = seen s" "set (queue s') \<subseteq> set (queue s)" "visited_count s' = visited_count s"
    and "\<forall>k \<in> emitted s'. fst k \<in> seen s" "direct_found s' = direct_found s" "transitive_found s' = transitive_found s"
  shows "sound_inv w start s'"
proof -
  have "\<forall>q \<in> set (queue s'). queued_ok w start s' q"
    using assms(1, 2, 3) unfolding sound_inv_def queued_ok_def by auto
  then show ?thesis using assms(1) unfolding sound_inv_def assms(2, 4, 6, 7) using assms(5) by blast
qed

lemma sound_inv_emitted: "sound_inv w start s \<Longrightarrow> k \<in> emitted s \<Longrightarrow> fst k \<in> seen s"
  by (simp add: sound_inv_def)

lemma sound_inv_start: "sound_inv w start s \<Longrightarrow> start \<in> seen s \<and> finite (seen s) \<and> visited_count s = card (seen s)"
  by (simp add: sound_inv_def)

lemma sound_inv_seen: "sound_inv w start s \<Longrightarrow> x \<in> seen s \<Longrightarrow> \<exists>n \<le> walk_depth w. at_distance (walk_rel w) start n x"
  by (simp add: sound_inv_def)

lemma sound_inv_found: "sound_inv w start s \<Longrightarrow> mset (map id_depth (found s)) =
   image_mset (\<lambda>x. (FactId_as_str x, distance (walk_rel w) start x)) (mset_set (seen s - {start}))"
  unfolding sound_inv_def by blast

lemma sound_inv_depths: "sound_inv w start s \<Longrightarrow> (r \<in> set (direct_found s) \<longrightarrow> rel_depth r = 1) \<and> (r \<in> set (transitive_found s) \<longrightarrow> rel_depth r \<ge> 2)"
  unfolding sound_inv_def by blast

lemma sound_inv_reported: "sound_inv w start s \<Longrightarrow> r \<in> set (found s) \<Longrightarrow> reported_ok w start r"
  unfolding sound_inv_def by blast

lemma found_relationship_fields [simp]:
  "rel_target_id (found_relationship w x e d p) = FactId_as_str (edge_target e)"
  "rel_depth (found_relationship w x e d p) = d"
  "rel_path (found_relationship w x e d p) = (if d \<ge> 2 then p else [])"
  by (simp_all add: found_relationship_def)

lemma discover_found:
  "direct_found (discover w x d p e s) =
     direct_found s @ (if d = 0 then [found_relationship w x e 1 (p @ [path_edge w x e])] else [])"
  "transitive_found (discover w x d p e s) =
     transitive_found s @ (if d = 0 then [] else [found_relationship w x e (d + 1) (p @ [path_edge w x e])])"
  by (simp_all add: discover_def Let_def)

lemma sound_discover:
  assumes "sound_inv w start s" "e \<in> set (neighbors w x)" "edge_target e \<notin> seen s" "walk_path w start p x" "length p = d"
    and "at_distance (walk_rel w) start d x" "d < walk_depth w"
    and "\<And>y n. n \<le> d \<Longrightarrow> at_distance (walk_rel w) start n y \<Longrightarrow> y \<in> seen s"
  shows "sound_inv w start (discover w x d p e s)"
proof -
  let ?y = "edge_target e" and ?s = "discover w x d p e s"
  have xy: "(x, ?y) \<in> walk_rel w" using assms(2) by (auto simp: walk_rel_def)
  have y: "at_distance (walk_rel w) start (Suc d) ?y"
    by (rule at_distance_step [OF assms(6) xy]) (use assms(3, 8) in blast)
  have path: "walk_path w start (p @ [path_edge w x e]) ?y" using walk_path_snoc assms(2, 4) by blast
  have s: "start \<in> seen s" "finite (seen s)" using assms(1) by (auto simp: sound_inv_def)
  then have "insert ?y (seen s) - {start} = insert ?y (seen s - {start})" "?y \<notin> seen s - {start}"
    using assms(3) by auto
  then have new: "mset_set (seen ?s - {start}) = add_mset ?y (mset_set (seen s - {start}))" using s(2) by simp
  have "mset (map id_depth (found ?s)) =
      image_mset (\<lambda>x. (FactId_as_str x, distance (walk_rel w) start x)) (mset_set (seen ?s - {start}))"
    using assms(1) unfolding new by (simp add: sound_inv_def discover_found id_depth_def at_distance_eq [OF y])
  moreover have "reported_ok w start (found_relationship w x e (Suc d) (p @ [path_edge w x e]))"
    unfolding reported_ok_def using path assms(5) by (intro exI [of _ ?y] exI [of _ "p @ [path_edge w x e]"]) simp
  then have "\<forall>r \<in> set (found ?s). reported_ok w start r"
    using assms(1) by (cases "d = 0") (simp_all add: sound_inv_def discover_found ball_Un)
  moreover have "\<forall>q \<in> set (queue ?s). queued_ok w start ?s q"
    using assms(1) y path assms(5, 7) by (auto simp: sound_inv_def queued_ok_def)
  moreover have "\<forall>z \<in> seen ?s. \<exists>n \<le> walk_depth w. at_distance (walk_rel w) start n z"
    using assms(1) y assms(7) by (auto simp: sound_inv_def intro: Suc_leI)
  ultimately show ?thesis
    using assms(1, 3) s unfolding sound_inv_def by (auto simp: discover_found)
qed

abbreviation queue_nodes :: "(FactId \<times> nat \<times> PathEdge list) list \<Rightarrow> FactId set" where
  "queue_nodes q \<equiv> fst ` set q"

definition extends :: "Walk \<Rightarrow> nat \<Rightarrow> Traversal \<Rightarrow> Traversal \<Rightarrow> bool" where
  "extends w d s s' \<longleftrightarrow> seen s \<subseteq> seen s' \<and>
     (\<exists>new. queue s' = queue s @ new \<and> (\<forall>q \<in> set new. fst (snd q) = Suc d) \<and> seen s' - seen s \<subseteq> queue_nodes new)"

lemma extends_trans:
  assumes "extends w d s s1" "extends w d s1 s2"
  shows "extends w d s s2"
proof -
  obtain new1 new2 where n: "queue s1 = queue s @ new1" "\<forall>q \<in> set new1. fst (snd q) = Suc d" "seen s1 - seen s \<subseteq> queue_nodes new1"
    "queue s2 = queue s1 @ new2" "\<forall>q \<in> set new2. fst (snd q) = Suc d" "seen s2 - seen s1 \<subseteq> queue_nodes new2"
    and sub: "seen s \<subseteq> seen s1" "seen s1 \<subseteq> seen s2"
    using assms unfolding extends_def by blast
  have "queue s2 = queue s @ (new1 @ new2)" using n(1, 4) by simp
  moreover have "\<forall>q \<in> set (new1 @ new2). fst (snd q) = Suc d" using n(2, 5) by (simp add: ball_Un)
  moreover have "seen s2 - seen s \<subseteq> queue_nodes (new1 @ new2)" using n(3, 6) by (simp add: image_Un) blast
  ultimately show ?thesis using sub unfolding extends_def by blast
qed

lemma extends_same: "seen s' = seen s \<Longrightarrow> queue s' = queue s \<Longrightarrow> extends w d s s'"
  by (simp add: extends_def)

lemma extends_discover: "extends w d s (discover w x d p e s)"
  by (auto simp: extends_def)

lemma visit_edges_sound:
  assumes "sound_inv w start s" "set es \<subseteq> set (neighbors w x)" "walk_path w start p x" "length p = d"
    and "at_distance (walk_rel w) start d x" "d < walk_depth w"
    and "\<And>y n. n \<le> d \<Longrightarrow> at_distance (walk_rel w) start n y \<Longrightarrow> y \<in> seen s"
  shows "sound_inv w start (visit_edges w x d p es s) \<and> extends w d s (visit_edges w x d p es s) \<and>
    (cut_off (visit_edges w x d p es s) \<or> edge_target ` set es \<subseteq> seen (visit_edges w x d p es s))"
  using assms(1, 2, 7)
proof (induction es arbitrary: s)
  case Nil
  then show ?case by (simp add: extends_same)
next
  case (Cons e es)
  let ?s1 = "s\<lparr>edge_count := edge_count s + 1\<rparr>" and ?key = "(edge_target e, edge_kind e, edge_direction w x e)"
  have s1: "sound_inv w start ?s1" by (rule sound_inv_fields [OF Cons.prems(1)]) (use sound_inv_emitted [OF Cons.prems(1)] in auto)
  consider (old) "edge_target e \<in> seen s" | (limit) "edge_target e \<notin> seen s" "visited_count s \<ge> walk_max_nodes w"
    | (new) "edge_target e \<notin> seen s" "\<not> visited_count s \<ge> walk_max_nodes w" by blast
  then show ?case
  proof cases
    case old
    have "extends w d s ?s1" by (rule extends_same) simp_all
    moreover note Cons.IH [OF s1] Cons.prems old
    ultimately show ?thesis by (auto simp: Let_def dest: extends_trans simp: extends_def)
  next
    case limit
    let ?s2 = "?s1\<lparr>cut_off := True, cut_reason := Some ''traversal node limit reached''\<rparr>"
    have "sound_inv w start ?s2" by (rule sound_inv_fields [OF s1]) (use sound_inv_emitted [OF s1] in auto)
    then show ?thesis using limit by (simp add: Let_def extends_same)
  next
    case new
    have "?key \<notin> emitted s" using Cons.prems(1) new(1) unfolding sound_inv_def by fastforce
    then have step: "visit_edges w x d p (e # es) s =
        visit_edges w x d p es (discover w x d p e (?s1\<lparr>emitted := insert ?key (emitted s)\<rparr>))"
      using new by (simp add: Let_def)
    let ?s2 = "discover w x d p e (?s1\<lparr>emitted := insert ?key (emitted s)\<rparr>)"
    have "sound_inv w start (discover w x d p e ?s1)"
      by (rule sound_discover [OF s1 _ _ assms(3, 4, 5, 6)]) (use Cons.prems new in auto)
    then have s2: "sound_inv w start ?s2"
      by (rule sound_inv_fields) (use sound_inv_emitted [OF Cons.prems(1)] in \<open>auto simp: discover_found\<close>)
    have "extends w d s ?s2" by (auto simp: extends_def)
    moreover have "y \<in> seen ?s2" if "n \<le> d" "at_distance (walk_rel w) start n y" for y n
      using Cons.prems(3) [OF that] by simp
    moreover note Cons.IH [OF s2] Cons.prems(2)
    ultimately show ?thesis unfolding step by (auto dest: extends_trans simp: extends_def)
  qed
qed

section \<open>Level by level\<close>

abbreviation queue_depths :: "Traversal \<Rightarrow> nat list" where
  "queue_depths s \<equiv> map (\<lambda>q. fst (snd q)) (queue s)"

definition level_inv :: "Walk \<Rightarrow> FactId \<Rightarrow> Traversal \<Rightarrow> bool" where
  "level_inv w start s \<longleftrightarrow>
     sorted (queue_depths s) \<and>
     (\<forall>n \<in> set (queue_depths s). n \<le> Suc (hd (queue_depths s))) \<and>
     (\<forall>x \<in> seen s - queue_nodes (queue s). distance (walk_rel w) start x < walk_depth w \<longrightarrow> walk_rel w `` {x} \<subseteq> seen s) \<and>
     (queue s \<noteq> [] \<longrightarrow> (\<forall>y n. n \<le> hd (queue_depths s) \<longrightarrow> at_distance (walk_rel w) start n y \<longrightarrow> y \<in> seen s))"

definition covers_depth :: "Walk \<Rightarrow> FactId \<Rightarrow> Traversal \<Rightarrow> bool" where
  "covers_depth w start s \<longleftrightarrow> (\<forall>n y. n \<le> walk_depth w \<longrightarrow> at_distance (walk_rel w) start n y \<longrightarrow> y \<in> seen s)"

lemma level_inv_sorted: "level_inv w start s \<Longrightarrow> sorted (queue_depths s)"
  by (simp add: level_inv_def)

lemma level_inv_spread: "level_inv w start s \<Longrightarrow> n \<in> set (queue_depths s) \<Longrightarrow> n \<le> Suc (hd (queue_depths s))"
  unfolding level_inv_def by blast

lemma level_inv_closed: "level_inv w start s \<Longrightarrow> x \<in> seen s \<Longrightarrow> x \<notin> queue_nodes (queue s) \<Longrightarrow>
   distance (walk_rel w) start x < walk_depth w \<Longrightarrow> (x, y) \<in> walk_rel w \<Longrightarrow> y \<in> seen s"
  unfolding level_inv_def by blast

lemma level_inv_below:
  assumes "level_inv w start s" "queue s = (x, d, p) # rest" "n \<le> d" "at_distance (walk_rel w) start n y"
  shows "y \<in> seen s"
proof -
  have "\<forall>y n. n \<le> hd (queue_depths s) \<longrightarrow> at_distance (walk_rel w) start n y \<longrightarrow> y \<in> seen s"
    using assms(1, 2) unfolding level_inv_def by (metis list.distinct(1))
  moreover have "hd (queue_depths s) = d" using assms(2) by simp
  ultimately show ?thesis using assms(3, 4) by blast
qed

lemma queue_depthsD: "n \<in> set (queue_depths s) \<Longrightarrow> \<exists>z q. (z, n, q) \<in> set (queue s)"
  by force

lemma level_invI:
  assumes "sorted (queue_depths s)" "\<And>n. n \<in> set (queue_depths s) \<Longrightarrow> n \<le> Suc (hd (queue_depths s))"
    and "\<And>x y. x \<in> seen s \<Longrightarrow> x \<notin> queue_nodes (queue s) \<Longrightarrow> distance (walk_rel w) start x < walk_depth w \<Longrightarrow>
      (x, y) \<in> walk_rel w \<Longrightarrow> y \<in> seen s"
    and "\<And>y n. queue s \<noteq> [] \<Longrightarrow> n \<le> hd (queue_depths s) \<Longrightarrow> at_distance (walk_rel w) start n y \<Longrightarrow> y \<in> seen s"
  shows "level_inv w start s"
  unfolding level_inv_def using assms by blast

lemma sound_inv_queue: "sound_inv w start s \<Longrightarrow> (x, d, p) \<in> set (queue s) \<Longrightarrow>
   x \<in> seen s \<and> at_distance (walk_rel w) start d x \<and> d \<le> walk_depth w \<and> walk_path w start p x \<and> length p = d"
  unfolding sound_inv_def queued_ok_def by blast

lemma level_inv_complete:
  assumes "level_inv w start s" "sound_inv w start s" "queue s = []"
  shows "covers_depth w start s"
proof -
  have "y \<in> seen s" if "n \<le> walk_depth w" "at_distance (walk_rel w) start n y" for n y
    using that
  proof (induction n arbitrary: y)
    case 0
    then show ?case using assms(2) by (simp add: sound_inv_def)
  next
    case (Suc n)
    from at_distance_pred [OF Suc.prems(2)]
    obtain z where z: "at_distance (walk_rel w) start n z" "(z, y) \<in> walk_rel w" by blast
    then have "z \<in> seen s" using Suc by simp
    then show ?case using level_inv_closed [OF assms(1), of z y] assms(3) Suc.prems(1) z at_distance_eq [OF z(1)] by simp
  qed
  then show ?thesis by (simp add: covers_depth_def)
qed

text \<open>When the head of the queue moves on to the next level, that level is complete.\<close>

lemma next_level:
  assumes "sound_inv w start s" "\<And>n. n \<in> set (queue_depths s) \<Longrightarrow> Suc d \<le> n" "d < walk_depth w"
    and "\<And>x y. x \<in> seen s \<Longrightarrow> x \<notin> queue_nodes (queue s) \<Longrightarrow> distance (walk_rel w) start x < walk_depth w \<Longrightarrow>
      (x, y) \<in> walk_rel w \<Longrightarrow> y \<in> seen s"
    and "\<And>y n. n \<le> d \<Longrightarrow> at_distance (walk_rel w) start n y \<Longrightarrow> y \<in> seen s"
    and "n \<le> Suc d" "at_distance (walk_rel w) start n y"
  shows "y \<in> seen s"
proof (cases "n \<le> d")
  case False
  then have "n = Suc d" using assms(6) by simp
  with assms(7) have "at_distance (walk_rel w) start (Suc d) y" by simp
  from at_distance_pred [OF this] obtain z where z: "at_distance (walk_rel w) start d z" "(z, y) \<in> walk_rel w" by blast
  have "z \<notin> queue_nodes (queue s)"
  proof
    assume "z \<in> queue_nodes (queue s)"
    then obtain k p where k: "(z, k, p) \<in> set (queue s)" by auto
    then have "k = d" using sound_inv_queue [OF assms(1) k] at_distance_unique [OF _ z(1)] by blast
    moreover have "k \<in> set (queue_depths s)" using k by force
    ultimately show False using assms(2) by fastforce
  qed
  then show ?thesis using assms(4) [of z y] assms(5) [OF le_refl z(1)] z at_distance_eq [OF z(1)] assms(3) by simp
qed (use assms(5, 7) in blast)

lemma level_inv_pop:
  assumes "level_inv w start s" "sound_inv w start s" "queue s = (x, d, p) # rest" "d \<ge> walk_depth w"
  shows "level_inv w start (s\<lparr>queue := rest\<rparr>)"
proof -
  let ?s = "s\<lparr>queue := rest\<rparr>"
  have x: "at_distance (walk_rel w) start d x" using sound_inv_queue [OF assms(2), of x d p] assms(3) by simp
  have d: "n = d" if "n \<in> set (queue_depths ?s)" for n
  proof -
    have "n \<in> set (queue_depths s)" using that assms(3) by simp
    then obtain z q where "(z, n, q) \<in> set (queue s)" using queue_depthsD by blast
    then have "n \<le> walk_depth w" using sound_inv_queue [OF assms(2)] by blast
    moreover have "d \<le> n" using level_inv_sorted [OF assms(1)] that assms(3) by auto
    ultimately show ?thesis using assms(4) by simp
  qed
  show ?thesis
  proof (rule level_invI)
    show "sorted (queue_depths ?s)" using level_inv_sorted [OF assms(1)] assms(3) by simp
    show "n \<le> Suc (hd (queue_depths ?s))" if "n \<in> set (queue_depths ?s)" for n
      using d [OF that] d [of "hd (queue_depths ?s)"] that by (cases rest) auto
    show "y \<in> seen ?s" if "z \<in> seen ?s" "z \<notin> queue_nodes (queue ?s)" "distance (walk_rel w) start z < walk_depth w"
      "(z, y) \<in> walk_rel w" for z y
    proof -
      have "z \<noteq> x" using that(3) at_distance_eq [OF x] assms(4) by auto
      then show ?thesis using level_inv_closed [OF assms(1) _ _ that(3, 4)] that(1, 2) assms(3) by simp
    qed
    show "y \<in> seen ?s" if "queue ?s \<noteq> []" "n \<le> hd (queue_depths ?s)" "at_distance (walk_rel w) start n y" for y n
    proof -
      have "hd (queue_depths ?s) = d" using d [of "hd (queue_depths ?s)"] that(1) by (cases rest) auto
      then show ?thesis using level_inv_below [OF assms(1, 3) _ that(3)] that(2) by simp
    qed
  qed
qed

lemma level_inv_step:
  assumes "level_inv w start s" "sound_inv w start s" "queue s = (x, d, p) # rest" "d < walk_depth w"
    and "s1 = visit_edges w x d p (neighbors w x) (s\<lparr>queue := rest\<rparr>)"
  shows "sound_inv w start s1 \<and> (\<not> cut_off s1 \<longrightarrow> level_inv w start s1)"
proof -
  let ?s = "s\<lparr>queue := rest\<rparr>"
  note q = sound_inv_queue [OF assms(2), of x d p, simplified assms(3), simplified]
  have s: "sound_inv w start ?s"
    by (rule sound_inv_fields [OF assms(2)]) (use assms(3) sound_inv_emitted [OF assms(2)] in auto)
  have below: "y \<in> seen s" if "n \<le> d" "at_distance (walk_rel w) start n y" for n y
    using level_inv_below [OF assms(1, 3) that] .
  have v: "sound_inv w start s1" "extends w d ?s s1" "cut_off s1 \<or> edge_target ` set (neighbors w x) \<subseteq> seen s1"
    using visit_edges_sound [OF s order_refl, where x = x and p = p and d = d] q assms(4) below unfolding assms(5) by auto
  obtain new where new: "queue s1 = rest @ new" "\<forall>q \<in> set new. fst (snd q) = Suc d" "seen s1 - seen s \<subseteq> queue_nodes new"
    "seen s \<subseteq> seen s1" using v(2) by (auto simp: extends_def)
  have rest: "sorted (map (\<lambda>q. fst (snd q)) rest)" "\<And>n. n \<in> set (map (\<lambda>q. fst (snd q)) rest) \<Longrightarrow> d \<le> n \<and> n \<le> Suc d"
    using level_inv_sorted [OF assms(1)] level_inv_spread [OF assms(1)] assms(3) by auto
  have depths: "d \<le> n \<and> n \<le> Suc d" if "n \<in> set (queue_depths s1)" for n
    using that rest(2) new(2) unfolding new(1) by auto
  have closed: "y \<in> seen s1" if not_cut: "\<not> cut_off s1" and z: "z \<in> seen s1" "z \<notin> queue_nodes (queue s1)"
      "distance (walk_rel w) start z < walk_depth w" "(z, y) \<in> walk_rel w" for z y
  proof (cases "z = x")
    case True
    then show ?thesis using v(3) not_cut z(4) by (auto simp: walk_rel_def)
  next
    case False
    have "z \<in> seen s" using z(1, 2) new(1, 3) by auto
    moreover have "z \<notin> queue_nodes (queue s)" using False z(2) assms(3) new(1) by auto
    ultimately show ?thesis using level_inv_closed [OF assms(1) _ _ z(3, 4)] new(4) by blast
  qed
  have "level_inv w start s1" if not_cut: "\<not> cut_off s1"
  proof (rule level_invI)
    have "sorted (map (\<lambda>q. fst (snd q)) new)" using new(2) by (induction new) auto
    then show "sorted (queue_depths s1)"
      using rest new(2) unfolding new(1) by (force simp: sorted_append)
    show "n \<le> Suc (hd (queue_depths s1))" if "n \<in> set (queue_depths s1)" for n
      using depths [OF that] depths [of "hd (queue_depths s1)"] that by (cases "queue s1") auto
    show "y \<in> seen s1" if "z \<in> seen s1" "z \<notin> queue_nodes (queue s1)" "distance (walk_rel w) start z < walk_depth w"
      "(z, y) \<in> walk_rel w" for z y using closed [OF not_cut that] .
    show "y \<in> seen s1" if "queue s1 \<noteq> []" "n \<le> hd (queue_depths s1)" "at_distance (walk_rel w) start n y" for y n
    proof (cases "n \<le> d")
      case True
      then show ?thesis using below [OF _ that(3)] new(4) by auto
    next
      case False
      have h: "hd (queue_depths s1) \<in> set (queue_depths s1)" using that(1) by (cases "queue s1") auto
      then have "n = Suc d" "hd (queue_depths s1) = Suc d" using False that(2) depths [OF h] by auto
      moreover have "hd (queue_depths s1) \<le> m" if "m \<in> set (queue_depths s1)" for m
        using \<open>sorted (queue_depths s1)\<close> that by (cases "queue_depths s1") auto
      ultimately have deep: "\<And>m. m \<in> set (queue_depths s1) \<Longrightarrow> Suc d \<le> m" by simp
      have "y \<in> seen s1" if "k \<le> d" "at_distance (walk_rel w) start k y" for k y using below [OF that] new(4) by blast
      then show ?thesis
        using next_level [OF v(1) deep assms(4), of n y] closed [OF not_cut] \<open>n = Suc d\<close> that(3) by blast
    qed
  qed
  then show ?thesis using v(1) by blast
qed

lemma search_correct:
  "level_inv w start s \<Longrightarrow> sound_inv w start s \<Longrightarrow> \<not> cut_off s \<Longrightarrow>
   sound_inv w start (search w s) \<and> (cut_off (search w s) \<or> covers_depth w start (search w s))"
proof (induction w s rule: search.induct)
  case (1 w s)
  show ?case
  proof (cases "queue s")
    case Nil
    then show ?thesis using 1(4, 3) level_inv_complete by (simp add: search.simps)
  next
    case (Cons a rest)
    obtain x d p where a: "a = (x, d, p)" by (cases a)
    let ?s = "s\<lparr>queue := rest\<rparr>" and ?s1 = "visit_edges w x d p (neighbors w x) (s\<lparr>queue := rest\<rparr>)"
    show ?thesis
    proof (cases "d \<ge> walk_depth w")
      case True
      have "sound_inv w start ?s"
        by (rule sound_inv_fields [OF 1(4)]) (use Cons sound_inv_emitted [OF 1(4)] in auto)
      moreover have "level_inv w start ?s" using level_inv_pop [OF 1(3, 4) Cons [unfolded a] True] .
      moreover have "search w s = search w ?s" using Cons a True by (subst search.simps) simp
      ultimately show ?thesis using 1(1) [OF Cons a [symmetric] refl refl True] 1(5) by simp
    next
      case False
      have st: "sound_inv w start ?s1 \<and> (\<not> cut_off ?s1 \<longrightarrow> level_inv w start ?s1)"
        using level_inv_step [OF 1(3, 4) Cons [unfolded a] _ refl] False by simp
      have "search w s = (if cut_off ?s1 then ?s1 else search w ?s1)"
        using Cons a False by (subst search.simps) (simp add: Let_def)
      then show ?thesis using st 1(2) [OF Cons a [symmetric] refl refl False refl] by (cases "cut_off ?s1") auto
    qed
  qed
qed

lemma start_invariants: "sound_inv w start (start_traversal start)" "level_inv w start (start_traversal start)"
  by (auto simp: sound_inv_def level_inv_def queued_ok_def start_traversal_def)

lemma search_start:
  "sound_inv w start (search w (start_traversal start))"
  "\<not> cut_off (search w (start_traversal start)) \<Longrightarrow> covers_depth w start (search w (start_traversal start))"
  using search_correct [OF start_invariants(2, 1)] by (auto simp: start_traversal_def)

section \<open>Edges are facts\<close>

definition declared_edge :: "FactCollection \<Rightarrow> string list \<Rightarrow> FactId \<Rightarrow> string \<Rightarrow> FactId \<Rightarrow> bool" where
  "declared_edge c tf a k b \<longleftrightarrow> passes_filter tf k \<and>
     ((\<exists>r \<in> set (FactsModel.relationships (model c)). RelationshipFact.source r = a \<and> RelationshipFact.target r = b \<and>
         k = RelationshipKind_as_str (RelationshipFact.kind r)) \<or>
      (\<exists>r \<in> set (FactsModel.references (model c)). ReferenceFact.referrer r = a \<and> ReferenceFact.target r = b \<and>
         k = ''references''))"

definition impact_edges :: "FactCollection \<Rightarrow> string list \<Rightarrow> string \<Rightarrow> (FactId \<times> FactId) set" where
  "impact_edges c tf dir =
     (let E = {(a, b). \<exists>k. declared_edge c tf a k b} in
      if dir = ''outgoing'' then E else if dir = ''incoming'' then E\<inverse> else E \<union> E\<inverse>)"

definition graph_nodes :: "FactCollection \<Rightarrow> FactId \<Rightarrow> FactId set" where
  "graph_nodes c start = insert start
     (RelationshipFact.source ` set (FactsModel.relationships (model c)) \<union> RelationshipFact.target ` set (FactsModel.relationships (model c)) \<union>
      ReferenceFact.referrer ` set (FactsModel.references (model c)) \<union> ReferenceFact.target ` set (FactsModel.references (model c)))"

abbreviation kind_target :: "GraphEdge \<Rightarrow> string \<times> FactId" where
  "kind_target e \<equiv> (edge_kind e, edge_target e)"

lemma adjacent_entry_push: "adjacent (entry_push k v m) x = adjacent m x @ (if k = x then [v] else [])"
  by (induction k v m rule: entry_push.induct) (auto simp: adjacent_def)

lemma adjacent_push_edge:
  "adjacent (fst (push_edge tf a b e m)) x =
     adjacent (fst m) x @ (if passes_filter tf (edge_kind e) \<and> a = x then [e\<lparr>edge_target := b\<rparr>] else [])"
  "adjacent (snd (push_edge tf a b e m)) x =
     adjacent (snd m) x @ (if passes_filter tf (edge_kind e) \<and> b = x then [e\<lparr>edge_target := a\<rparr>] else [])"
  by (cases m; simp add: push_edge_def adjacent_entry_push)+

lemma adjacent_fold_push:
  "kind_target ` set (adjacent (fst (fold (\<lambda>r. push_edge tf (src r) (tgt r) (ed r)) rs m)) x) =
     kind_target ` set (adjacent (fst m) x) \<union>
     {(edge_kind (ed r), tgt r) | r. r \<in> set rs \<and> passes_filter tf (edge_kind (ed r)) \<and> src r = x}"
  "kind_target ` set (adjacent (snd (fold (\<lambda>r. push_edge tf (src r) (tgt r) (ed r)) rs m)) x) =
     kind_target ` set (adjacent (snd m) x) \<union>
     {(edge_kind (ed r), src r) | r. r \<in> set rs \<and> passes_filter tf (edge_kind (ed r)) \<and> tgt r = x}"
  by (induction rs arbitrary: m) (auto simp: adjacent_push_edge)

lemma adjacent_sorted: "adjacent (map (\<lambda>(k, es). (k, sort_key edge_target es)) m) x = sort_key edge_target (adjacent m x)"
  by (induction m) (auto simp: adjacent_def)

lemma fst_build_adjacency: "kind_target ` set (adjacent (fst (build_adjacency c tf)) x) = {(k, y). declared_edge c tf x k y}"
  by (simp add: build_adjacency_def split_beta Let_def adjacent_sorted add_reference_edge_def [abs_def]
      add_relationship_edge_def [abs_def] adjacent_fold_push) (auto simp: declared_edge_def adjacent_def)

lemma snd_build_adjacency: "kind_target ` set (adjacent (snd (build_adjacency c tf)) x) = {(k, y). declared_edge c tf y k x}"
  by (simp add: build_adjacency_def split_beta Let_def adjacent_sorted add_reference_edge_def [abs_def]
      add_relationship_edge_def [abs_def] adjacent_fold_push) (auto simp: declared_edge_def adjacent_def)

definition traverse_walk :: "FloatOps \<Rightarrow> FactCollection \<Rightarrow> nat \<Rightarrow> string \<Rightarrow> string list \<Rightarrow> nat \<Rightarrow> Walk" where
  "traverse_walk fl c depth dir tf limit =
     \<lparr>walk_floats = fl, walk_collection = c, walk_outgoing = fst (build_adjacency c tf),
      walk_incoming = snd (build_adjacency c tf), walk_depth = depth, walk_direction = dir, walk_max_nodes = limit\<rparr>"

lemma declared_nodes: "declared_edge c tf a k b \<Longrightarrow> a \<in> graph_nodes c start \<and> b \<in> graph_nodes c start"
  by (auto simp: declared_edge_def graph_nodes_def)

lemma edge_target_image: "edge_target ` set es = snd ` kind_target ` set es"
  by (simp add: image_image)

lemma adjacent_targets:
  "edge_target ` set (adjacent (walk_outgoing (traverse_walk fl c depth dir tf limit)) x) = {y. \<exists>k. declared_edge c tf x k y}"
  "edge_target ` set (adjacent (walk_incoming (traverse_walk fl c depth dir tf limit)) x) = {y. \<exists>k. declared_edge c tf y k x}"
  unfolding edge_target_image traverse_walk_def Walk.simps fst_build_adjacency snd_build_adjacency by force+

text \<open>Following an edge in the search is following a declared edge in its direction or the
  other one, as long as no two nodes of the graph share the text of their id.\<close>

lemma walk_rel_edges:
  assumes "inj_on FactId_as_str (graph_nodes c start)"
  shows "walk_rel (traverse_walk fl c depth dir tf limit) = impact_edges c tf dir"
proof -
  let ?w = "traverse_walk fl c depth dir tf limit"
  have "edge_target ` set (neighbors ?w x) = {y. (x, y) \<in> impact_edges c tf dir}" for x
  proof (cases "dir = ''outgoing'' \<or> dir = ''incoming''")
    case True
    then show ?thesis
      using adjacent_targets [of fl c depth dir tf limit x]
      by (auto simp: neighbors_def impact_edges_def traverse_walk_def Let_def)
  next
    case False
    let ?f = "\<lambda>e. FactId_as_str (edge_target e)"
      and ?m = "adjacent (walk_outgoing ?w) x @ adjacent (walk_incoming ?w) x"
    have n: "neighbors ?w x = dedup_by_key ?f (sort_key ?f ?m)"
      using False by (simp add: neighbors_def Let_def traverse_walk_def)
    have m: "edge_target ` set ?m = {y. (x, y) \<in> impact_edges c tf dir}"
      using False adjacent_targets [of fl c depth dir tf limit x] by (auto simp: impact_edges_def Let_def image_Un)
    have sub: "edge_target ` set (neighbors ?w x) \<subseteq> edge_target ` set ?m"
      unfolding n using set_dedup_by_key [of ?f "sort_key ?f ?m"] by auto
    have "FactId_as_str ` edge_target ` set (neighbors ?w x) = FactId_as_str ` edge_target ` set ?m"
      unfolding n image_image keys_dedup_by_key set_sort ..
    moreover have "edge_target ` set ?m \<subseteq> graph_nodes c start"
      unfolding m by (auto simp: impact_edges_def Let_def dest: declared_nodes [of c tf _ _ _ start] split: if_splits)
    ultimately show ?thesis using sub assms m by (metis inj_on_image_eq_iff order_trans)
  qed
  then show ?thesis by (auto simp: walk_rel_def image_iff set_eq_iff)
qed

section \<open>The traversal\<close>

definition ranked :: "ImpactRelationship list \<Rightarrow> ImpactRelationship list" where
  "ranked rs = dedup_by_key same_edge (sort_key by_rank rs)"

lemma traverse_search:
  assumes "s = search (traverse_walk fl c depth dir tf limit) (start_traversal start)"
    and "cap_results max_results (ranked (direct_found s)) (ranked (transitive_found s)) (cut_off s) (cut_reason s) = (ds, ts, stopped, why)"
  shows "traverse fl c start depth dir tf limit max_results =
    (ds, ts, add_summaries (build_provenance_summary ds) (build_provenance_summary ts),
     \<lparr>depth_limit = depth, meta_direction = dir, relationship_types = tf, max_nodes = limit,
      nodes_visited = visited_count s, edges_traversed = edge_count s, truncated = stopped, truncation_reason = why\<rparr>)"
  using assms(2) unfolding assms(1) traverse_def traverse_walk_def ranked_def by (simp add: Let_def split_beta)

lemma dedup_by_key_distinct: "distinct (map key xs) \<Longrightarrow> dedup_by_key key xs = xs"
  by (induction key xs rule: dedup_by_key.induct) auto

lemma length_dedup_by_key: "length (dedup_by_key key xs) \<le> length xs"
  by (induction key xs rule: dedup_by_key.induct) auto

lemma set_ranked: "set (ranked rs) \<subseteq> set rs"
  using set_dedup_by_key [of same_edge "sort_key by_rank rs"] by (simp add: ranked_def)

lemma length_ranked: "length (ranked rs) \<le> length rs"
  using length_dedup_by_key [of same_edge "sort_key by_rank rs"] by (simp add: ranked_def)

lemma mset_ranked:
  assumes "distinct (map rel_target_id rs)"
  shows "mset (ranked rs) = mset rs"
proof -
  have ids: "inj_on rel_target_id (set rs)" "distinct rs" using assms by (auto simp: distinct_map)
  have "inj_on same_edge (set rs)"
    by (rule inj_onI) (rule inj_onD [OF ids(1)], simp_all add: same_edge_def)
  then have "distinct (map same_edge (sort_key by_rank rs))" using ids(2) by (simp add: distinct_map)
  then show ?thesis by (simp add: ranked_def dedup_by_key_distinct)
qed

lemma cap_results_sub:
  assumes "cap_results n ds ts st why = (ds', ts', st', why')"
  shows "set ds' \<subseteq> set ds" "set ts' \<subseteq> set ts" "length ds' \<le> length ds" "length ts' \<le> length ts" "st \<Longrightarrow> st'"
    "\<not> st' \<Longrightarrow> ds' = ds \<and> ts' = ts"
  using assms by (auto simp: cap_results_def Let_def split: if_splits dest: in_set_takeD)

lemma visited_bound: "visited_count s \<le> max 1 (walk_max_nodes w) \<Longrightarrow>
   visited_count (visit_edges w x d p es s) \<le> max 1 (walk_max_nodes w)"
  by (induction w x d p es s rule: visit_edges.induct) (auto simp: Let_def)

lemma search_visited_bound: "visited_count s \<le> max 1 (walk_max_nodes w) \<Longrightarrow> visited_count (search w s) \<le> max 1 (walk_max_nodes w)"
proof (induction w s rule: search.induct)
  case (1 w s)
  show ?case
  proof (cases "queue s")
    case (Cons a rest)
    obtain x d p where a: "a = (x, d, p)" by (cases a)
    show ?thesis
    proof (cases "d \<ge> walk_depth w")
      case True
      have "search w s = search w (s\<lparr>queue := rest\<rparr>)" using Cons a True by (subst search.simps) simp
      then show ?thesis using 1(1) [OF Cons a [symmetric] refl refl True] 1(3) by simp
    next
      case False
      let ?s1 = "visit_edges w x d p (neighbors w x) (s\<lparr>queue := rest\<rparr>)"
      have "search w s = (if cut_off ?s1 then ?s1 else search w ?s1)"
        using Cons a False by (subst search.simps) (simp add: Let_def)
      then show ?thesis
        using 1(2) [OF Cons a [symmetric] refl refl False refl] visited_bound [of "s\<lparr>queue := rest\<rparr>" w x d p "neighbors w x"] 1(3)
        by (cases "cut_off ?s1") auto
    qed
  qed (use 1(3) in \<open>simp add: search.simps\<close>)
qed

lemma sound_found_length:
  assumes "sound_inv w start s"
  shows "length (found s) + 1 = visited_count s"
proof -
  note s = sound_inv_start [OF assms]
  have "length (found s) = card (seen s - {start})"
    using arg_cong [OF sound_inv_found [OF assms], of size] by (simp del: mset_map)
  moreover have "card (seen s - {start}) + 1 = card (seen s)"
    using s by (metis Suc_eq_plus1 card_Suc_Diff1)
  ultimately show ?thesis using s by simp
qed

lemma sound_distance: "sound_inv w start s \<Longrightarrow> y \<in> seen s \<Longrightarrow> at_distance (walk_rel w) start (distance (walk_rel w) start y) y"
  using sound_inv_seen at_distance_eq by metis

lemma sound_found:
  assumes "sound_inv w start s"
  shows "id_depth ` set (found s) = {(FactId_as_str y, n) | y n. y \<in> seen s - {start} \<and> at_distance (walk_rel w) start n y}"
proof -
  have fin: "finite (seen s - {start})" using sound_inv_start [OF assms] by simp
  have "id_depth ` set (found s) = set_mset (mset (map id_depth (found s)))" by (simp add: image_Un)
  also have "\<dots> = (\<lambda>x. (FactId_as_str x, distance (walk_rel w) start x)) ` (seen s - {start})"
    unfolding sound_inv_found [OF assms] using fin by simp
  also have "\<dots> = {(FactId_as_str y, n) | y n. y \<in> seen s - {start} \<and> at_distance (walk_rel w) start n y}"
  proof (intro equalityI subsetI)
    fix q assume "q \<in> (\<lambda>x. (FactId_as_str x, distance (walk_rel w) start x)) ` (seen s - {start})"
    then obtain y where "q = (FactId_as_str y, distance (walk_rel w) start y)" "y \<in> seen s - {start}" by blast
    then show "q \<in> {(FactId_as_str y, n) | y n. y \<in> seen s - {start} \<and> at_distance (walk_rel w) start n y}"
      using sound_distance [OF assms, of y] by blast
  next
    fix q assume "q \<in> {(FactId_as_str y, n) | y n. y \<in> seen s - {start} \<and> at_distance (walk_rel w) start n y}"
    then obtain y n where y: "q = (FactId_as_str y, n)" "y \<in> seen s - {start}" "at_distance (walk_rel w) start n y" by blast
    show "q \<in> (\<lambda>x. (FactId_as_str x, distance (walk_rel w) start x)) ` (seen s - {start})"
      by (rule image_eqI [OF _ y(2)]) (simp add: y(1) at_distance_eq [OF y(3)])
  qed
  finally show ?thesis .
qed

lemma at_distance_reach: "at_distance E a n b \<Longrightarrow> b \<in> insert a (Range E)"
  by (cases n) (auto simp: at_distance_def)

lemma mset_set_distinct:
  assumes "finite A" "mset xs = mset_set A"
  shows "distinct xs"
proof (rule card_distinct)
  have "set xs = A" using arg_cong [OF assms(2), of set_mset] assms(1) by simp
  then show "card (set xs) = length xs" using arg_cong [OF assms(2), of size] by simp
qed

lemma sound_ids_distinct:
  assumes "sound_inv w start s" "inj_on FactId_as_str (insert start (Range (walk_rel w)))"
  shows "distinct (map rel_target_id (found s))"
proof -
  have "y \<in> insert start (Range (walk_rel w))" if "y \<in> seen s" for y
    using at_distance_reach [OF sound_distance [OF assms(1) that]] .
  then have sub: "seen s - {start} \<subseteq> insert start (Range (walk_rel w))" by blast
  have fin: "finite (seen s - {start})" using sound_inv_start [OF assms(1)] by simp
  have "mset (map rel_target_id (found s)) = image_mset fst (mset (map id_depth (found s)))"
    by (simp add: id_depth_def multiset.map_comp comp_def)
  also have "\<dots> = image_mset FactId_as_str (mset_set (seen s - {start}))"
    unfolding sound_inv_found [OF assms(1)] by (simp add: multiset.map_comp comp_def)
  also have "\<dots> = mset_set (FactId_as_str ` (seen s - {start}))"
    by (rule image_mset_mset_set) (rule inj_on_subset [OF assms(2) sub])
  finally have "mset (map rel_target_id (found s)) = mset_set (FactId_as_str ` (seen s - {start}))" .
  then show ?thesis by (rule mset_set_distinct [rotated]) (use fin in simp)
qed

lemma impact_edges_nodes: "insert start (Range (impact_edges c tf dir)) \<subseteq> graph_nodes c start"
  by (auto simp: impact_edges_def Let_def graph_nodes_def declared_edge_def split: if_splits)

text \<open>C8: An unlimited traversal is a breadth-first search of the declared edges: when the ids of the graph's nodes
  are distinct texts and no limit is hit, it reports exactly the nodes at distance one to the depth, each
  once and with its distance, the nodes at distance one as direct relationships.\<close>

theorem traversal_is_breadth_first:
  assumes "inj_on FactId_as_str (graph_nodes c start)"
    and "traverse fl c start depth dir tf limit 0 = (ds, ts, sm, meta)" "\<not> truncated meta"
  shows "(\<lambda>r. (rel_target_id r, rel_depth r)) ` set (ds @ ts) =
      {(FactId_as_str y, n) | y n. 1 \<le> n \<and> n \<le> depth \<and> at_distance (impact_edges c tf dir) start n y} \<and>
    distinct (map rel_target_id (ds @ ts)) \<and> (\<forall>r \<in> set ds. rel_depth r = 1) \<and> (\<forall>r \<in> set ts. rel_depth r \<ge> 2)"
proof -
  define s where "s = search (traverse_walk fl c depth dir tf limit) (start_traversal start)"
  let ?w = "traverse_walk fl c depth dir tf limit"
  have E: "walk_rel ?w = impact_edges c tf dir" using assms(1) by (rule walk_rel_edges)
  have snd: "sound_inv ?w start s" unfolding s_def by (rule search_start)
  have r: "ds = ranked (direct_found s)" "ts = ranked (transitive_found s)" "truncated meta = cut_off s"
    using assms(2) traverse_search [OF s_def, of 0] by (auto simp: cap_results_def)
  then have comp: "covers_depth ?w start s" using assms(3) search_start(2) unfolding s_def by simp
  have "inj_on FactId_as_str (insert start (Range (walk_rel ?w)))"
    unfolding E by (rule inj_on_subset [OF assms(1) impact_edges_nodes])
  then have dist: "distinct (map rel_target_id (found s))" by (rule sound_ids_distinct [OF snd])
  then have ms: "mset (ds @ ts) = mset (found s)" using mset_ranked unfolding r by simp
  then have st: "set (ds @ ts) = set (found s)" by (rule mset_eq_setD)
  have "id_depth ` set (ds @ ts) = {(FactId_as_str y, n) | y n. 1 \<le> n \<and> n \<le> depth \<and> at_distance (impact_edges c tf dir) start n y}"
    unfolding st sound_found [OF snd] E
  proof (rule Collect_cong, rule iffI; elim exE conjE)
    fix q y n assume y: "q = (FactId_as_str y, n)" "y \<in> seen s - {start}" "at_distance (impact_edges c tf dir) start n y"
    then have "n \<noteq> 0" by (cases n) auto
    moreover obtain m where m: "m \<le> depth" "at_distance (impact_edges c tf dir) start m y"
      using sound_inv_seen [OF snd, of y] y(2) unfolding E by (auto simp: traverse_walk_def)
    then have "n \<le> depth" using at_distance_unique [OF y(3) m(2)] by simp
    ultimately show "\<exists>y n. q = (FactId_as_str y, n) \<and> 1 \<le> n \<and> n \<le> depth \<and> at_distance (impact_edges c tf dir) start n y"
      using y(1, 3) by (metis less_one not_le_imp_less)
  next
    fix q y n assume y: "q = (FactId_as_str y, n)" "1 \<le> n" "n \<le> depth" "at_distance (impact_edges c tf dir) start n y"
    have "y \<in> seen s" using comp y(3, 4) unfolding covers_depth_def E by (simp add: traverse_walk_def)
    moreover have "y \<noteq> start" using y(2, 4) at_distance_unique [of _ start n start 0] by auto
    ultimately show "\<exists>y n. q = (FactId_as_str y, n) \<and> y \<in> seen s - {start} \<and> at_distance (impact_edges c tf dir) start n y"
      using y by blast
  qed
  moreover have "distinct (map rel_target_id (ds @ ts))"
    using dist arg_cong [OF ms, of "image_mset rel_target_id"] by (metis mset_eq_imp_distinct_iff mset_map)
  moreover have "\<forall>r \<in> set ds. rel_depth r = 1" "\<forall>r \<in> set ts. rel_depth r \<ge> 2"
    using sound_inv_depths [OF snd] set_ranked unfolding r by blast+
  ultimately show ?thesis unfolding id_depth_def [abs_def] by blast
qed


text \<open>A path of declared edges, with the texts of its nodes; an incoming traversal walks against the edges.\<close>

fun declared_walk :: "FactCollection \<Rightarrow> string list \<Rightarrow> bool \<Rightarrow> FactId \<Rightarrow> PathEdge list \<Rightarrow> FactId \<Rightarrow> bool" where
  "declared_walk c tf forward a [] b \<longleftrightarrow> a = b"
| "declared_walk c tf forward a (p # ps) b \<longleftrightarrow>
     (\<exists>m. (let (src, tgt) = if forward then (a, m) else (m, a) in
             declared_edge c tf src (path_kind p) tgt \<and> path_source p = FactId_as_str src \<and> path_target p = FactId_as_str tgt) \<and>
          declared_walk c tf forward m ps b)"

lemma neighbor_declared:
  assumes "e \<in> set (neighbors (traverse_walk fl c depth dir tf limit) x)" "dir = ''outgoing'' \<or> dir = ''incoming''"
  shows "if dir = ''outgoing'' then declared_edge c tf x (edge_kind e) (edge_target e)
    else declared_edge c tf (edge_target e) (edge_kind e) x"
proof (cases "dir = ''outgoing''")
  case True
  then have "e \<in> set (adjacent (fst (build_adjacency c tf)) x)" using assms(1) by (simp add: neighbors_def traverse_walk_def)
  then have "kind_target e \<in> {(k, y). declared_edge c tf x k y}" unfolding fst_build_adjacency [symmetric] by (rule imageI)
  then show ?thesis using True by simp
next
  case False
  then have "e \<in> set (adjacent (snd (build_adjacency c tf)) x)" using assms by (simp add: neighbors_def traverse_walk_def)
  then have "kind_target e \<in> {(k, y). declared_edge c tf y k x}" unfolding snd_build_adjacency [symmetric] by (rule imageI)
  then show ?thesis using False by simp
qed

lemma walk_path_declared:
  assumes "dir = ''outgoing'' \<or> dir = ''incoming''"
  shows "walk_path (traverse_walk fl c depth dir tf limit) a ps b \<Longrightarrow> declared_walk c tf (dir = ''outgoing'') a ps b"
proof (induction ps arbitrary: a)
  case (Cons p ps)
  then obtain e where e: "e \<in> set (neighbors (traverse_walk fl c depth dir tf limit) a)"
    "p = path_edge (traverse_walk fl c depth dir tf limit) a e" "declared_walk c tf (dir = ''outgoing'') (edge_target e) ps b"
    by auto
  show ?case
    using neighbor_declared [OF e(1) assms] e(3) assms unfolding e(2) declared_walk.simps
    by (intro exI [of _ "edge_target e"]) (auto simp: path_edge_def edge_direction_def traverse_walk_def)
qed simp


section \<open>Sample graphs\<close>

definition exact_floats :: FloatOps where
  "exact_floats = \<lparr>rounding = Fin, f64_powi = (\<lambda>x n. case x of Fin a \<Rightarrow> Fin (a ^ nat n) | _ \<Rightarrow> x)\<rparr>"

abbreviation symbol_node :: "string \<Rightarrow> FactId" where
  "symbol_node n \<equiv> FactId.Symbol (OpaqueId n)"

definition sample_graph :: FactCollection where
  "sample_graph = \<lparr>model = FactsModel_empty
     \<lparr>FactsModel.relationships := [RelationshipFact_new (OpaqueId ''r1'') RelationshipKind.Calls (symbol_node ''a'') (symbol_node ''b''),
        RelationshipFact_new (OpaqueId ''r2'') RelationshipKind.Calls (symbol_node ''b'') (symbol_node ''c''),
        RelationshipFact_new (OpaqueId ''r3'') RelationshipKind.Imports (symbol_node ''b'') (symbol_node ''a'')]\<rparr>\<rparr>"

lemma sample_graph_ids: "inj_on FactId_as_str (graph_nodes sample_graph (symbol_node ''a''))"
  by (auto simp: inj_on_def graph_nodes_def sample_graph_def RelationshipFact_new_def FactsModel_empty_def)

lemma sample_traversal:
  "case traverse exact_floats sample_graph (symbol_node ''a'') 2 ''outgoing'' [] 10 0 of (ds, ts, sm, meta) \<Rightarrow>
     map id_depth (ds @ ts) = [(''b'', 1), (''c'', 2)] \<and> \<not> truncated meta"
  by code_simp

theorem traversal_is_breadth_first_witness:
  "{(''b'', 1), (''c'', 2)} = {(FactId_as_str y, n) | y n. 1 \<le> n \<and> n \<le> 2 \<and>
     at_distance (impact_edges sample_graph [] ''outgoing'') (symbol_node ''a'') n y}"
proof -
  obtain ds ts sm meta where t: "traverse exact_floats sample_graph (symbol_node ''a'') 2 ''outgoing'' [] 10 0 = (ds, ts, sm, meta)"
    by (metis prod_cases4)
  have m: "map id_depth (ds @ ts) = [(''b'', 1), (''c'', 2)]" "\<not> truncated meta" using sample_traversal unfolding t by simp_all
  have "id_depth ` set (ds @ ts) = {(''b'', 1), (''c'', 2)}" using arg_cong [OF m(1), of set] by (simp only: set_map) simp
  then show ?thesis using traversal_is_breadth_first [OF sample_graph_ids t m(2)] unfolding id_depth_def [abs_def] by auto
qed



text \<open>In both directions at once the edges of a node are merged by target and labelled by the mere existence of an incoming
  edge, so two opposite edges of different kinds give one that is not declared: here b imports a and a calls b, and the
  path to c claims that b calls a.\<close>

theorem merged_edges_invent_a_call:
  "case traverse exact_floats sample_graph (symbol_node ''a'') 2 ''both'' [] 10 0 of (ds, ts, sm, meta) \<Rightarrow>
     map (\<lambda>r. (rel_target_id r, rel_kind r, rel_direction r)) ds = [(''b'', ''calls'', ''incoming'')] \<and>
     map (\<lambda>r. hd (rel_path r)) ts =
       [\<lparr>path_source = ''b'', path_target = ''a'', path_kind = ''calls'', path_provenance = ImpactProvenance.Verified\<rparr>]"
  "\<not> declared_edge sample_graph [] (symbol_node ''b'') ''calls'' (symbol_node ''a'')"
  by code_simp (simp add: declared_edge_def sample_graph_def RelationshipFact_new_def FactsModel_empty_def)

end
