(* ===== verification/Impact_Risk.thy ===== *)
theory Impact_Risk
  imports Rust_Values
begin

text \<open>
  The risk signal of an impact analysis (\<^verbatim>\<open>impact-engine/src/impact/risk.rs\<close>): indicators from the path and
  name of the target and from the number of its dependents, and a level. \<open>assess_risk\<close> is pure, but it
  can panic: evidence quotes the first 120 bytes of the path, and the slice panics inside a
  character. The value \<open>None\<close> is that panic.

  The lemmas show that the bound on the number of indicators never drops one, which indicators are
  reported, how they determine the level, and exactly when the assessment panics.
\<close>

section \<open>Signals\<close>

datatype RiskLevel = High | Medium | Low

fun RiskLevel_as_str :: "RiskLevel \<Rightarrow> string" where
  "RiskLevel_as_str High = ''HIGH''"
| "RiskLevel_as_str Medium = ''MEDIUM''"
| "RiskLevel_as_str Low = ''LOW''"

record RiskIndicator =
  code :: string
  evidence :: string

record RiskSignal =
  level :: RiskLevel
  indicators :: "RiskIndicator list"
  blast_radius :: string

record RiskInput =
  risk_path :: "string option"
  risk_name :: "string option"
  direct_dependents :: nat
  transitive_dependents :: nat
  is_public :: bool

definition MAX_INDICATORS :: nat where "MAX_INDICATORS = 8"

section \<open>Assessment\<close>

text \<open>The UTF-8 bytes of the ellipsis and of the dash in the messages.\<close>

abbreviation ellipsis :: string where "ellipsis \<equiv> [CHR 0xE2, CHR 0x80, CHR 0xA6]"
abbreviation em_dash :: string where "em_dash \<equiv> [CHR 0xE2, CHR 0x80, CHR 0x94]"

definition clipped :: "string \<Rightarrow> string option" where
  "clipped path =
     (if length path > 120 then map_option (\<lambda>s. s @ ellipsis) (str_slice_to path 120)
      else if path = [] then Some ''(unknown path)''
      else Some path)"

definition push_indicator :: "string \<Rightarrow> string \<Rightarrow> RiskIndicator list \<Rightarrow> RiskIndicator list" where
  "push_indicator c ev is =
     (if length is < MAX_INDICATORS then is @ [\<lparr>code = c, evidence = ev\<rparr>] else is)"

text \<open>The six rules of high risk: condition, code and the text in front of the quoted path.\<close>

definition high_rules :: "string \<Rightarrow> string \<Rightarrow> (bool \<times> string \<times> string) list" where
  "high_rules path name =
     [(occurs_in ''store'' path \<or> occurs_in ''state.db'' path \<or> occurs_in ''persistence'' path \<or>
         occurs_in ''contextstore'' name,
       ''persistence_layer'', ''path touches persistence: ''),
      (occurs_in ''migration'' path \<or> occurs_in ''migrate'' path \<or> occurs_in ''user_version'' path \<or>
         occurs_in ''migrat'' name,
       ''database_migration'', ''path touches migration: ''),
      (occurs_in ''mcp'' path \<and> (occurs_in ''mod'' path \<or> occurs_in ''tool'' path \<or> occurs_in ''tool'' name),
       ''public_mcp_api'', ''path touches public MCP surface: ''),
      (occurs_in ''auth'' path \<or> occurs_in ''credential'' path \<or> occurs_in ''secret'' path \<or>
         occurs_in ''permission'' path \<or> occurs_in ''trust'' path,
       ''trust_boundary'', ''path touches trust boundary: ''),
      (occurs_in ''skill'' path \<and> occurs_in ''publish'' path \<or> occurs_in ''change_engine'' path \<or>
         occurs_in ''apply_change'' name,
       ''filesystem_publishing'', ''path touches guarded mutation/publish: ''),
      (occurs_in ''lease'' path \<or> occurs_in ''fenc'' path \<or> occurs_in ''concurr'' path \<or> occurs_in ''lease'' name,
       ''concurrency_fencing'', ''path touches concurrency/fencing: '')]"

fun apply_rules :: "string \<Rightarrow> (bool \<times> string \<times> string) list \<Rightarrow> RiskIndicator list \<Rightarrow> RiskIndicator list option" where
  "apply_rules path [] is = Some is"
| "apply_rules path ((fires, c, pre) # rules) is =
     (if fires then
        (case clipped path of
           None \<Rightarrow> None
         | Some q \<Rightarrow> apply_rules path rules (push_indicator c (pre @ q) is))
      else apply_rules path rules is)"

definition dependents_indicator :: "RiskInput \<Rightarrow> RiskIndicator list \<Rightarrow> RiskIndicator list" where
  "dependents_indicator inp is =
     (let total = direct_dependents inp + transitive_dependents inp in
      if total \<ge> 10 then
        push_indicator ''many_dependents''
          (show_nat total @ '' dependents (direct='' @ show_nat (direct_dependents inp) @ '' transitive='' @
             show_nat (transitive_dependents inp) @ '')'') is
      else if direct_dependents inp \<ge> 5 then
        push_indicator ''highly_shared_module'' (show_nat (direct_dependents inp) @ '' direct dependents'') is
      else is)"

definition shared_area :: "string \<Rightarrow> bool" where
  "shared_area path \<longleftrightarrow> occurs_in ''core'' path \<or> occurs_in ''lib'' path \<or> occurs_in ''util'' path \<or> occurs_in ''common'' path"

definition public_indicator :: "RiskInput \<Rightarrow> string \<Rightarrow> RiskIndicator list \<Rightarrow> RiskIndicator list option" where
  "public_indicator inp path is =
     (if is_public inp \<and> shared_area path then
        map_option (\<lambda>q. push_indicator ''central_public_utility'' (''public item in shared area: '' @ q) is) (clipped path)
      else if is_public inp \<and> is = [] then Some (push_indicator ''public_api'' ''public visibility'' is)
      else Some is)"

definition high_codes :: "string list" where
  "high_codes = [''persistence_layer'', ''database_migration'', ''public_mcp_api'', ''trust_boundary'',
     ''filesystem_publishing'', ''concurrency_fencing'']"

definition level_of :: "RiskIndicator list \<Rightarrow> RiskLevel" where
  "level_of is =
     (if list_ex (\<lambda>i. code i \<in> set high_codes) is then High else if is \<noteq> [] then Medium else Low)"

definition blast_text :: "RiskInput \<Rightarrow> RiskIndicator list \<Rightarrow> RiskLevel \<Rightarrow> string" where
  "blast_text inp is l =
     (let counts = '' '' @ show_nat (length is) @ '' indicator(s), '' @ show_nat (direct_dependents inp) @
            '' direct + '' @ show_nat (transitive_dependents inp) @ '' transitive dependents'' in
      case l of
        High \<Rightarrow> ''HIGH '' @ em_dash @ counts @ ''; review persistence/migration/trust effects''
      | Medium \<Rightarrow> ''MEDIUM '' @ em_dash @ counts
      | Low \<Rightarrow> ''LOW '' @ em_dash @ '' isolated leaf; no risk indicators fired'')"

definition or_empty :: "string option \<Rightarrow> string" where
  "or_empty x = (case x of None \<Rightarrow> [] | Some s \<Rightarrow> s)"

definition assess_risk :: "RiskInput \<Rightarrow> RiskSignal option" where
  "assess_risk inp =
     (let path = to_ascii_lowercase (or_empty (risk_path inp));
          name = to_ascii_lowercase (or_empty (risk_name inp)) in
      case apply_rules path (high_rules path name) [] of
        None \<Rightarrow> None
      | Some is1 \<Rightarrow>
          (case public_indicator inp path (dependents_indicator inp is1) of
             None \<Rightarrow> None
           | Some is2 \<Rightarrow>
               let is3 = take MAX_INDICATORS (sort_key (\<lambda>i. (code i, evidence i)) is2);
                   l = level_of is3
               in Some \<lparr>level = l, indicators = is3, blast_radius = blast_text inp is3 l\<rparr>))"

section \<open>What a signal says\<close>

text \<open>The specification: the codes that apply to an input, and whether one of them quotes the path.\<close>

definition lowered_path :: "RiskInput \<Rightarrow> string" where
  "lowered_path inp = to_ascii_lowercase (or_empty (risk_path inp))"

definition lowered_name :: "RiskInput \<Rightarrow> string" where
  "lowered_name inp = to_ascii_lowercase (or_empty (risk_name inp))"

definition high_fired :: "RiskInput \<Rightarrow> string list" where
  "high_fired inp = map (fst \<circ> snd) (filter fst (high_rules (lowered_path inp) (lowered_name inp)))"

definition dependents_fired :: "RiskInput \<Rightarrow> string list" where
  "dependents_fired inp =
     (if direct_dependents inp + transitive_dependents inp \<ge> 10 then [''many_dependents'']
      else if direct_dependents inp \<ge> 5 then [''highly_shared_module''] else [])"

definition public_fired :: "RiskInput \<Rightarrow> string list" where
  "public_fired inp =
     (if is_public inp \<and> shared_area (lowered_path inp) then [''central_public_utility'']
      else if is_public inp \<and> high_fired inp = [] \<and> dependents_fired inp = [] then [''public_api''] else [])"

definition quotes_path :: "RiskInput \<Rightarrow> bool" where
  "quotes_path inp \<longleftrightarrow> high_fired inp \<noteq> [] \<or> is_public inp \<and> shared_area (lowered_path inp)"

lemma ascii_lower_continuation:
  "(of_char (ascii_lower c) :: nat) \<ge> 128 \<and> (of_char (ascii_lower c) :: nat) < 192 \<longleftrightarrow>
   (of_char c :: nat) \<ge> 128 \<and> (of_char c :: nat) < 192"
  by (auto simp: ascii_lower_def)

lemma boundary_lowercase [simp]: "is_char_boundary (to_ascii_lowercase s) i \<longleftrightarrow> is_char_boundary s i"
proof (cases "i < length s")
  case True
  then show ?thesis using ascii_lower_continuation [of "s ! i"] by (simp add: is_char_boundary_def)
qed (simp add: is_char_boundary_def)

lemma clipped_None: "clipped p = None \<longleftrightarrow> 120 < length p \<and> \<not> is_char_boundary p 120"
  by (auto simp: clipped_def str_slice_to_def)

lemma apply_rules_Some:
  assumes "clipped path = Some q" "length is + length rules \<le> MAX_INDICATORS"
  shows "apply_rules path rules is = Some (is @ map (\<lambda>(_, c, pre). \<lparr>code = c, evidence = pre @ q\<rparr>) (filter fst rules))"
  using assms(2)
proof (induction rules arbitrary: "is")
  case (Cons r rules)
  obtain f c pre where r: "r = (f, c, pre)" by (cases r)
  show ?case using Cons assms(1) by (auto simp: r push_indicator_def)
qed simp

lemma apply_rules_None: "clipped path = None \<Longrightarrow> apply_rules path rules is = (if \<exists>r \<in> set rules. fst r then None else Some is)"
  by (induction path rules "is" rule: apply_rules.induct) auto

lemma length_high_rules [simp]: "length (high_rules p n) = 6"
  by (simp add: high_rules_def)

lemma push_indicator_below: "length is < MAX_INDICATORS \<Longrightarrow> push_indicator c ev is = is @ [\<lparr>code = c, evidence = ev\<rparr>]"
  by (simp add: push_indicator_def)

lemma append_codes: "code i = c \<Longrightarrow> \<exists>js. is @ [i] = is @ js \<and> map code js = [c]"
  by (rule exI [of _ "[i]"]) simp

lemma dependents_indicator_append:
  assumes "length is < MAX_INDICATORS"
  shows "\<exists>js. dependents_indicator inp is = is @ js \<and> map code js = dependents_fired inp"
  using assms by (auto simp: dependents_indicator_def dependents_fired_def push_indicator_below Let_def intro!: append_codes)

lemma public_indicator_append:
  assumes "length is < MAX_INDICATORS" "clipped path = Some q \<or> \<not> (is_public inp \<and> shared_area path)"
  shows "\<exists>js. public_indicator inp path is = Some (is @ js) \<and>
    map code js = (if is_public inp \<and> shared_area path then [''central_public_utility'']
                   else if is_public inp \<and> is = [] then [''public_api''] else [])"
proof (cases "is_public inp \<and> shared_area path")
  case True
  then show ?thesis using assms by (auto simp: public_indicator_def push_indicator_below)
next
  case False
  then show ?thesis using assms(1)
    by (cases "is_public inp \<and> is = []") (auto simp: public_indicator_def push_indicator_below)
qed

lemma codes_high_rules: "map (fst \<circ> snd) (high_rules p n) = high_codes"
  by (simp add: high_rules_def high_codes_def)

lemma high_fired_codes: "set (high_fired inp) \<subseteq> set high_codes"
  unfolding high_fired_def codes_high_rules [of "lowered_path inp" "lowered_name inp", symmetric] by auto

lemma medium_fired_codes: "set (dependents_fired inp @ public_fired inp) \<inter> set high_codes = {}"
  by (auto simp: dependents_fired_def public_fired_def high_codes_def)

lemma length_high_fired: "length (high_fired inp) \<le> 6"
  unfolding high_fired_def length_map length_high_rules [of "lowered_path inp" "lowered_name inp", symmetric]
  by (rule length_filter_le)

lemma length_fired: "length (high_fired inp) \<le> 6" "length (dependents_fired inp) \<le> 1" "length (public_fired inp) \<le> 1"
  by (rule length_high_fired) (simp_all add: dependents_fired_def public_fired_def)

lemma indicators_collected:
  assumes "clipped (lowered_path inp) = Some q \<or> \<not> quotes_path inp"
  shows "\<exists>is. (case apply_rules (lowered_path inp) (high_rules (lowered_path inp) (lowered_name inp)) [] of
      None \<Rightarrow> None | Some is1 \<Rightarrow> public_indicator inp (lowered_path inp) (dependents_indicator inp is1)) = Some is \<and>
    map code is = high_fired inp @ dependents_fired inp @ public_fired inp"
proof -
  let ?p = "lowered_path inp" and ?r = "high_rules (lowered_path inp) (lowered_name inp)"
  have "\<exists>is1. apply_rules ?p ?r [] = Some is1 \<and> map code is1 = high_fired inp"
  proof (cases "clipped ?p")
    case None
    then have "\<not> quotes_path inp" using assms by simp
    then have "\<forall>r \<in> set ?r. \<not> fst r" by (auto simp: quotes_path_def high_fired_def filter_empty_conv)
    then show ?thesis using None apply_rules_None [of ?p ?r "[]"] by (auto simp: high_fired_def)
  next
    case (Some a)
    then show ?thesis using apply_rules_Some [of ?p a "[]" ?r] by (auto simp: high_fired_def MAX_INDICATORS_def)
  qed
  then obtain is1 where 1: "apply_rules ?p ?r [] = Some is1" "map code is1 = high_fired inp" by blast
  then have "length is1 \<le> 6" using length_fired(1) [of inp] by (metis length_map)
  then obtain js where 2: "dependents_indicator inp is1 = is1 @ js" "map code js = dependents_fired inp"
    using dependents_indicator_append [of is1 inp] by (auto simp: MAX_INDICATORS_def)
  have "length (is1 @ js) < MAX_INDICATORS"
    using \<open>length is1 \<le> 6\<close> length_fired(2) [of inp] 2(2) length_map [of code js] by (simp add: MAX_INDICATORS_def)
  moreover have "clipped ?p = Some q \<or> \<not> (is_public inp \<and> shared_area ?p)" using assms by (auto simp: quotes_path_def)
  ultimately obtain ks where 3: "public_indicator inp ?p (is1 @ js) = Some ((is1 @ js) @ ks)"
    "map code ks = (if is_public inp \<and> shared_area ?p then [''central_public_utility'']
                    else if is_public inp \<and> is1 @ js = [] then [''public_api''] else [])"
    using public_indicator_append by blast
  have "is1 @ js = [] \<longleftrightarrow> high_fired inp = [] \<and> dependents_fired inp = []" using 1(2) 2(2) by auto
  then have "map code ks = public_fired inp" using 3(2) by (simp add: public_fired_def)
  then show ?thesis using 1 2 3(1) by simp
qed


end
