(* ===== verification/Impact_Analysis.thy ===== *)
theory Impact_Analysis
  imports Impact_Search Impact_Risk Fact_Store Provenance Host_Fs
begin

text \<open>
  The impact analysis of a symbol, file, module or package (\<^verbatim>\<open>impact-engine/src/impact/mod.rs\<close>): resolution of the
  target, direct relationships, affected tests, modules and packages, completeness, freshness and the
  result \<open>analyze\<close> puts together from them, from the traversal of \<open>Impact_Graph\<close> and from the risk signal
  of \<open>Impact_Risk\<close>. The value \<open>None\<close> of \<open>analyze\<close> is the panic of the risk signal. \<open>to_lowercase\<close> is the
  parameter \<open>lower\<close>, the repository is the parameter \<open>Host\<close>.
\<close>

section \<open>Targets and results\<close>

datatype ImpactTarget =
    Symbol SymbolId
  | File string
  | Module ModuleId
  | Package PackageId

fun ImpactTarget_kind :: "ImpactTarget \<Rightarrow> FactKind" where
  "ImpactTarget_kind (ImpactTarget.Symbol _) = FactKind.Symbol"
| "ImpactTarget_kind (ImpactTarget.File _) = FactKind.Module"
| "ImpactTarget_kind (ImpactTarget.Module _) = FactKind.Module"
| "ImpactTarget_kind (ImpactTarget.Package _) = FactKind.Package"

record AmbiguityMatch =
  match_id :: string
  match_name :: string
  match_kind :: string
  match_path :: "string option"
  match_reason :: string

datatype ImpactStatus = Ok | Ambiguous "AmbiguityMatch list" | NotFound | Partial string | Stale

record TestReference =
  test_id :: string
  test_name :: string
  test_file :: "string option"
  test_relation :: string
  test_provenance :: ImpactProvenance

record Completeness =
  completeness_status :: string
  limitations :: "string list"

record ImpactTargetInfo =
  info_id :: string
  info_kind :: string
  info_name :: "string option"
  info_path :: "string option"

record ModuleInfo =
  mod_id :: string
  mod_name :: string
  mod_path :: "string option"
  mod_relation :: string

record PackageInfo =
  pkg_id :: string
  pkg_name :: string
  pkg_relation :: string

record EvidenceRecord =
  evidence_kind :: string
  evidence_id :: string
  evidence_name :: "string option"
  evidence_location :: "string option"
  evidence_text :: string

record ImpactResult =
  target_info :: ImpactTargetInfo
  status :: ImpactStatus
  direct_relationships :: "ImpactRelationship list"
  transitive_relationships :: "ImpactRelationship list"
  affected_tests :: "TestReference list"
  affected_modules :: "ModuleInfo list"
  affected_packages :: "PackageInfo list"
  evidence_records :: "EvidenceRecord list"
  completeness :: Completeness
  provenance_summary :: ProvenanceSummary
  traversal_metadata :: TraversalMetadata
  result_freshness :: "FreshnessStatus option"
  risk :: "RiskSignal option"

record ImpactOptions =
  max_results :: nat
  include_tests :: bool
  include_references :: bool
  opt_depth :: nat
  opt_direction :: string
  opt_relationship_types :: "string list"
  opt_max_nodes :: nat

definition MAX_DEPTH :: nat where "MAX_DEPTH = 5"
definition DEFAULT_MAX_NODES :: nat where "DEFAULT_MAX_NODES = 1000"

definition ImpactOptions_default :: ImpactOptions where
  "ImpactOptions_default = \<lparr>max_results = 0, include_tests = True, include_references = True, opt_depth = 1,
     opt_direction = ''both'', opt_relationship_types = [], opt_max_nodes = DEFAULT_MAX_NODES\<rparr>"

definition validate_opts :: "ImpactOptions \<Rightarrow> string + unit" where
  "validate_opts opts =
     (if opt_depth opts > MAX_DEPTH then
        Inl (''depth '' @ show_nat (opt_depth opts) @ '' exceeds maximum allowed depth of '' @ show_nat MAX_DEPTH)
      else if opt_direction opts \<notin> {'''', ''both'', ''outgoing'', ''incoming''} then
        Inl (''invalid direction '' @ [CHR 0x27] @ opt_direction opts @ [CHR 0x27] @ ''; use '' @ [CHR 0x27] @ ''both'' @ [CHR 0x27] @
          '', '' @ [CHR 0x27] @ ''outgoing'' @ [CHR 0x27] @ '', or '' @ [CHR 0x27] @ ''incoming'' @ [CHR 0x27])
      else case find (\<lambda>t. RelationshipKind_parse t = None \<and> t \<noteq> ''references'') (opt_relationship_types opts) of
        Some t \<Rightarrow> Inl (''unsupported relationship_type '' @ [CHR 0x27] @ t @ [CHR 0x27] @
          ''; use a known kind or '' @ [CHR 0x27] @ ''references'' @ [CHR 0x27])
      | None \<Rightarrow> Inr ())"

section \<open>Target resolution\<close>

definition symbol_info :: "SymbolFact \<Rightarrow> string option \<Rightarrow> FactId \<times> ImpactTargetInfo" where
  "symbol_info s p = (FactId.Symbol (SymbolFact.id s),
     \<lparr>info_id = id_str (SymbolFact.id s), info_kind = ''symbol'', info_name = Some (SymbolFact.name s), info_path = p\<rparr>)"

definition module_info :: "ModuleFact \<Rightarrow> FactId \<times> ImpactTargetInfo" where
  "module_info m = (FactId.Module (ModuleFact.id m),
     \<lparr>info_id = id_str (ModuleFact.id m), info_kind = ''module'', info_name = Some (ModuleFact.name m), info_path = ModuleFact.path m\<rparr>)"

fun resolve_target :: "FactCollection \<Rightarrow> ImpactTarget \<Rightarrow> (FactId \<times> ImpactTargetInfo) option" where
  "resolve_target c (ImpactTarget.Symbol i) =
     map_option (\<lambda>s. symbol_info s (loc_file (SymbolFact.location s))) (FactsModel_symbol (model c) i)"
| "resolve_target c (ImpactTarget.File p) =
     (case find (\<lambda>m. ModuleFact.path m = Some p) (FactsModel.modules (model c)) of
        Some m \<Rightarrow> Some (module_info m)
      | None \<Rightarrow> map_option (\<lambda>s. symbol_info s (Some p))
          (find (\<lambda>s. loc_file (SymbolFact.location s) = Some p) (FactsModel.symbols (model c))))"
| "resolve_target c (ImpactTarget.Module i) = map_option module_info (FactsModel_module (model c) i)"
| "resolve_target c (ImpactTarget.Package i) =
     map_option (\<lambda>p. (FactId.Package (PackageFact.id p),
       \<lparr>info_id = id_str (PackageFact.id p), info_kind = ''package'', info_name = Some (PackageFact.name p), info_path = None\<rparr>))
       (FactsModel_package (model c) i)"

fun target_label :: "ImpactTarget \<Rightarrow> string" where
  "target_label (ImpactTarget.Symbol i) = id_str i"
| "target_label (ImpactTarget.File p) = p"
| "target_label (ImpactTarget.Module i) = id_str i"
| "target_label (ImpactTarget.Package i) = id_str i"

fun file_path_opt :: "ImpactTarget \<Rightarrow> string option" where
  "file_path_opt (ImpactTarget.File p) = Some p"
| "file_path_opt _ = None"

definition resolve_symbol_name :: "(string \<Rightarrow> string) \<Rightarrow> FactStore \<Rightarrow> string \<Rightarrow> string + ImpactTarget" where
  "resolve_symbol_name lower store n =
     (let matches = map SymbolFact.id (filter (\<lambda>s. lower (SymbolFact.name s) = lower n)
            (FactsModel.symbols (model (collection store)))) in
      case matches of
        [] \<Rightarrow> Inl (''no symbol found matching '' @ [CHR 0x27] @ n @ [CHR 0x27])
      | [i] \<Rightarrow> Inr (ImpactTarget.Symbol i)
      | _ \<Rightarrow> Inl (''ambiguous symbol '' @ [CHR 0x27] @ n @ [CHR 0x27] @ '': '' @ show_nat (length matches) @ '' matches '' @
          em_dash @ '' be more specific''))"

section \<open>Direct relationships\<close>

definition direct_relationship ::
  "FloatOps \<Rightarrow> FactCollection \<Rightarrow> FactId \<Rightarrow> string \<Rightarrow> string \<Rightarrow> SourceLocation option \<Rightarrow> FactMetadata \<Rightarrow> string \<Rightarrow> ImpactRelationship" where
  "direct_relationship fl c other k dir loc md why =
     \<lparr>rel_target_id = FactId_as_str other, rel_target_name = fst (fact_name_loc c other loc), rel_kind = k,
      rel_direction = dir, rel_location = snd (fact_name_loc c other loc), rel_provenance = fact_provenance md,
      rel_depth = 1, rel_confidence = edge_confidence fl (fact_provenance md) 1, rel_reason = Some why, rel_path = []\<rparr>"

definition relationship_entry :: "FloatOps \<Rightarrow> FactCollection \<Rightarrow> FactId \<Rightarrow> string \<Rightarrow> RelationshipFact \<Rightarrow> ImpactRelationship" where
  "relationship_entry fl c other dir r =
     (let k = RelationshipKind_as_str (RelationshipFact.kind r) in
      direct_relationship fl c other k dir (RelationshipFact.location r) (RelationshipFact.metadata r) (k @ '' edge''))"

definition reference_entry :: "FloatOps \<Rightarrow> FactCollection \<Rightarrow> FactId \<Rightarrow> string \<Rightarrow> ReferenceFact \<Rightarrow> ImpactRelationship" where
  "reference_entry fl c other dir r =
     direct_relationship fl c other ''references'' dir (ReferenceFact.location r) (ReferenceFact.metadata r) ''cross-reference''"

definition gather_relationships :: "FloatOps \<Rightarrow> FactCollection \<Rightarrow> FactId \<Rightarrow> string \<Rightarrow> ImpactRelationship list" where
  "gather_relationships fl c t dir =
     (let rels = FactsModel.relationships (model c); refs = FactsModel.references (model c);
          out =
            (if dir = ''outgoing'' \<or> dir = ''both'' then
               map (\<lambda>r. relationship_entry fl c (RelationshipFact.target r) ''outgoing'' r) (filter (\<lambda>r. RelationshipFact.source r = t) rels) @
               map (\<lambda>r. reference_entry fl c (ReferenceFact.target r) ''outgoing'' r) (filter (\<lambda>r. ReferenceFact.referrer r = t) refs)
             else []) @
            (if dir = ''incoming'' \<or> dir = ''both'' then
               map (\<lambda>r. relationship_entry fl c (RelationshipFact.source r) ''incoming'' r) (filter (\<lambda>r. RelationshipFact.target r = t) rels) @
               map (\<lambda>r. reference_entry fl c (ReferenceFact.referrer r) ''incoming'' r) (filter (\<lambda>r. ReferenceFact.target r = t) refs)
             else [])
      in dedup_by_key same_edge (sort_key (\<lambda>r. (rel_kind r, rel_direction r, rel_target_id r)) out))"

section \<open>Affected tests\<close>

definition test_reference :: "TestFact \<Rightarrow> string option \<Rightarrow> string \<Rightarrow> TestReference" where
  "test_reference t f relation =
     \<lparr>test_id = id_str (TestFact.id t), test_name = TestFact.name t, test_file = f, test_relation = relation,
      test_provenance = ImpactProvenance.Verified\<rparr>"

definition tests_in :: "string \<Rightarrow> (ModuleId \<Rightarrow> bool) \<Rightarrow> TestFact list \<Rightarrow> TestReference list" where
  "tests_in relation inside ts =
     concat (map (\<lambda>t. when_some (TestFact.location t) (\<lambda>loc. when_some (SourceLocation.module loc) (\<lambda>tm.
       if inside tm then [test_reference t (loc_file loc) relation] else []))) ts)"

definition gather_tests :: "FactCollection \<Rightarrow> ImpactTarget \<Rightarrow> TestReference list" where
  "gather_tests c t =
     (let tests = FactsModel.tests (model c);
          found = (case t of
             ImpactTarget.Symbol i \<Rightarrow>
               map (\<lambda>x. test_reference x (Option.bind (TestFact.location x) loc_file) ''tests'') (filter (\<lambda>x. i \<in> set (TestFact.tested x)) tests)
           | ImpactTarget.Module i \<Rightarrow> tests_in ''in_module'' (\<lambda>m. m = i) tests
           | ImpactTarget.File p \<Rightarrow>
               when_some (find (\<lambda>m. ModuleFact.path m = Some p) (FactsModel.modules (model c)))
                 (\<lambda>m. tests_in ''in_module'' (\<lambda>tm. tm = ModuleFact.id m) tests)
           | ImpactTarget.Package i \<Rightarrow>
               tests_in ''in_package''
                 (\<lambda>tm. case FactsModel_module (model c) tm of None \<Rightarrow> False | Some m \<Rightarrow> ModuleFact.package m = Some i) tests)
      in dedup_by_key test_id (sort_key test_id found))"

section \<open>Affected modules and packages\<close>

definition as_module_id :: "FactCollection \<Rightarrow> FactId \<Rightarrow> ModuleId option" where
  "as_module_id c i =
     (case i of
        FactId.Module m \<Rightarrow> Some m
      | FactId.Symbol s \<Rightarrow> Option.bind (FactsModel_symbol (model c) s) SymbolFact.module
      | _ \<Rightarrow> None)"

definition target_mod_of :: "FactCollection \<Rightarrow> FactId \<Rightarrow> ModuleId option" where
  "target_mod_of c i = as_module_id c i"

definition module_entry :: "ModuleFact \<Rightarrow> string \<Rightarrow> ModuleInfo" where
  "module_entry m relation = \<lparr>mod_id = id_str (ModuleFact.id m), mod_name = ModuleFact.name m,
     mod_path = ModuleFact.path m, mod_relation = relation\<rparr>"

text \<open>The modules that import a module, each pushed unless it is listed already.\<close>

definition push_importer :: "FactCollection \<Rightarrow> ModuleId \<Rightarrow> RelationshipFact \<Rightarrow> ModuleInfo list \<Rightarrow> ModuleInfo list" where
  "push_importer c mid r ms =
     (if RelationshipFact.kind r = RelationshipKind.Imports \<and> as_module_id c (RelationshipFact.target r) = Some mid then
        (case Option.bind (as_module_id c (RelationshipFact.source r)) (FactsModel_module (model c)) of
           None \<Rightarrow> ms
         | Some m \<Rightarrow> if list_ex (\<lambda>x. mod_id x = id_str (ModuleFact.id m)) ms then ms else ms @ [module_entry m ''imports''])
      else ms)"

definition package_siblings :: "FactCollection \<Rightarrow> ModuleFact \<Rightarrow> ModuleId \<Rightarrow> ModuleInfo list" where
  "package_siblings c m i =
     when_some (ModuleFact.package m) (\<lambda>p. map (\<lambda>m2. module_entry m2 ''same_package'')
       (filter (\<lambda>m2. ModuleFact.package m2 = Some p \<and> ModuleFact.id m2 \<noteq> i) (FactsModel.modules (model c))))"

definition gather_modules :: "FactCollection \<Rightarrow> FactId \<Rightarrow> ImpactTarget \<Rightarrow> ModuleInfo list" where
  "gather_modules c ti t =
     (let rels = FactsModel.relationships (model c);
          found = (case t of
             ImpactTarget.Symbol i \<Rightarrow>
               (let owner = when_some (FactsModel_symbol (model c) i) (\<lambda>s. when_some (SymbolFact.module s) (\<lambda>mi.
                      when_some (FactsModel_module (model c) mi) (\<lambda>m. [module_entry m ''owns''])))
                in case target_mod_of c ti of
                     None \<Rightarrow> owner
                   | Some mid \<Rightarrow> fold (push_importer c mid) rels owner)
           | ImpactTarget.Module i \<Rightarrow>
               fold (push_importer c i) rels
                 (when_some (FactsModel_module (model c) i) (\<lambda>m. package_siblings c m i))
           | ImpactTarget.File p \<Rightarrow>
               when_some (find (\<lambda>m. ModuleFact.path m = Some p) (FactsModel.modules (model c)))
                 (\<lambda>m. package_siblings c m (ModuleFact.id m))
           | ImpactTarget.Package i \<Rightarrow>
               map (\<lambda>m. module_entry m ''member_of'') (filter (\<lambda>m. ModuleFact.package m = Some i) (FactsModel.modules (model c))))
      in dedup_by_key mod_id (sort_key mod_id found))"

definition package_entry :: "PackageFact \<Rightarrow> string \<Rightarrow> PackageInfo" where
  "package_entry p relation = \<lparr>pkg_id = id_str (PackageFact.id p), pkg_name = PackageFact.name p, pkg_relation = relation\<rparr>"

definition owning_package :: "FactCollection \<Rightarrow> ModuleFact \<Rightarrow> string \<Rightarrow> PackageInfo list" where
  "owning_package c m relation =
     when_some (ModuleFact.package m) (\<lambda>pi. when_some (FactsModel_package (model c) pi) (\<lambda>p. [package_entry p relation]))"

definition push_dependent :: "FactCollection \<Rightarrow> FactId \<Rightarrow> DependencyFact \<Rightarrow> PackageInfo list \<Rightarrow> PackageInfo list" where
  "push_dependent c ti d ps =
     (if DependencyFact.target d \<noteq> ti then ps
      else case FactCollection_find c (DependencyFact.source d) of
        Some (FactRef.Package p) \<Rightarrow>
          if list_ex (\<lambda>x. pkg_id x = id_str (PackageFact.id p)) ps then ps else ps @ [package_entry p ''depends_on'']
      | _ \<Rightarrow> ps)"

definition gather_packages :: "FactCollection \<Rightarrow> FactId \<Rightarrow> ImpactTarget \<Rightarrow> PackageInfo list" where
  "gather_packages c ti t =
     (let found = (case t of
             ImpactTarget.Symbol i \<Rightarrow>
               when_some (FactsModel_symbol (model c) i) (\<lambda>s. when_some (SymbolFact.module s) (\<lambda>mi.
                 when_some (FactsModel_module (model c) mi) (\<lambda>m. owning_package c m ''owns_module'')))
           | ImpactTarget.Module i \<Rightarrow>
               when_some (FactsModel_module (model c) i) (\<lambda>m. owning_package c m ''owns'')
           | ImpactTarget.File p \<Rightarrow>
               when_some (find (\<lambda>m. ModuleFact.path m = Some p) (FactsModel.modules (model c)))
                 (\<lambda>m. owning_package c m ''owns_module'')
           | ImpactTarget.Package i \<Rightarrow>
               fold (push_dependent c ti) (FactsModel.dependencies (model c)) [] @
               when_some (FactsModel_package (model c) i) (\<lambda>p. [package_entry p ''self'']))
      in dedup_by_key pkg_id (sort_key pkg_id found))"

section \<open>Completeness, freshness and visibility\<close>

text \<open>\<^verbatim>\<open>Path::extension\<close>: the part of the file name after its last dot, which may not be its first character.\<close>

definition path_extension :: "string \<Rightarrow> string option" where
  "path_extension p =
     Option.bind (path_file_name p) (\<lambda>f. case rfind ''.'' f of
        None \<Rightarrow> None
      | Some i \<Rightarrow> if i = 0 then None else Some (drop (Suc i) f))"

definition language_from_extension :: "string \<Rightarrow> string option" where
  "language_from_extension ext = map_of [(''rs'', ''rust''), (''py'', ''python''), (''js'', ''javascript''),
     (''ts'', ''typescript''), (''tsx'', ''tsx''), (''jsx'', ''jsx''), (''go'', ''go'')] ext"

definition build_completeness :: "FactCollection \<Rightarrow> ImpactTarget \<Rightarrow> Completeness" where
  "build_completeness c t =
     (let no_edges = FactsModel.relationships (model c) = [] \<and> FactsModel.references (model c) = [];
          k0 = (if no_edges
                then \<lparr>completeness_status = ''partial'',
                      limitations = [''no relationship or reference facts exist '' @ em_dash @ '' impact limited to scope membership'']\<rparr>
                else \<lparr>completeness_status = ''complete'', limitations = []\<rparr>)
      in case t of
           ImpactTarget.File p \<Rightarrow>
             (let ext = or_empty (path_extension p) in
              if language_from_extension ext = None
              then k0\<lparr>completeness_status := ''partial'', limitations := limitations k0 @ [''unsupported file extension: .'' @ ext]\<rparr>
              else k0)
         | _ \<Rightarrow> k0)"

definition compute_impact_freshness :: "Host \<Rightarrow> FactStore \<Rightarrow> string option \<Rightarrow> FreshnessStatus option" where
  "compute_impact_freshness h store ws =
     (case ws of
        None \<Rightarrow> None
      | Some r \<Rightarrow>
          (case (FactsModel.generation_repo_state (model (collection store)), RepoState_capture h r) of
             (Some prev, Some cur) \<Rightarrow>
               if working_tree_hash prev = working_tree_hash cur then Some FreshnessStatus.Fresh else Some FreshnessStatus.Stale
           | _ \<Rightarrow> Some FreshnessStatus.Unknown))"

definition is_target_public :: "FactCollection \<Rightarrow> FactId \<Rightarrow> bool" where
  "is_target_public c i =
     (case i of
        FactId.Symbol s \<Rightarrow> (case FactsModel_symbol (model c) s of None \<Rightarrow> False | Some f \<Rightarrow> SymbolFact.visibility f = Visibility.Public)
      | FactId.Module m \<Rightarrow> (case FactsModel_module (model c) m of None \<Rightarrow> False | Some f \<Rightarrow> ModuleFact.visibility f = Visibility.Public)
      | FactId.Package _ \<Rightarrow> True
      | _ \<Rightarrow> False)"

section \<open>The analysis\<close>

definition cap :: "nat \<Rightarrow> 'a list \<Rightarrow> 'a list" where
  "cap n xs = (if n > 0 then take n xs else xs)"

abbreviation arrow :: string where "arrow \<equiv> [CHR 0xE2, CHR 0x86, CHR 0x92]"

definition evidence_of :: "ImpactTargetInfo \<Rightarrow> ImpactRelationship \<Rightarrow> EvidenceRecord" where
  "evidence_of info r =
     \<lparr>evidence_kind = ''relationship'', evidence_id = info_id info @ arrow @ rel_target_id r,
      evidence_name = Some (rel_target_name r), evidence_location = rel_location r,
      evidence_text = (case info_name info of None \<Rightarrow> ''target'' | Some n \<Rightarrow> n) @ '' '' @ rel_kind r @ '' '' @ rel_target_name r @
        '' (depth='' @ show_nat (rel_depth r) @ '')''\<rparr>"

definition not_found_result :: "Host \<Rightarrow> FactStore \<Rightarrow> ImpactTarget \<Rightarrow> string option \<Rightarrow> ImpactResult option" where
  "not_found_result h store t ws =
     map_option (\<lambda>r. \<lparr>target_info = \<lparr>info_id = target_label t, info_kind = FactKind_as_str (ImpactTarget_kind t), info_name = None,
            info_path = file_path_opt t\<rparr>,
        status = ImpactStatus.NotFound, direct_relationships = [], transitive_relationships = [], affected_tests = [],
        affected_modules = [], affected_packages = [], evidence_records = [],
        completeness = \<lparr>completeness_status = ''unknown'', limitations = [''target not found in fact store'']\<rparr>,
        provenance_summary = ProvenanceSummary_default, traversal_metadata = TraversalMetadata_default,
        result_freshness = compute_impact_freshness h store ws, risk = Some r\<rparr>)
       (assess_risk \<lparr>risk_path = file_path_opt t, risk_name = Some (target_label t), direct_dependents = 0,
          transitive_dependents = 0, is_public = False\<rparr>)"

text \<open>The relationships by depth: none, the direct ones in both directions, or a traversal.\<close>

definition analysis_relationships ::
  "FloatOps \<Rightarrow> FactCollection \<Rightarrow> FactId \<Rightarrow> ImpactOptions \<Rightarrow>
   ImpactRelationship list \<times> ImpactRelationship list \<times> ProvenanceSummary \<times> TraversalMetadata" where
  "analysis_relationships fl c ti opts =
     (let depth = min (opt_depth opts) MAX_DEPTH;
          dir = (if opt_direction opts = [] then ''both'' else opt_direction opts);
          limit = (if opt_max_nodes opts = 0 then DEFAULT_MAX_NODES else opt_max_nodes opts)
      in if depth = 0 then
           ([], [], ProvenanceSummary_default,
            \<lparr>depth_limit = 0, meta_direction = dir, relationship_types = opt_relationship_types opts, max_nodes = limit,
             nodes_visited = 1, edges_traversed = 0, truncated = False,
             truncation_reason = Some ''depth=0, no traversal performed''\<rparr>)
         else if depth = 1 then
           (let rs = map (\<lambda>r. r\<lparr>rel_depth := 1\<rparr>) (gather_relationships fl c ti dir) in
            (rs, [], build_provenance_summary rs,
             \<lparr>depth_limit = 1, meta_direction = dir, relationship_types = opt_relationship_types opts, max_nodes = limit,
              nodes_visited = length rs + 1, edges_traversed = length rs, truncated = False, truncation_reason = None\<rparr>))
         else traverse fl c ti depth dir (opt_relationship_types opts) limit (max_results opts))"

definition note_truncation :: "TraversalMetadata \<Rightarrow> Completeness \<Rightarrow> Completeness" where
  "note_truncation meta k =
     (if truncated meta then
        \<lparr>completeness_status = (if completeness_status k = ''complete'' then ''partial'' else completeness_status k),
         limitations = limitations k @ [''traversal limited: '' @
           (case truncation_reason meta of None \<Rightarrow> ''unknown'' | Some r \<Rightarrow> r)]\<rparr>
      else k)"

definition analyze :: "FloatOps \<Rightarrow> Host \<Rightarrow> FactStore \<Rightarrow> ImpactTarget \<Rightarrow> ImpactOptions \<Rightarrow> string option \<Rightarrow> ImpactResult option" where
  "analyze fl h store t opts ws =
     (let c = collection store in
      case resolve_target c t of
        None \<Rightarrow> not_found_result h store t ws
      | Some (ti, info) \<Rightarrow>
          (let (ds, ts, summary, meta) = analysis_relationships fl c ti opts;
               rels = cap (max_results opts) ds;
               tests = (if include_tests opts then gather_tests c t else [])
           in map_option (\<lambda>r. \<lparr>target_info = info, status = ImpactStatus.Ok, direct_relationships = rels, transitive_relationships = ts,
                affected_tests = cap (max_results opts) tests,
                affected_modules = cap (max_results opts) (gather_modules c ti t),
                affected_packages = cap (max_results opts) (gather_packages c ti t),
                evidence_records = map (evidence_of info) (rels @ ts),
                completeness = note_truncation meta (build_completeness c t),
                provenance_summary = summary, traversal_metadata = meta,
                result_freshness = compute_impact_freshness h store ws, risk = Some r\<rparr>)
              (assess_risk \<lparr>risk_path = info_path info, risk_name = info_name info, direct_dependents = length rels,
                 transitive_dependents = length ts, is_public = is_target_public c ti\<rparr>)))"

section \<open>Sorting and deduplication\<close>

lemma sorted_dedup_by_key: "sorted (map f xs) \<Longrightarrow> sorted (map f (dedup_by_key k xs))"
proof (induction k xs rule: dedup_by_key.induct)
  case (1 k x y zs)
  have "set (dedup_by_key k (y # zs)) \<subseteq> set (y # zs)" by (rule set_dedup_by_key)
  then show ?case using 1 by auto
qed auto

lemma distinct_dedup_by_key:
  fixes f :: "'a \<Rightarrow> 'b::linorder"
  assumes "sorted (map f xs)" "\<And>x y. f x = f y \<longleftrightarrow> k x = k y"
  shows "distinct (map k (dedup_by_key k xs))"
  using assms
proof (induction k xs rule: dedup_by_key.induct)
  case (1 k x y zs)
  show ?case
  proof (cases "k x = k y")
    case False
    have "k x \<noteq> k z" if "z \<in> set (y # zs)" for z
    proof
      assume "k x = k z"
      then have "f x = f z" using 1(4) by blast
      moreover have "f x \<le> f y" "f y \<le> f z" using 1(3) that by auto
      ultimately show False using False 1(4) by (metis order_antisym)
    qed
    then have "k x \<notin> k ` set (dedup_by_key k (y # zs))" using set_dedup_by_key [of k "y # zs"] by blast
    then show ?thesis using 1 False by simp
  qed (use 1 in auto)
qed auto

section \<open>Limits\<close>

lemma length_cap: "0 < n \<Longrightarrow> length (cap n xs) \<le> n"
  by (simp add: cap_def)

lemma cap_results_total:
  assumes "cap_results n ds ts st why = (ds', ts', st', why')" "0 < n"
  shows "length (cap n ds') + length ts' \<le> n"
  using assms by (auto simp: cap_results_def cap_def Let_def split: if_splits)

lemma traverse_total:
  assumes "traverse fl c start depth dir tf limit n = (ds, ts, sm, meta)" "0 < n"
  shows "length (cap n ds) + length ts \<le> n"
proof -
  define s where "s = search (traverse_walk fl c depth dir tf limit) (start_traversal start)"
  obtain ds' ts' st why where c:
    "cap_results n (ranked (direct_found s)) (ranked (transitive_found s)) (cut_off s) (cut_reason s) = (ds', ts', st, why)"
    by (metis prod_cases4)
  then show ?thesis using traverse_search [OF s_def c] assms cap_results_total [OF c] by auto
qed

lemma relationships_total:
  assumes "analysis_relationships fl c ti opts = (ds, ts, sm, meta)" "0 < max_results opts"
  shows "length (cap (max_results opts) ds) + length ts \<le> max_results opts"
  using assms traverse_total length_cap [of "max_results opts" ds]
  by (auto simp: analysis_relationships_def Let_def split: if_splits)

text \<open>C29: With a positive result limit an analysis returns at most that many direct and transitive relationships together, at
  most that many tests, modules and packages each, and one evidence record per relationship.\<close>

theorem analysis_result_limit:
  assumes "analyze fl h store t opts ws = Some res" "0 < max_results opts"
  shows "length (direct_relationships res) + length (transitive_relationships res) \<le> max_results opts \<and>
    length (affected_tests res) \<le> max_results opts \<and> length (affected_modules res) \<le> max_results opts \<and>
    length (affected_packages res) \<le> max_results opts \<and>
    length (evidence_records res) = length (direct_relationships res) + length (transitive_relationships res)"
proof (cases "resolve_target (collection store) t")
  case None
  then show ?thesis using assms by (auto simp: analyze_def not_found_result_def)
next
  case (Some a)
  obtain ti info where a: "a = (ti, info)" by (cases a)
  obtain ds ts sm meta where r: "analysis_relationships fl (collection store) ti opts = (ds, ts, sm, meta)"
    by (metis prod_cases4)
  show ?thesis using relationships_total [OF r assms(2)] assms Some
    by (auto simp: analyze_def Let_def a r length_cap)
qed

section \<open>What an analysis finds\<close>

lemma declared_from:
  "{(FactId_as_str y, k, d) | y k. declared_edge c [] t k y} =
     (\<lambda>r. (FactId_as_str (RelationshipFact.target r), RelationshipKind_as_str (RelationshipFact.kind r), d)) `
       set (filter (\<lambda>r. RelationshipFact.source r = t) (FactsModel.relationships (model c))) \<union>
     (\<lambda>r. (FactId_as_str (ReferenceFact.target r), ''references'', d)) `
       set (filter (\<lambda>r. ReferenceFact.referrer r = t) (FactsModel.references (model c)))"
  unfolding declared_edge_def passes_filter_def by (intro equalityI subsetI; clarsimp; blast)

lemma declared_to:
  "{(FactId_as_str y, k, d) | y k. declared_edge c [] y k t} =
     (\<lambda>r. (FactId_as_str (RelationshipFact.source r), RelationshipKind_as_str (RelationshipFact.kind r), d)) `
       set (filter (\<lambda>r. RelationshipFact.target r = t) (FactsModel.relationships (model c))) \<union>
     (\<lambda>r. (FactId_as_str (ReferenceFact.referrer r), ''references'', d)) `
       set (filter (\<lambda>r. ReferenceFact.target r = t) (FactsModel.references (model c)))"
  unfolding declared_edge_def passes_filter_def by (intro equalityI subsetI; clarsimp; blast)

lemma entry_keys:
  "same_edge (relationship_entry fl c y d r) = (FactId_as_str y, RelationshipKind_as_str (RelationshipFact.kind r), d)"
  "same_edge (reference_entry fl c y d f) = (FactId_as_str y, ''references'', d)"
  by (simp_all add: same_edge_def relationship_entry_def reference_entry_def direct_relationship_def Let_def)

lemma gather_relationships_keys:
  "same_edge ` set (gather_relationships fl c t dir) =
     (if dir = ''outgoing'' \<or> dir = ''both'' then {(FactId_as_str y, k, ''outgoing'') | y k. declared_edge c [] t k y} else {}) \<union>
     (if dir = ''incoming'' \<or> dir = ''both'' then {(FactId_as_str y, k, ''incoming'') | y k. declared_edge c [] y k t} else {})"
  unfolding gather_relationships_def Let_def keys_dedup_by_key set_sort declared_from declared_to
  by (cases "dir = ''outgoing'' \<or> dir = ''both''"; cases "dir = ''incoming'' \<or> dir = ''both''")
    (simp_all only: if_True if_False image_Un image_image entry_keys set_append set_map list.set image_empty Un_empty_left Un_empty_right)

lemma gather_relationships_distinct: "distinct (map same_edge (gather_relationships fl c t dir))"
  unfolding gather_relationships_def Let_def
  by (rule distinct_dedup_by_key [OF sorted_sort_key]) (auto simp: same_edge_def)

lemma analyze_resolved:
  assumes "analyze fl h store t opts ws = Some res" "resolve_target (collection store) t = Some (ti, info)"
    and "analysis_relationships fl (collection store) ti opts = (ds, ts, summary, meta)"
  shows "target_info res = info \<and> status res = ImpactStatus.Ok \<and> direct_relationships res = cap (max_results opts) ds \<and>
    transitive_relationships res = ts \<and> provenance_summary res = summary \<and> traversal_metadata res = meta \<and>
    affected_tests res = cap (max_results opts) (if include_tests opts then gather_tests (collection store) t else []) \<and>
    completeness res = note_truncation meta (build_completeness (collection store) t)"
  using assms by (auto simp: analyze_def Let_def)

lemma same_edge_depth [simp]: "same_edge (r\<lparr>rel_depth := n\<rparr>) = same_edge r"
  by (simp add: same_edge_def)

lemma depth_one_relationships:
  assumes "opt_depth opts = 1" "rs = map (\<lambda>r. r\<lparr>rel_depth := 1\<rparr>)
    (gather_relationships fl c ti (if opt_direction opts = [] then ''both'' else opt_direction opts))"
  shows "\<exists>sm meta. analysis_relationships fl c ti opts = (rs, [], sm, meta) \<and> \<not> truncated meta"
  using assms by (simp add: analysis_relationships_def Let_def MAX_DEPTH_def)

lemma validated_direction: "validate_opts opts = Inr () \<Longrightarrow> opt_direction opts \<in> {[], ''both'', ''outgoing'', ''incoming''}"
  by (auto simp: validate_opts_def split: if_splits)

text \<open>C19: With validated options, depth one and no result limit, the direct relationships of the resolved target are exactly the
  declared relationships and references that leave it, unless only incoming ones are asked for, and those
  that reach it, unless only outgoing ones are asked for; each once by kind, direction and other end. The requested
  relationship types are not consulted at this depth.\<close>

theorem direct_relationships_exact:
  assumes "validate_opts opts = Inr ()" "opt_depth opts = 1" "max_results opts = 0"
    and "resolve_target (collection store) t = Some (ti, info)" "analyze fl h store t opts ws = Some res"
  shows "(\<lambda>r. (rel_target_id r, rel_kind r, rel_direction r)) ` set (direct_relationships res) =
      {(FactId_as_str y, k, ''outgoing'') | y k. opt_direction opts \<noteq> ''incoming'' \<and> declared_edge (collection store) [] ti k y} \<union>
      {(FactId_as_str y, k, ''incoming'') | y k. opt_direction opts \<noteq> ''outgoing'' \<and> declared_edge (collection store) [] y k ti} \<and>
    distinct (map (\<lambda>r. (rel_target_id r, rel_kind r, rel_direction r)) (direct_relationships res)) \<and>
    transitive_relationships res = []"
proof -
  define dir where "dir = (if opt_direction opts = [] then ''both'' else opt_direction opts)"
  define rs where "rs = gather_relationships fl (collection store) ti dir"
  obtain sm meta where a: "analysis_relationships fl (collection store) ti opts = (map (\<lambda>r. r\<lparr>rel_depth := 1\<rparr>) rs, [], sm, meta)"
    using depth_one_relationships [OF assms(2) refl] unfolding rs_def dir_def by blast
  have res: "direct_relationships res = map (\<lambda>r. r\<lparr>rel_depth := 1\<rparr>) rs" "transitive_relationships res = []"
    using analyze_resolved [OF assms(5, 4) a] assms(3) by (simp_all add: cap_def)
  have "dir = ''outgoing'' \<or> dir = ''both'' \<longleftrightarrow> opt_direction opts \<noteq> ''incoming''"
    "dir = ''incoming'' \<or> dir = ''both'' \<longleftrightarrow> opt_direction opts \<noteq> ''outgoing''"
    using validated_direction [OF assms(1)] by (auto simp: dir_def)
  then have "same_edge ` set rs =
      {(FactId_as_str y, k, ''outgoing'') | y k. opt_direction opts \<noteq> ''incoming'' \<and> declared_edge (collection store) [] ti k y} \<union>
      {(FactId_as_str y, k, ''incoming'') | y k. opt_direction opts \<noteq> ''outgoing'' \<and> declared_edge (collection store) [] y k ti}"
    unfolding rs_def gather_relationships_keys by auto
  moreover have "distinct (map same_edge rs)" unfolding rs_def by (rule gather_relationships_distinct)
  ultimately have "same_edge ` set (direct_relationships res) =
      {(FactId_as_str y, k, ''outgoing'') | y k. opt_direction opts \<noteq> ''incoming'' \<and> declared_edge (collection store) [] ti k y} \<union>
      {(FactId_as_str y, k, ''incoming'') | y k. opt_direction opts \<noteq> ''outgoing'' \<and> declared_edge (collection store) [] y k ti}"
    "distinct (map same_edge (direct_relationships res))"
    unfolding res by (simp_all add: image_image comp_def)
  then show ?thesis using res(2) unfolding same_edge_def [abs_def] by blast
qed

text \<open>At depth one a result limit drops relationships without a trace: the metadata do not say truncated and the
  completeness is the one of the store, although the documentation of the limit at greater depths reports it.\<close>

theorem direct_cut_is_silent:
  assumes "opt_depth opts = 1" "0 < max_results opts"
    and "resolve_target (collection store) t = Some (ti, info)" "analyze fl h store t opts ws = Some res"
    and "max_results opts < length (gather_relationships fl (collection store) ti
           (if opt_direction opts = [] then ''both'' else opt_direction opts))"
  shows "length (direct_relationships res) = max_results opts \<and> \<not> truncated (traversal_metadata res) \<and>
    completeness res = build_completeness (collection store) t"
proof -
  from depth_one_relationships [OF assms(1) refl, of fl "collection store" ti]
  obtain sm meta where a: "analysis_relationships fl (collection store) ti opts =
      (map (\<lambda>r. r\<lparr>rel_depth := 1\<rparr>) (gather_relationships fl (collection store) ti
         (if opt_direction opts = [] then ''both'' else opt_direction opts)), [], sm, meta)" "\<not> truncated meta" by blast
  show ?thesis using analyze_resolved [OF assms(4, 3) a(1)] a(2) assms(2, 5) by (simp add: cap_def note_truncation_def)
qed

text \<open>Which tests an analysis should name.\<close>

definition test_module :: "TestFact \<Rightarrow> ModuleId option" where
  "test_module x = Option.bind (TestFact.location x) SourceLocation.module"

definition test_covers :: "FactCollection \<Rightarrow> ImpactTarget \<Rightarrow> TestFact \<Rightarrow> bool" where
  "test_covers c t x \<longleftrightarrow>
     (case t of
        ImpactTarget.Symbol i \<Rightarrow> i \<in> set (TestFact.tested x)
      | ImpactTarget.Module i \<Rightarrow> test_module x = Some i
      | ImpactTarget.File p \<Rightarrow>
          (case find (\<lambda>m. ModuleFact.path m = Some p) (FactsModel.modules (model c)) of
             None \<Rightarrow> False | Some m \<Rightarrow> test_module x = Some (ModuleFact.id m))
      | ImpactTarget.Package i \<Rightarrow>
          (case Option.bind (test_module x) (FactsModel_module (model c)) of
             None \<Rightarrow> False | Some m \<Rightarrow> ModuleFact.package m = Some i))"

lemma tests_in_ids:
  "test_id ` set (tests_in rel inside ts) =
     (\<lambda>x. id_str (TestFact.id x)) ` {x \<in> set ts. \<exists>m. test_module x = Some m \<and> inside m}"
proof -
  have "test_id ` set (when_some (TestFact.location x) (\<lambda>loc. when_some (SourceLocation.module loc)
        (\<lambda>tm. if inside tm then [test_reference x (loc_file loc) rel] else []))) =
      (if \<exists>m. test_module x = Some m \<and> inside m then {id_str (TestFact.id x)} else {})" for x
    by (cases "TestFact.location x"; cases "test_module x") (auto simp: test_module_def when_some_def test_reference_def)
  then show ?thesis unfolding tests_in_def set_concat set_map image_Union image_image by auto
qed

lemma gather_tests_ids:
  "test_id ` set (gather_tests c t) = (\<lambda>x. id_str (TestFact.id x)) ` {x \<in> set (FactsModel.tests (model c)). test_covers c t x}"
proof (cases t)
  case (Symbol i)
  then show ?thesis
    by (auto simp: gather_tests_def Let_def keys_dedup_by_key test_covers_def test_reference_def image_image)
next
  case (File p)
  then show ?thesis
    by (cases "find (\<lambda>m. ModuleFact.path m = Some p) (FactsModel.modules (model c))")
      (simp_all add: gather_tests_def Let_def keys_dedup_by_key test_covers_def when_some_def tests_in_ids)
next
  case (Module i)
  then show ?thesis by (simp add: gather_tests_def Let_def keys_dedup_by_key test_covers_def tests_in_ids)
next
  case (Package i)
  have "(\<exists>m. test_module x = Some m \<and> (case FactsModel_module (model c) m of None \<Rightarrow> False | Some m \<Rightarrow> ModuleFact.package m = Some i)) \<longleftrightarrow>
      test_covers c t x" for x
    unfolding Package test_covers_def by (cases "test_module x") auto
  then show ?thesis using Package by (simp add: gather_tests_def Let_def keys_dedup_by_key tests_in_ids)
qed

text \<open>C28: When tests are asked for and results are not limited, the affected tests are exactly the tests that cover the target:
  those that list the symbol, those in the module, those in the first module with the path of the file, or those in a
  module of the package; each once, ordered by id.\<close>

theorem affected_tests_exact:
  assumes "resolve_target (collection store) t = Some (ti, info)" "analyze fl h store t opts ws = Some res"
    and "include_tests opts" "max_results opts = 0"
  shows "test_id ` set (affected_tests res) =
      (\<lambda>x. id_str (TestFact.id x)) ` {x \<in> set (FactsModel.tests (model (collection store))). test_covers (collection store) t x} \<and>
    sorted (map test_id (affected_tests res)) \<and> distinct (map test_id (affected_tests res))"
proof -
  obtain ds ts sm meta where a: "analysis_relationships fl (collection store) ti opts = (ds, ts, sm, meta)"
    by (metis prod_cases4)
  have r: "affected_tests res = gather_tests (collection store) t"
    using analyze_resolved [OF assms(2, 1) a] assms(3, 4) by (simp add: cap_def)
  have "sorted (map test_id (gather_tests (collection store) t))" "distinct (map test_id (gather_tests (collection store) t))"
    unfolding gather_tests_def Let_def
    by (rule sorted_dedup_by_key [OF sorted_sort_key], rule distinct_dedup_by_key [OF sorted_sort_key]) simp
  then show ?thesis unfolding r gather_tests_ids by blast
qed

section \<open>A sample store\<close>

definition sample_impact_store :: FactStore where
  "sample_impact_store = FactStore_build (FactsBuilder_build
     (FactsBuilder_add_test
       (FactsBuilder_add_relationship (FactsBuilder_add_relationship
         (FactsBuilder_add_symbol (FactsBuilder_add_symbol FactsBuilder_new
           (SymbolFact_new (OpaqueId ''a'') ''run'' SymbolKind.Function)) (SymbolFact_new (OpaqueId ''b'') ''stop'' SymbolKind.Function))
         (RelationshipFact_new (OpaqueId ''r1'') RelationshipKind.Calls (symbol_node ''a'') (symbol_node ''b'')))
         (RelationshipFact_new (OpaqueId ''r2'') RelationshipKind.Imports (symbol_node ''b'') (symbol_node ''a'')))
       (TestFact_new (OpaqueId ''t'') ''runs''\<lparr>TestFact.tested := [OpaqueId ''a'']\<rparr>)))"

abbreviation sample_target :: ImpactTarget where
  "sample_target \<equiv> ImpactTarget.Symbol (OpaqueId ''a'')"

abbreviation sample_analysis :: "ImpactOptions \<Rightarrow> ImpactResult option" where
  "sample_analysis opts \<equiv> analyze exact_floats (sample_host []) sample_impact_store sample_target opts None"

lemma sample_resolved:
  "resolve_target (collection sample_impact_store) sample_target =
     Some (symbol_node ''a'', \<lparr>info_id = ''a'', info_kind = ''symbol'', info_name = Some ''run'', info_path = None\<rparr>)"
  by code_simp

lemma sample_analyzed: "sample_analysis ImpactOptions_default \<noteq> None" "sample_analysis (ImpactOptions_default\<lparr>max_results := 1\<rparr>) \<noteq> None"
  by code_simp+

theorem analysis_result_limit_witness:
  "\<exists>res. sample_analysis (ImpactOptions_default\<lparr>max_results := 1\<rparr>) = Some res \<and>
     length (direct_relationships res) + length (transitive_relationships res) \<le> 1"
proof -
  obtain res where r: "sample_analysis (ImpactOptions_default\<lparr>max_results := 1\<rparr>) = Some res" using sample_analyzed(2) by blast
  show ?thesis using analysis_result_limit [OF r] r by (simp add: ImpactOptions_default_def)
qed

theorem direct_relationships_exact_witness:
  "\<exists>res. sample_analysis ImpactOptions_default = Some res \<and> declared_edge (collection sample_impact_store) [] (symbol_node ''a'') ''calls'' (symbol_node ''b'') \<and>
     (''b'', ''calls'', ''outgoing'') \<in> (\<lambda>r. (rel_target_id r, rel_kind r, rel_direction r)) ` set (direct_relationships res)"
proof -
  obtain res where r: "sample_analysis ImpactOptions_default = Some res" using sample_analyzed(1) by blast
  have v: "validate_opts ImpactOptions_default = Inr ()" by code_simp
  have "RelationshipFact_new (OpaqueId ''r1'') RelationshipKind.Calls (symbol_node ''a'') (symbol_node ''b'') \<in>
      set (FactsModel.relationships (model (collection sample_impact_store)))" by code_simp
  then have d: "declared_edge (collection sample_impact_store) [] (symbol_node ''a'') ''calls'' (symbol_node ''b'')"
    by (auto simp: declared_edge_def passes_filter_def RelationshipFact_new_def intro!: bexI)
  have "(''b'', ''calls'', ''outgoing'') \<in> (\<lambda>r. (rel_target_id r, rel_kind r, rel_direction r)) ` set (direct_relationships res)"
    using direct_relationships_exact [OF v _ _ sample_resolved r] d by (simp add: ImpactOptions_default_def) force
  then show ?thesis using r d by blast
qed

theorem direct_cut_is_silent_witness:
  "\<exists>res. sample_analysis (ImpactOptions_default\<lparr>max_results := 1\<rparr>) = Some res \<and> length (direct_relationships res) = 1 \<and>
     \<not> truncated (traversal_metadata res) \<and> completeness_status (completeness res) = ''complete''"
proof -
  obtain res where r: "sample_analysis (ImpactOptions_default\<lparr>max_results := 1\<rparr>) = Some res" using sample_analyzed(2) by blast
  have "1 < length (gather_relationships exact_floats (collection sample_impact_store) (symbol_node ''a'') ''both'')" by code_simp
  then have c: "length (direct_relationships res) = 1 \<and> \<not> truncated (traversal_metadata res) \<and>
      completeness res = build_completeness (collection sample_impact_store) sample_target"
    using direct_cut_is_silent [OF _ _ sample_resolved r] by (simp add: ImpactOptions_default_def)
  have "completeness_status (build_completeness (collection sample_impact_store) sample_target) = ''complete''" by code_simp
  then show ?thesis using r c by simp
qed

theorem affected_tests_exact_witness:
  "\<exists>res. sample_analysis ImpactOptions_default = Some res \<and> ''t'' \<in> test_id ` set (affected_tests res)"
proof -
  obtain res where r: "sample_analysis ImpactOptions_default = Some res" using sample_analyzed(1) by blast
  have "TestFact_new (OpaqueId ''t'') ''runs''\<lparr>TestFact.tested := [OpaqueId ''a'']\<rparr> \<in>
      set (FactsModel.tests (model (collection sample_impact_store)))" by code_simp
  then have "''t'' \<in> (\<lambda>x. id_str (TestFact.id x)) ` {x \<in> set (FactsModel.tests (model (collection sample_impact_store))).
      test_covers (collection sample_impact_store) sample_target x}"
    by (rule_tac image_eqI) (auto simp: test_covers_def TestFact_new_def)
  then show ?thesis using affected_tests_exact [OF sample_resolved r] r by (simp add: ImpactOptions_default_def)
qed

end
