(* ===== verification/Impact_Health.thy ===== *)
theory Impact_Health
  imports Rust_Values Fact_Store_Validation
begin

text \<open>
  Health findings of a fact store (\<^verbatim>\<open>impact-engine/src/impact/health.rs\<close>): the module graph projected from relationships,
  fan-out and fan-in, dependency cycles by depth-first search, orphans, broken indexes, large and untested
  modules. A \<^verbatim>\<open>BTreeSet\<close> is a sorted list without duplicates, a \<^verbatim>\<open>BTreeMap\<close> of sets an association list sorted by key.

  The recursion of the depth-first search has fuel for its depth. The lemmas show that one more
  than the number of nodes is enough, that every reported cycle is one, and that a cycle is reported
  exactly when the module graph has one.
\<close>

section \<open>Findings\<close>

datatype FindingType =
    Cycle | HighFanout | HighFanin | Orphan | UnresolvedReference | StaleIndex | MissingTestAssociation | LargeModule | BoundaryCrossing

fun FindingType_as_str :: "FindingType \<Rightarrow> string" where
  "FindingType_as_str Cycle = ''CYCLE''"
| "FindingType_as_str HighFanout = ''HIGH_FANOUT''"
| "FindingType_as_str HighFanin = ''HIGH_FANIN''"
| "FindingType_as_str Orphan = ''ORPHAN''"
| "FindingType_as_str UnresolvedReference = ''UNRESOLVED_REFERENCE''"
| "FindingType_as_str StaleIndex = ''STALE_INDEX''"
| "FindingType_as_str MissingTestAssociation = ''MISSING_TEST_ASSOCIATION''"
| "FindingType_as_str LargeModule = ''LARGE_MODULE''"
| "FindingType_as_str BoundaryCrossing = ''BOUNDARY_CROSSING''"

datatype FindingSeverity = Info | Warning | Error

fun FindingSeverity_as_str :: "FindingSeverity \<Rightarrow> string" where
  "FindingSeverity_as_str FindingSeverity.Info = ''info''"
| "FindingSeverity_as_str FindingSeverity.Warning = ''warning''"
| "FindingSeverity_as_str FindingSeverity.Error = ''error''"

record HealthFinding =
  finding_type :: FindingType
  finding_severity :: FindingSeverity
  finding_evidence :: string
  finding_location :: "string option"
  finding_confidence :: f64

definition HIGH_FANOUT_THRESHOLD :: nat where "HIGH_FANOUT_THRESHOLD = 20"
definition HIGH_FANIN_THRESHOLD :: nat where "HIGH_FANIN_THRESHOLD = 20"
definition LARGE_MODULE_SYMBOLS :: nat where "LARGE_MODULE_SYMBOLS = 100"
definition DEFAULT_FINDING_LIMIT :: nat where "DEFAULT_FINDING_LIMIT = 50"

section \<open>The module graph\<close>

type_synonym degree_map = "(string \<times> string list) list"

text \<open>\<^verbatim>\<open>map.entry(k).or_default().insert(v)\<close>.\<close>

fun degree_insert :: "string \<Rightarrow> string \<Rightarrow> degree_map \<Rightarrow> degree_map" where
  "degree_insert k v [] = [(k, [v])]"
| "degree_insert k v ((k', vs) # r) =
     (if k = k' then (k', insort_insert v vs) # r
      else if k < k' then (k, [v]) # (k', vs) # r
      else (k', vs) # degree_insert k v r)"

definition symbol_modules :: "FactCollection \<Rightarrow> string \<Rightarrow> string option" where
  "symbol_modules c =
     fold (\<lambda>s m. case SymbolFact.module s of None \<Rightarrow> m | Some x \<Rightarrow> m(id_str (SymbolFact.id s) \<mapsto> id_str x))
       (FactsModel.symbols (model c)) (\<lambda>_. None)"

definition endpoint_module :: "FactCollection \<Rightarrow> FactId \<Rightarrow> string option" where
  "endpoint_module c i =
     (case i of
        FactId.Symbol s \<Rightarrow> symbol_modules c (id_str s)
      | FactId.Module m \<Rightarrow> Some (id_str m)
      | _ \<Rightarrow> None)"

definition module_edge :: "FactCollection \<Rightarrow> RelationshipFact \<Rightarrow> (string \<times> string) option" where
  "module_edge c r =
     (if RelationshipFact.kind r \<in> {RelationshipKind.Calls, RelationshipKind.Imports, RelationshipKind.DependsOn, RelationshipKind.References}
      then (case (endpoint_module c (RelationshipFact.source r), endpoint_module c (RelationshipFact.target r)) of
              (Some a, Some b) \<Rightarrow> if a = b then None else Some (a, b)
            | _ \<Rightarrow> None)
      else None)"

definition degree_maps :: "FactCollection \<Rightarrow> degree_map \<times> degree_map" where
  "degree_maps c =
     fold (\<lambda>r (outs, ins). case module_edge c r of
         None \<Rightarrow> (outs, ins)
       | Some (a, b) \<Rightarrow> (degree_insert a b outs, degree_insert b a ins))
       (FactsModel.relationships (model c)) ([], [])"

section \<open>Cycles\<close>

record Dfs =
  dfs_visited :: "string set"
  dfs_stack :: "string list"
  on_stack :: "string set"
  cycles :: "string list list"

definition successors :: "degree_map \<Rightarrow> string \<Rightarrow> string list" where
  "successors g x = (case map_of g x of None \<Rightarrow> [] | Some ys \<Rightarrow> sort ys)"

definition record_cycle :: "string \<Rightarrow> Dfs \<Rightarrow> Dfs" where
  "record_cycle x s =
     (let cycle = sort_dedup (if x \<in> set (dfs_stack s) then dropWhile (\<lambda>y. y \<noteq> x) (dfs_stack s) else dfs_stack s) in
      if length cycle \<ge> 2 then s\<lparr>cycles := insort_insert cycle (cycles s)\<rparr> else s)"

fun dfs_loop :: "(string \<Rightarrow> Dfs \<Rightarrow> Dfs option) \<Rightarrow> string list \<Rightarrow> Dfs \<Rightarrow> Dfs option" where
  "dfs_loop visit [] s = Some s"
| "dfs_loop visit (x # xs) s =
     (if length (cycles s) \<ge> 8 then Some s
      else if x \<in> on_stack s then dfs_loop visit xs (record_cycle x s)
      else if x \<in> dfs_visited s then dfs_loop visit xs s
      else Option.bind (visit x s) (dfs_loop visit xs))"

fun dfs :: "nat \<Rightarrow> degree_map \<Rightarrow> string \<Rightarrow> Dfs \<Rightarrow> Dfs option" where
  "dfs 0 g x s = None"
| "dfs (Suc n) g x s =
     map_option (\<lambda>s'. s'\<lparr>dfs_stack := butlast (dfs_stack s'), on_stack := on_stack s' - {x}\<rparr>)
       (dfs_loop (dfs n g) (successors g x)
          (s\<lparr>dfs_visited := insert x (dfs_visited s), dfs_stack := dfs_stack s @ [x], on_stack := insert x (on_stack s)\<rparr>))"

fun dfs_roots :: "nat \<Rightarrow> degree_map \<Rightarrow> string list \<Rightarrow> Dfs \<Rightarrow> Dfs option" where
  "dfs_roots n g [] s = Some s"
| "dfs_roots n g (x # xs) s =
     (if length (cycles s) \<ge> 8 then Some s
      else if x \<in> dfs_visited s then dfs_roots n g xs s
      else Option.bind (dfs n g x s) (dfs_roots n g xs))"

definition graph_node_list :: "degree_map \<Rightarrow> degree_map \<Rightarrow> string list" where
  "graph_node_list outs ins = sort_dedup (map fst outs @ map fst ins)"

definition find_cycles :: "degree_map \<Rightarrow> degree_map \<Rightarrow> string list list option" where
  "find_cycles outs ins =
     (let nodes = graph_node_list outs ins in
      map_option cycles
        (dfs_roots (length nodes + 1) outs nodes \<lparr>dfs_visited = {}, dfs_stack = [], on_stack = {}, cycles = []\<rparr>))"

section \<open>The analysis\<close>

definition finding :: "FindingType \<Rightarrow> FindingSeverity \<Rightarrow> string \<Rightarrow> string option \<Rightarrow> f64 \<Rightarrow> HealthFinding" where
  "finding t sev ev loc conf = \<lparr>finding_type = t, finding_severity = sev, finding_evidence = ev,
     finding_location = loc, finding_confidence = conf\<rparr>"

definition stale_findings :: "(rat \<Rightarrow> f64) \<Rightarrow> bool \<Rightarrow> HealthFinding list" where
  "stale_findings rnd stale =
     (if stale then [finding StaleIndex FindingSeverity.Warning
        ''fact store generation state differs from current repository state; reindex to refresh'' None (rnd (9 / 10))] else [])"

definition degree_findings :: "(rat \<Rightarrow> f64) \<Rightarrow> degree_map \<Rightarrow> degree_map \<Rightarrow> HealthFinding list" where
  "degree_findings rnd outs ins =
     map (\<lambda>(m, ts). finding HighFanout FindingSeverity.Info
        (''module depends on '' @ show_nat (length ts) @ '' distinct modules'') (Some m) (rnd (85 / 100)))
       (filter (\<lambda>(m, ts). length ts \<ge> HIGH_FANOUT_THRESHOLD) outs) @
     map (\<lambda>(m, ts). finding HighFanin FindingSeverity.Info
        (''module is depended on by '' @ show_nat (length ts) @ '' distinct modules'') (Some m) (rnd (85 / 100)))
       (filter (\<lambda>(m, ts). length ts \<ge> HIGH_FANIN_THRESHOLD) ins)"

definition cycle_finding :: "(rat \<Rightarrow> f64) \<Rightarrow> string list \<Rightarrow> HealthFinding" where
  "cycle_finding rnd cy = finding Cycle FindingSeverity.Warning
     (''dependency cycle among '' @ show_nat (length cy) @ '' modules'') (Some (join '' -> '' cy)) (rnd (9 / 10))"

definition has_degree :: "degree_map \<Rightarrow> string \<Rightarrow> bool" where
  "has_degree g m \<longleftrightarrow> (case map_of g m of None \<Rightarrow> False | Some ts \<Rightarrow> ts \<noteq> [])"

definition expected_isolated :: "string \<Rightarrow> bool" where
  "expected_isolated p \<longleftrightarrow> ends_with_str ''.md'' p \<or> p = ''Cargo.toml'' \<or> occurs_in ''config'' p"

definition orphan_findings :: "(rat \<Rightarrow> f64) \<Rightarrow> FactCollection \<Rightarrow> degree_map \<Rightarrow> degree_map \<Rightarrow> HealthFinding list" where
  "orphan_findings rnd c outs ins =
     map (\<lambda>m. finding Orphan FindingSeverity.Info ''module has no dependency edges in either direction''
        (Some (id_str (ModuleFact.id m))) (rnd (6 / 10)))
       (filter (\<lambda>m. \<not> has_degree outs (id_str (ModuleFact.id m)) \<and> \<not> has_degree ins (id_str (ModuleFact.id m)) \<and>
          \<not> expected_isolated (case ModuleFact.path m of None \<Rightarrow> [] | Some p \<Rightarrow> p)) (FactsModel.modules (model c)))"

definition broken_findings :: "(rat \<Rightarrow> f64) \<Rightarrow> FactStore \<Rightarrow> HealthFinding list" where
  "broken_findings rnd store =
     (let broken = FactValidationReport_count_by_rule (FactValidation_validate store) FactValidationRule.BrokenIndex in
      if broken > 0 then
        [finding UnresolvedReference FindingSeverity.Warning
          (show_nat broken @ '' broken-index validation issue(s): edges reference missing facts'') None (rnd (95 / 100))]
      else [])"

definition module_symbol_count :: "FactCollection \<Rightarrow> string \<Rightarrow> nat" where
  "module_symbol_count c m = length (filter (\<lambda>s. map_option id_str (SymbolFact.module s) = Some m) (FactsModel.symbols (model c)))"

definition tested_modules :: "FactCollection \<Rightarrow> string list" where
  "tested_modules c =
     concat (map (\<lambda>t.
       concat (map (\<lambda>i. when_some (symbol_modules c (id_str i)) (\<lambda>m. [m])) (TestFact.tested t)) @
       (case TestFact.target t of
          Some (FactId.Symbol i) \<Rightarrow> when_some (symbol_modules c (id_str i)) (\<lambda>m. [m])
        | _ \<Rightarrow> [])) (FactsModel.tests (model c)))"

definition module_findings :: "(rat \<Rightarrow> f64) \<Rightarrow> FactCollection \<Rightarrow> HealthFinding list" where
  "module_findings rnd c =
     concat (map (\<lambda>m.
       let i = id_str (ModuleFact.id m); n = module_symbol_count c i;
           p = (case ModuleFact.path m of None \<Rightarrow> [] | Some p \<Rightarrow> p) in
       (if n \<ge> LARGE_MODULE_SYMBOLS then
          [finding LargeModule FindingSeverity.Info
            (''module contains '' @ show_nat n @ '' symbols (>= '' @ show_nat LARGE_MODULE_SYMBOLS @ '')'') (Some i) (rnd (8 / 10))]
        else []) @
       (if \<not> occurs_in ''test'' p \<and> \<not> (ends_with_str ''.md'' p \<or> ends_with_str ''.toml'' p \<or> ends_with_str ''.json'' p) \<and>
           n > 0 \<and> i \<notin> set (tested_modules c) then
          [finding MissingTestAssociation FindingSeverity.Info
            (''source module with '' @ show_nat n @ '' symbol(s) has no linked test'') (Some i) (rnd (65 / 100))]
        else [])) (FactsModel.modules (model c)))"

definition finding_order :: "HealthFinding \<Rightarrow> string \<times> string \<times> string" where
  "finding_order f = (FindingType_as_str (finding_type f),
     (case finding_location f of None \<Rightarrow> [] | Some l \<Rightarrow> l), finding_evidence f)"

definition finding_cap :: "nat \<Rightarrow> nat" where
  "finding_cap limit = (if limit = 0 then DEFAULT_FINDING_LIMIT else min limit 500)"

definition analyze_health :: "(rat \<Rightarrow> f64) \<Rightarrow> FactStore \<Rightarrow> bool \<Rightarrow> nat \<Rightarrow> HealthFinding list option" where
  "analyze_health rnd store stale limit =
     (let c = collection store; (outs, ins) = degree_maps c in
      map_option (\<lambda>cs.
        take (finding_cap limit) (sort_key finding_order
          (stale_findings rnd stale @ degree_findings rnd outs ins @ map (cycle_finding rnd) cs @
           orphan_findings rnd c outs ins @ broken_findings rnd store @ module_findings rnd c)))
        (find_cycles outs ins))"

section \<open>The search decides acyclicity\<close>

definition succ_rel :: "degree_map \<Rightarrow> (string \<times> string) set" where
  "succ_rel g = {(x, y). y \<in> set (successors g x)}"

definition on_one_cycle :: "degree_map \<Rightarrow> string list \<Rightarrow> bool" where
  "on_one_cycle g c \<longleftrightarrow> 2 \<le> length c \<and> (\<forall>a \<in> set c. \<forall>b \<in> set c. (a, b) \<in> (succ_rel g)\<^sup>+)"

definition finished :: "Dfs \<Rightarrow> string set" where
  "finished s = dfs_visited s - on_stack s"

definition dfs_inv :: "degree_map \<Rightarrow> string set \<Rightarrow> Dfs \<Rightarrow> bool" where
  "dfs_inv g N s \<longleftrightarrow>
     set (dfs_stack s) = on_stack s \<and> distinct (dfs_stack s) \<and> on_stack s \<subseteq> dfs_visited s \<and> dfs_visited s \<subseteq> N \<and>
     successively (\<lambda>a b. (a, b) \<in> succ_rel g) (dfs_stack s) \<and> length (cycles s) \<le> 8 \<and>
     (\<forall>c \<in> set (cycles s). on_one_cycle g c) \<and>
     (cycles s = [] \<longrightarrow> succ_rel g `` finished s \<subseteq> finished s \<and> (\<forall>x \<in> finished s. (x, x) \<notin> (succ_rel g)\<^sup>+))"

definition dfs_after :: "degree_map \<Rightarrow> string set \<Rightarrow> Dfs \<Rightarrow> Dfs \<Rightarrow> bool" where
  "dfs_after g N s s' \<longleftrightarrow> dfs_inv g N s' \<and> dfs_stack s' = dfs_stack s \<and> dfs_visited s \<subseteq> dfs_visited s' \<and> (cycles s' = [] \<longrightarrow> cycles s = [])"

lemma dfs_after_trans: "dfs_after g N s s1 \<Longrightarrow> dfs_after g N s1 s2 \<Longrightarrow> dfs_after g N s s2"
  unfolding dfs_after_def by auto

lemma dfs_after_stack: "dfs_after g N s s' \<Longrightarrow> dfs_inv g N s \<Longrightarrow> on_stack s' = on_stack s"
  unfolding dfs_after_def dfs_inv_def by metis

lemma successively_hd_reaches: "successively (\<lambda>a b. (a, b) \<in> R) xs \<Longrightarrow> b \<in> set xs \<Longrightarrow> (hd xs, b) \<in> R\<^sup>*"
  by (induction xs rule: induct_list012) (auto intro: converse_rtrancl_into_rtrancl)

lemma successively_reaches_last: "successively (\<lambda>a b. (a, b) \<in> R) xs \<Longrightarrow> \<forall>a \<in> set xs. (a, last xs) \<in> R\<^sup>*"
  by (induction xs rule: induct_list012) (auto intro: converse_rtrancl_into_rtrancl)

lemma hd_dropWhile_neq: "x \<in> set xs \<Longrightarrow> hd (dropWhile (\<lambda>y. y \<noteq> x) xs) = x"
  by (induction xs) auto

lemma back_edge_cycle:
  assumes "dfs_inv g N s" "x \<in> on_stack s" "(last (dfs_stack s), x) \<in> succ_rel g" "last (dfs_stack s) \<noteq> x" "length (cycles s) < 8"
  shows "dfs_inv g N (record_cycle x s)" "cycles (record_cycle x s) \<noteq> []"
proof -
  let ?st = "dfs_stack s" and ?d = "dropWhile (\<lambda>y. y \<noteq> x) (dfs_stack s)" and ?E = "succ_rel g"
  have x: "x \<in> set ?st" using assms(1, 2) by (simp add: dfs_inv_def)
  then have d: "?d \<noteq> []" "hd ?d = x" by (auto simp: dropWhile_eq_Nil_conv hd_dropWhile_neq)
  have split: "?st = takeWhile (\<lambda>y. y \<noteq> x) ?st @ ?d" by simp
  have last: "last ?d = last ?st" using d(1) last_appendR [of ?d "takeWhile (\<lambda>y. y \<noteq> x) ?st"] by simp
  have succ: "successively (\<lambda>a b. (a, b) \<in> ?E) ?d"
    using assms(1) split successively_append_iff unfolding dfs_inv_def by metis
  have "(a, b) \<in> ?E\<^sup>+" if "a \<in> set ?d" "b \<in> set ?d" for a b
  proof -
    have "(a, last ?st) \<in> ?E\<^sup>*" using successively_reaches_last [OF succ] that(1) last by simp
    moreover have "(x, b) \<in> ?E\<^sup>*" using successively_hd_reaches [OF succ that(2)] d(2) by simp
    ultimately show ?thesis using assms(3) by (meson rtrancl_into_trancl1 trancl_rtrancl_trancl)
  qed
  moreover have "2 \<le> length (sort_dedup ?d)"
  proof -
    have "hd ?d \<in> set ?d" "last ?d \<in> set ?d" using hd_in_set [OF d(1)] last_in_set [OF d(1)] by blast+
    then have "{x, last ?st} \<subseteq> set (sort_dedup ?d)" unfolding d(2) last by simp
    then have "card {x, last ?st} \<le> card (set (sort_dedup ?d))" by (intro card_mono) auto
    then have "card {x, last ?st} \<le> length (sort_dedup ?d)" by (simp only: distinct_card [OF distinct_sort_dedup])
    then show ?thesis using assms(4) by simp
  qed
  ultimately have c: "on_one_cycle g (sort_dedup ?d)" "2 \<le> length (sort_dedup ?d)" by (simp_all add: on_one_cycle_def)
  have r: "record_cycle x s = s\<lparr>cycles := insort_insert (sort_dedup ?d) (cycles s)\<rparr>"
    using x c(2) by (simp add: record_cycle_def Let_def)
  have ne: "cycles (record_cycle x s) \<noteq> []" unfolding r by (simp add: set_insort_insert flip: set_empty)
  have "length (insort_insert (sort_dedup ?d) (cycles s)) \<le> 8"
    using assms(5) by (simp add: insort_insert_key_def)
  then show "dfs_inv g N (record_cycle x s)"
    using assms(1) c(1) ne unfolding dfs_inv_def r by (auto simp: set_insort_insert finished_def)
  show "cycles (record_cycle x s) \<noteq> []" by (rule ne)
qed

lemma dfs_loop_correct:
  assumes visit: "\<And>x s. dfs_inv g N s \<Longrightarrow> dfs_stack s = st \<Longrightarrow> x \<notin> dfs_visited s \<Longrightarrow> (last st, x) \<in> succ_rel g \<Longrightarrow>
      \<exists>s'. visit x s = Some s' \<and> dfs_after g N s s' \<and> x \<in> dfs_visited s'"
    and "st \<noteq> []" "irrefl (succ_rel g)"
  shows "dfs_inv g N s \<Longrightarrow> dfs_stack s = st \<Longrightarrow> \<forall>x \<in> set xs. (last st, x) \<in> succ_rel g \<Longrightarrow>
    \<exists>s'. dfs_loop visit xs s = Some s' \<and> dfs_after g N s s' \<and> (cycles s' = [] \<longrightarrow> set xs \<subseteq> finished s')"
proof (induction xs arbitrary: s)
  case Nil
  then show ?case by (simp add: dfs_after_def)
next
  case (Cons x xs)
  have edge: "(last st, x) \<in> succ_rel g" using Cons.prems(3) by simp
  consider (full) "length (cycles s) \<ge> 8" | (on_path) "length (cycles s) < 8" "x \<in> on_stack s"
    | (seen) "length (cycles s) < 8" "x \<notin> on_stack s" "x \<in> dfs_visited s"
    | (new) "length (cycles s) < 8" "x \<notin> on_stack s" "x \<notin> dfs_visited s" by linarith
  then show ?case
  proof cases
    case full
    then show ?thesis using Cons.prems by (auto simp: dfs_after_def)
  next
    case on_path
    have ne: "last (dfs_stack s) \<noteq> x" using edge assms(3) Cons.prems(2) by (auto simp: irrefl_def)
    note c = back_edge_cycle [OF Cons.prems(1) on_path(2) _ ne on_path(1)]
    have "dfs_after g N s (record_cycle x s)"
      using c edge Cons.prems(2) by (auto simp: dfs_after_def record_cycle_def Let_def)
    moreover have "cycles (record_cycle x s) \<noteq> []" using c edge Cons.prems(2) by simp
    moreover obtain s' where "dfs_loop visit xs (record_cycle x s) = Some s'" "dfs_after g N (record_cycle x s) s'"
      using Cons.IH [of "record_cycle x s"] calculation Cons.prems by (auto simp: dfs_after_def)
    ultimately show ?thesis using on_path dfs_after_trans by (auto simp: dfs_after_def)
  next
    case seen
    obtain s' where s': "dfs_loop visit xs s = Some s'" "dfs_after g N s s'" "cycles s' = [] \<longrightarrow> set xs \<subseteq> finished s'"
      using Cons.IH [OF Cons.prems(1, 2)] Cons.prems(3) by auto
    then have "x \<in> finished s'" using seen dfs_after_stack [OF s'(2) Cons.prems(1)] by (auto simp: finished_def dfs_after_def)
    then show ?thesis using s' seen by auto
  next
    case new
    obtain s1 where s1: "visit x s = Some s1" "dfs_after g N s s1" "x \<in> dfs_visited s1"
      using visit [OF Cons.prems(1, 2) new(3) edge] by blast
    have "dfs_inv g N s1" "dfs_stack s1 = st" using s1(2) Cons.prems(2) by (simp_all add: dfs_after_def)
    then obtain s' where s': "dfs_loop visit xs s1 = Some s'" "dfs_after g N s1 s'" "cycles s' = [] \<longrightarrow> set xs \<subseteq> finished s'"
      using Cons.IH [of s1] Cons.prems(3) by auto
    have a: "dfs_after g N s s'" using dfs_after_trans [OF s1(2) s'(2)] .
    then have "x \<in> finished s'" using s1(3) s'(2) new(2) dfs_after_stack [OF a Cons.prems(1)] by (auto simp: finished_def dfs_after_def)
    then show ?thesis using a s' s1(1) new by auto
  qed
qed

lemma successors_rel: "(x, y) \<in> succ_rel g \<longleftrightarrow> y \<in> set (successors g x)"
  by (simp add: succ_rel_def)

lemma finish_node:
  assumes "succ_rel g `` F \<subseteq> F" "\<forall>y \<in> F. (y, y) \<notin> (succ_rel g)\<^sup>+" "set (successors g x) \<subseteq> F" "x \<notin> F"
  shows "succ_rel g `` insert x F \<subseteq> insert x F \<and> (\<forall>y \<in> insert x F. (y, y) \<notin> (succ_rel g)\<^sup>+)"
proof -
  have closed: "b \<in> F" if "(a, b) \<in> (succ_rel g)\<^sup>*" "a \<in> F" for a b
    using that by (induction rule: rtrancl_induct) (use assms(1) in auto)
  have "(x, x) \<notin> (succ_rel g)\<^sup>+"
  proof
    assume "(x, x) \<in> (succ_rel g)\<^sup>+"
    then obtain y where "(x, y) \<in> succ_rel g" "(y, x) \<in> (succ_rel g)\<^sup>*" by (meson tranclD)
    then show False using closed assms(3, 4) by (auto simp: successors_rel)
  qed
  then show ?thesis using assms by (auto simp: successors_rel)
qed

lemma dfs_inv_room:
  assumes "dfs_inv g N s" "finite N"
  shows "length (dfs_stack s) \<le> card N"
proof -
  have "length (dfs_stack s) = card (on_stack s)" using assms(1) unfolding dfs_inv_def by (metis distinct_card)
  also have "\<dots> \<le> card N" using assms unfolding dfs_inv_def by (meson card_mono order_trans)
  finally show ?thesis .
qed

lemma dfs_correct:
  assumes "finite N" "irrefl (succ_rel g)" "Range (succ_rel g) \<subseteq> N"
  shows "dfs_inv g N s \<Longrightarrow> x \<in> N \<Longrightarrow> x \<notin> dfs_visited s \<Longrightarrow> dfs_stack s = [] \<or> (last (dfs_stack s), x) \<in> succ_rel g \<Longrightarrow>
    card N < n + length (dfs_stack s) \<Longrightarrow> \<exists>s'. dfs n g x s = Some s' \<and> dfs_after g N s s' \<and> x \<in> dfs_visited s'"
proof (induction n arbitrary: x s)
  case 0
  then show ?case using dfs_inv_room [OF 0(1) assms(1)] by simp
next
  case (Suc n)
  let ?s1 = "s\<lparr>dfs_visited := insert x (dfs_visited s), dfs_stack := dfs_stack s @ [x], on_stack := insert x (on_stack s)\<rparr>"
  note i = Suc.prems(1)
  have x: "x \<notin> on_stack s" "x \<notin> set (dfs_stack s)" using i Suc.prems(3) by (auto simp: dfs_inv_def)
  have fin: "finished ?s1 = finished s" using Suc.prems(3) by (auto simp: finished_def)
  have inv1: "dfs_inv g N ?s1"
    using i x Suc.prems(2, 4) fin unfolding dfs_inv_def by (auto simp: successively_append_iff)
  have visit: "\<exists>s'. dfs n g y s0 = Some s' \<and> dfs_after g N s0 s' \<and> y \<in> dfs_visited s'"
    if "dfs_inv g N s0" "dfs_stack s0 = dfs_stack s @ [x]" "y \<notin> dfs_visited s0" "(last (dfs_stack s @ [x]), y) \<in> succ_rel g" for y s0
    by (rule Suc.IH [OF that(1) _ that(3)]) (use that assms(3) Suc.prems(5) in auto)
  have "\<forall>y \<in> set (successors g x). (last (dfs_stack s @ [x]), y) \<in> succ_rel g" by (simp add: successors_rel)
  from dfs_loop_correct [OF visit _ assms(2) inv1 _ this]
  obtain s2 where s2: "dfs_loop (dfs n g) (successors g x) ?s1 = Some s2" "dfs_after g N ?s1 s2"
    "cycles s2 = [] \<longrightarrow> set (successors g x) \<subseteq> finished s2" by auto
  let ?s3 = "s2\<lparr>dfs_stack := butlast (dfs_stack s2), on_stack := on_stack s2 - {x}\<rparr>"
  have st: "dfs_stack s2 = dfs_stack s @ [x]" "on_stack s2 = insert x (on_stack s)" "x \<in> dfs_visited s2"
    using s2(2) dfs_after_stack [OF s2(2) inv1] by (auto simp: dfs_after_def)
  then have fin3: "finished ?s3 = insert x (finished s2)" "x \<notin> finished s2" by (auto simp: finished_def)
  have i2: "dfs_inv g N s2" using s2(2) by (simp add: dfs_after_def)
  have "succ_rel g `` finished ?s3 \<subseteq> finished ?s3 \<and> (\<forall>y \<in> finished ?s3. (y, y) \<notin> (succ_rel g)\<^sup>+)" if "cycles s2 = []"
    unfolding fin3(1) by (rule finish_node) (use i2 that s2(3) fin3(2) in \<open>auto simp: dfs_inv_def\<close>)
  moreover have "on_stack s2 - {x} = on_stack s" using st(2) x(1) by auto
  ultimately have "dfs_inv g N ?s3"
    using i i2 st x unfolding dfs_inv_def by (auto simp: successively_append_iff)
  then have "dfs_after g N s ?s3" using s2(2) st by (auto simp: dfs_after_def)
  then show ?case using s2(1) st(3) by auto
qed

lemma dfs_roots_correct:
  assumes "finite N" "irrefl (succ_rel g)" "Range (succ_rel g) \<subseteq> N" "card N < n"
  shows "dfs_inv g N s \<Longrightarrow> dfs_stack s = [] \<Longrightarrow> set xs \<subseteq> N \<Longrightarrow>
    \<exists>s'. dfs_roots n g xs s = Some s' \<and> dfs_after g N s s' \<and> (cycles s' = [] \<longrightarrow> set xs \<subseteq> dfs_visited s')"
proof (induction xs arbitrary: s)
  case Nil
  then show ?case by (simp add: dfs_after_def)
next
  case (Cons x xs)
  consider (full) "length (cycles s) \<ge> 8" | (old) "length (cycles s) < 8" "x \<in> dfs_visited s"
    | (new) "length (cycles s) < 8" "x \<notin> dfs_visited s" by linarith
  then show ?case
  proof cases
    case full
    then show ?thesis using Cons.prems by (auto simp: dfs_after_def)
  next
    case old
    then show ?thesis using Cons.IH [OF Cons.prems(1, 2)] Cons.prems(3) by (auto simp: dfs_after_def)
  next
    case new
    obtain s1 where s1: "dfs n g x s = Some s1" "dfs_after g N s s1" "x \<in> dfs_visited s1"
      using dfs_correct [OF assms(1, 2, 3) Cons.prems(1) _ new(2)] Cons.prems(2, 3) assms(4) by auto
    then obtain s' where "dfs_roots n g xs s1 = Some s'" "dfs_after g N s1 s'" "cycles s' = [] \<longrightarrow> set xs \<subseteq> dfs_visited s'"
      using Cons.IH [of s1] Cons.prems(2, 3) by (auto simp: dfs_after_def)
    then show ?thesis using s1 new dfs_after_trans [OF s1(2)] by (auto simp: dfs_after_def)
  qed
qed

lemma find_cycles_correct:
  assumes "irrefl (succ_rel outs)" "Relation.Field (succ_rel outs) \<subseteq> set (graph_node_list outs ins)"
  shows "\<exists>cs. find_cycles outs ins = Some cs \<and> length cs \<le> 8 \<and> (\<forall>c \<in> set cs. on_one_cycle outs c) \<and>
    (cs = [] \<longleftrightarrow> acyclic (succ_rel outs))"
proof -
  let ?N = "set (graph_node_list outs ins)" and ?s = "\<lparr>dfs_visited = {}, dfs_stack = [], on_stack = {}, cycles = []\<rparr>"
  have "card ?N < length (graph_node_list outs ins) + 1" by (simp add: card_length less_Suc_eq_le)
  moreover have "dfs_inv outs ?N ?s" by (simp add: dfs_inv_def finished_def)
  moreover have "Range (succ_rel outs) \<subseteq> ?N" using assms(2) by (auto simp: Relation.Field_def)
  ultimately obtain s' where s': "dfs_roots (length (graph_node_list outs ins) + 1) outs (graph_node_list outs ins) ?s = Some s'"
    "dfs_after outs ?N ?s s'" "cycles s' = [] \<longrightarrow> ?N \<subseteq> dfs_visited s'"
    using dfs_roots_correct [OF _ assms(1), of ?N "length (graph_node_list outs ins) + 1" ?s "graph_node_list outs ins"] by auto
  then have i: "dfs_inv outs ?N s'" "dfs_stack s' = []" by (simp_all add: dfs_after_def)
  have "acyclic (succ_rel outs)" if c: "cycles s' = []"
  proof (rule acyclicI, intro allI notI)
    fix x assume x: "(x, x) \<in> (succ_rel outs)\<^sup>+"
    then have "x \<in> Relation.Field (succ_rel outs)" by (metis FieldI1 tranclD)
    then have "x \<in> finished s'" using assms(2) s'(3) c i unfolding finished_def dfs_inv_def by auto
    then show False using i(1) c x unfolding dfs_inv_def by blast
  qed
  moreover have "\<not> acyclic (succ_rel outs)" if c: "cycles s' \<noteq> []"
  proof -
    obtain cy where "cy \<in> set (cycles s')" using c by (cases "cycles s'") auto
    then have o: "on_one_cycle outs cy" using i(1) by (simp add: dfs_inv_def)
    then obtain a where "a \<in> set cy" by (cases cy) (auto simp: on_one_cycle_def)
    then show ?thesis using o by (auto simp: on_one_cycle_def acyclic_def)
  qed
  ultimately show ?thesis using s'(1) i(1) by (auto simp: find_cycles_def dfs_inv_def)
qed

section \<open>The module graph of a store\<close>

definition module_graph :: "FactCollection \<Rightarrow> (string \<times> string) set" where
  "module_graph c = {(a, b). \<exists>r \<in> set (FactsModel.relationships (model c)). module_edge c r = Some (a, b)}"

definition degree_ok :: "degree_map \<Rightarrow> bool" where
  "degree_ok g \<longleftrightarrow> sorted_wrt (<) (map fst g)"

lemma map_of_below: "\<forall>k' \<in> fst ` set g. k < k' \<Longrightarrow> map_of g (k :: string) = None"
  by (auto simp: map_of_eq_None_iff)

lemma keys_degree_insert: "fst ` set (degree_insert k v g) = insert k (fst ` set g)"
  by (induction k v g rule: degree_insert.induct) auto

lemma degree_ok_insert: "degree_ok g \<Longrightarrow> degree_ok (degree_insert k v g)"
  unfolding degree_ok_def
proof (induction k v g rule: degree_insert.induct)
  case (2 k v k' vs r)
  have "set (map fst (degree_insert k v r)) = insert k (set (map fst r))" using keys_degree_insert [of k v r] by simp
  then show ?case using 2 by auto
qed simp

lemma set_successors_Cons: "set (successors ((k, vs) # r) x) = (if x = k then set vs else set (successors r x))"
proof (cases "x = k")
  case True
  have "successors ((k, vs) # r) x = sort vs" unfolding successors_def using True by simp
  then show ?thesis using True by (simp only: if_True set_sort simp_thms)
next
  case False
  have "successors ((k, vs) # r) x = successors r x" unfolding successors_def using False by simp
  then show ?thesis using False by (simp only: if_False simp_thms)
qed

lemma successors_degree_insert:
  assumes "degree_ok g"
  shows "set (successors (degree_insert k v g) x) = (if x = k then insert v (set (successors g x)) else set (successors g x))"
  using assms
proof (induction g)
  case Nil
  have "set (successors [] y) = {}" for y by (simp add: successors_def)
  then show ?case by (simp add: set_successors_Cons)
next
  case (Cons e r)
  obtain k' vs where e: "e = (k', vs)" by (cases e)
  have r: "degree_ok r" using Cons.prems by (simp add: degree_ok_def)
  consider (same) "k = k'" | (less) "k \<noteq> k'" "k < k'" | (more) "k \<noteq> k'" "\<not> k < k'" by blast
  then show ?case
  proof cases
    case same
    then show ?thesis by (simp add: e set_successors_Cons set_insort_insert)
  next
    case less
    have "map_of r k = None" using Cons.prems less(2) by (intro map_of_below) (auto simp: degree_ok_def e)
    then have "set (successors r k) = {}" by (simp add: successors_def)
    then show ?thesis using less by (simp add: e set_successors_Cons)
  next
    case more
    then show ?thesis using Cons.IH [OF r] by (cases "x = k") (simp_all add: e set_successors_Cons)
  qed
qed

lemma degree_maps_fold:
  assumes "degree_ok outs"
  shows "\<exists>outs' ins'. fold (\<lambda>r (outs, ins). case module_edge c r of None \<Rightarrow> (outs, ins)
      | Some (a, b) \<Rightarrow> (degree_insert a b outs, degree_insert b a ins)) rs (outs, ins) = (outs', ins') \<and> degree_ok outs' \<and>
    succ_rel outs' = succ_rel outs \<union> {(a, b). \<exists>r \<in> set rs. module_edge c r = Some (a, b)} \<and>
    fst ` set outs' = fst ` set outs \<union> {a. \<exists>r \<in> set rs. \<exists>b. module_edge c r = Some (a, b)} \<and>
    fst ` set ins' = fst ` set ins \<union> {b. \<exists>r \<in> set rs. \<exists>a. module_edge c r = Some (a, b)}"
  using assms
proof (induction rs arbitrary: outs ins)
  case (Cons r rs)
  show ?case
  proof (cases "module_edge c r")
    case None
    then show ?thesis using Cons.IH [OF Cons.prems, of ins] by auto
  next
    case (Some e)
    obtain a b where e: "e = (a, b)" by (cases e)
    have s: "succ_rel (degree_insert a b outs) = insert (a, b) (succ_rel outs)"
      using successors_degree_insert [OF Cons.prems, of a b] by (auto simp: succ_rel_def split: if_splits)
    show ?thesis
      using Cons.IH [OF degree_ok_insert [OF Cons.prems, of a b], of "degree_insert b a ins"] Some e
      by (auto simp: s keys_degree_insert)
  qed
qed (simp add: succ_rel_def)

lemma degree_maps_graph:
  obtains outs ins where "degree_maps c = (outs, ins)" "succ_rel outs = module_graph c" "Relation.Field (module_graph c) \<subseteq> set (graph_node_list outs ins)"
proof -
  have dom: "Domain (module_graph c) = {a. \<exists>r \<in> set (FactsModel.relationships (model c)). \<exists>b. module_edge c r = Some (a, b)}"
    and ran: "Range (module_graph c) = {b. \<exists>r \<in> set (FactsModel.relationships (model c)). \<exists>a. module_edge c r = Some (a, b)}"
    by (auto simp: module_graph_def)
  have ok: "degree_ok []" and e: "succ_rel [] = {}" by (simp_all add: degree_ok_def succ_rel_def successors_def)
  from degree_maps_fold [OF ok, of c "FactsModel.relationships (model c)" "[]"]
  obtain outs ins where d: "degree_maps c = (outs, ins)" "succ_rel outs = module_graph c"
    "fst ` set outs = Domain (module_graph c)" "fst ` set ins = Range (module_graph c)"
    unfolding degree_maps_def dom ran e by (auto simp: module_graph_def)
  then have "Relation.Field (module_graph c) \<subseteq> set (graph_node_list outs ins)"
    by (simp add: graph_node_list_def Relation.Field_def)
  then show ?thesis using that d by blast
qed

lemma irrefl_module_graph: "irrefl (module_graph c)"
  by (auto simp: irrefl_def module_graph_def module_edge_def split: option.splits if_splits)

section \<open>The findings\<close>

definition produced_types :: "FindingType set" where
  "produced_types = {Cycle, HighFanout, HighFanin, Orphan, UnresolvedReference, StaleIndex, MissingTestAssociation, LargeModule}"

lemma cycle_type_first: "t \<in> produced_types \<Longrightarrow> FindingType_as_str t \<le> ''CYCLE'' \<Longrightarrow> t = Cycle"
  by (auto simp: produced_types_def less_char_def)

lemma finding_type_finding [simp]: "finding_type (finding t sev ev loc conf) = t"
  by (simp add: finding_def)

lemma other_findings_types:
  "finding_type ` set (stale_findings rnd stale @ degree_findings rnd outs ins) \<subseteq> {StaleIndex, HighFanout, HighFanin}"
  "finding_type ` set (orphan_findings rnd c outs ins @ broken_findings rnd store @ module_findings rnd c)
     \<subseteq> {Orphan, UnresolvedReference, LargeModule, MissingTestAssociation}"
  by (auto simp: stale_findings_def degree_findings_def orphan_findings_def broken_findings_def module_findings_def Let_def
      split: if_splits)

lemma finding_order_type: "finding_order f \<le> finding_order g \<Longrightarrow> FindingType_as_str (finding_type f) \<le> FindingType_as_str (finding_type g)"
  by (auto simp: finding_order_def less_eq_prod_def)

lemma finding_cap_pos: "0 < finding_cap limit"
  by (simp add: finding_cap_def DEFAULT_FINDING_LIMIT_def)

lemma sorted_take_cycle:
  assumes "finding_type ` set fs \<subseteq> produced_types" "f \<in> set fs" "finding_type f = Cycle" "0 < n"
  shows "\<exists>g \<in> set (take n (sort_key finding_order fs)). finding_type g = Cycle"
proof -
  obtain h t where s: "sort_key finding_order fs = h # t" using assms(2) by (cases "sort_key finding_order fs") (auto simp flip: set_empty)
  have "sorted (map finding_order (h # t))" unfolding s [symmetric] by (rule sorted_sort_key)
  moreover have "f \<in> set (h # t)" "h \<in> set fs" using assms(2) set_sort [of finding_order fs] unfolding s by auto
  ultimately have "finding_order h \<le> finding_order f" by auto
  then have "FindingType_as_str (finding_type h) \<le> ''CYCLE''" using finding_order_type assms(3) by fastforce
  then have "finding_type h = Cycle" using cycle_type_first assms(1) \<open>h \<in> set fs\<close> by blast
  then show ?thesis using assms(4) by (cases n) (auto simp: s)
qed

lemma analyze_health_parts:
  obtains cs fs where "analyze_health rnd store stale limit = Some (take (finding_cap limit) (sort_key finding_order fs))"
    "finding_type ` set fs \<subseteq> produced_types"
    "{f \<in> set fs. finding_type f = Cycle} = cycle_finding rnd ` set cs"
    "\<forall>c \<in> set cs. 2 \<le> length c \<and> (\<forall>a \<in> set c. \<forall>b \<in> set c. (a, b) \<in> (module_graph (collection store))\<^sup>+)"
    "cs = [] \<longleftrightarrow> acyclic (module_graph (collection store))"
proof -
  let ?c = "collection store"
  obtain outs ins where d: "degree_maps ?c = (outs, ins)" "succ_rel outs = module_graph ?c"
    "Relation.Field (module_graph ?c) \<subseteq> set (graph_node_list outs ins)" by (rule degree_maps_graph)
  obtain cs where cs: "find_cycles outs ins = Some cs" "\<forall>c \<in> set cs. on_one_cycle outs c" "cs = [] \<longleftrightarrow> acyclic (succ_rel outs)"
    using find_cycles_correct [of outs ins] irrefl_module_graph [of ?c] d by auto
  define A where "A = stale_findings rnd stale @ degree_findings rnd outs ins"
  define B where "B = orphan_findings rnd ?c outs ins @ broken_findings rnd store @ module_findings rnd ?c"
  have t: "finding_type ` set A \<subseteq> {StaleIndex, HighFanout, HighFanin}"
    "finding_type ` set B \<subseteq> {Orphan, UnresolvedReference, LargeModule, MissingTestAssociation}"
    unfolding A_def B_def by (rule other_findings_types)+
  have f: "finding_type (cycle_finding rnd c) = Cycle" for c by (simp add: cycle_finding_def)
  let ?fs = "A @ map (cycle_finding rnd) cs @ B"
  have "{f \<in> set ?fs. finding_type f = Cycle} = cycle_finding rnd ` set cs" using t f by (auto simp: image_subset_iff)
  moreover have "finding_type ` set ?fs \<subseteq> produced_types" using t f by (auto simp: image_subset_iff produced_types_def)
  moreover have "analyze_health rnd store stale limit = Some (take (finding_cap limit) (sort_key finding_order ?fs))"
    by (simp add: analyze_health_def Let_def d(1) cs(1) A_def B_def)
  ultimately show ?thesis using that [of ?fs cs] cs(2, 3) by (simp add: on_one_cycle_def d(2))
qed

text \<open>C9: The health report of a store contains a CYCLE finding exactly when its module graph (symbol and module endpoints of
call, import, dependency and reference relationships, projected to modules) has a cycle. The search always
ends, and the bound on the report never drops the last cycle.\<close>

theorem health_cycle_iff:
  "\<exists>fs. analyze_health rnd store stale limit = Some fs \<and>
     ((\<exists>f \<in> set fs. finding_type f = Cycle) \<longleftrightarrow> \<not> acyclic (module_graph (collection store)))"
proof -
  obtain cs fs where p: "analyze_health rnd store stale limit = Some (take (finding_cap limit) (sort_key finding_order fs))"
    "finding_type ` set fs \<subseteq> produced_types" "{f \<in> set fs. finding_type f = Cycle} = cycle_finding rnd ` set cs"
    "cs = [] \<longleftrightarrow> acyclic (module_graph (collection store))" by (rule analyze_health_parts)
  have "(\<exists>f \<in> set (take (finding_cap limit) (sort_key finding_order fs)). finding_type f = Cycle) \<longleftrightarrow> (\<exists>f \<in> set fs. finding_type f = Cycle)"
  proof
    show "\<exists>f \<in> set fs. finding_type f = Cycle" if "\<exists>f \<in> set (take (finding_cap limit) (sort_key finding_order fs)). finding_type f = Cycle"
      using that set_take_subset [of "finding_cap limit" "sort_key finding_order fs"] by auto
  qed (use sorted_take_cycle [OF p(2) _ _ finding_cap_pos] in blast)
  also have "\<dots> \<longleftrightarrow> cs \<noteq> []" using p(3) by (cases cs) auto
  finally show ?thesis using p(1, 4) by simp
qed

text \<open>The health report is bounded by its limit (50 when the caller gives 0, never over 500) and sorted by type, location and
evidence; no finding has the documented type BOUNDARY_CROSSING; and every CYCLE finding lists at least two modules, any two of
which depend on each other.\<close>

theorem health_report_sound:
  assumes "analyze_health rnd store stale limit = Some fs"
  shows "length fs \<le> finding_cap limit \<and> finding_cap limit \<le> 500 \<and> sorted (map finding_order fs) \<and>
    BoundaryCrossing \<notin> finding_type ` set fs \<and>
    (\<forall>f \<in> set fs. finding_type f = Cycle \<longrightarrow>
      (\<exists>c. f = cycle_finding rnd c \<and> 2 \<le> length c \<and>
        (\<forall>a \<in> set c. \<forall>b \<in> set c. (a, b) \<in> (module_graph (collection store))\<^sup>+)))"
proof -
  obtain cs gs where p: "analyze_health rnd store stale limit = Some (take (finding_cap limit) (sort_key finding_order gs))"
    "finding_type ` set gs \<subseteq> produced_types" "{f \<in> set gs. finding_type f = Cycle} = cycle_finding rnd ` set cs"
    "\<forall>c \<in> set cs. 2 \<le> length c \<and> (\<forall>a \<in> set c. \<forall>b \<in> set c. (a, b) \<in> (module_graph (collection store))\<^sup>+)"
    by (rule analyze_health_parts)
  have fs: "fs = take (finding_cap limit) (sort_key finding_order gs)" using assms p(1) by simp
  have sub: "set fs \<subseteq> set gs" using set_take_subset [of "finding_cap limit" "sort_key finding_order gs"] by (simp add: fs)
  have "length fs \<le> finding_cap limit" "finding_cap limit \<le> 500" by (simp_all add: fs finding_cap_def DEFAULT_FINDING_LIMIT_def)
  moreover have "sorted (map finding_order fs)"
    by (simp add: fs sorted_wrt_take flip: take_map)
  moreover have "BoundaryCrossing \<notin> finding_type ` set fs" using sub p(2) by (auto simp: produced_types_def)
  moreover have "\<exists>c \<in> set cs. f = cycle_finding rnd c" if "f \<in> set fs" "finding_type f = Cycle" for f
    using that sub p(3) by blast
  ultimately show ?thesis using p(4) by blast
qed

section \<open>A sample store\<close>

definition two_module_cycle :: FactStore where
  "two_module_cycle = FactStore_build (FactsBuilder_build
     (FactsBuilder_add_relationship (FactsBuilder_add_relationship FactsBuilder_new
         (RelationshipFact_new (OpaqueId ''r1'') RelationshipKind.Imports (FactId.Module (OpaqueId ''a'')) (FactId.Module (OpaqueId ''b''))))
         (RelationshipFact_new (OpaqueId ''r2'') RelationshipKind.Calls (FactId.Module (OpaqueId ''b'')) (FactId.Module (OpaqueId ''a'')))))"

theorem health_report_sound_witness:
  "\<exists>fs. analyze_health Fin two_module_cycle False 1 = Some fs \<and> length fs = 1 \<and> sorted (map finding_order fs) \<and>
    map finding_location fs = [Some ''a -> b'']"
proof -
  have e: "map_option (map finding_location) (analyze_health Fin two_module_cycle False 1) = Some [Some ''a -> b'']" by code_simp
  then obtain fs where fs: "analyze_health Fin two_module_cycle False 1 = Some fs" by (cases "analyze_health Fin two_module_cycle False 1") auto
  have l: "map finding_location fs = [Some ''a -> b'']" using e fs by simp
  then have "length fs = 1" by (metis One_nat_def length_map list.size(3, 4) plus_nat.add_0 add.commute)
  then show ?thesis using health_report_sound [OF fs] fs l by simp
qed

end
