(* ===== verification/Impact_Relationships.thy ===== *)
theory Impact_Relationships
  imports Rust_Values Facts_Model Fact_Store
begin

text \<open>
  Construction of relationship and reference facts (\<^verbatim>\<open>impact-engine/src/impact/relationships.rs\<close>) from the calls
  and imports of the parser (\<^verbatim>\<open>ParseCall\<close> and \<^verbatim>\<open>ParseImport\<close> of \<^verbatim>\<open>parsers\<close>): resolution of callees, callers
  and import paths, and the heuristic edges by equal names.

  A hash set of edges is the list of its elements in insertion order, and a hash map from names the
  function to the vector it holds; no iteration over either reaches the result.

  The lemmas show what is added: edges between known facts, each once, heuristic imports only between
  modules a call connects.
\<close>

section \<open>Parser records\<close>

record ParseCall =
  caller_file :: string
  caller_symbol :: "string option"
  line_start :: "32 word"
  callee_name :: string
  is_qualified :: bool
  receiver_type :: "string option"
  from_macro_text :: bool

record ParseImport =
  import_file :: string
  import_line :: "32 word"
  import_path :: string
  import_alias :: "string option"

record ImplScope =
  scope_file :: string
  scope_start :: "32 word"
  scope_end :: "32 word"
  type_name :: string

section \<open>Impl blocks\<close>

text \<open>\<^verbatim>\<open>Iterator::min_by_key\<close>: the first of the least elements.\<close>

fun min_by_key :: "('a \<Rightarrow> 'k::linorder) \<Rightarrow> 'a list \<Rightarrow> 'a option" where
  "min_by_key key [] = None"
| "min_by_key key (x # xs) =
     (case min_by_key key xs of
        None \<Rightarrow> Some x
      | Some y \<Rightarrow> if key x \<le> key y then Some x else Some y)"

definition enclosing_impl :: "ImplScope list \<Rightarrow> string \<Rightarrow> 32 word \<Rightarrow> string option" where
  "enclosing_impl scopes file at_line =
     map_option type_name
       (min_by_key (\<lambda>s. if scope_start s \<le> scope_end s then scope_end s - scope_start s else 0)
         (filter (\<lambda>s. scope_file s = file \<and> scope_start s \<le> at_line \<and> at_line \<le> scope_end s) scopes))"

definition symbol_impl :: "ImplScope list \<Rightarrow> SymbolFact \<Rightarrow> string option" where
  "symbol_impl scopes symb =
     Option.bind (loc_file (SymbolFact.location symb)) (\<lambda>file.
     Option.bind (SourceLocation.line (SymbolFact.location symb)) (enclosing_impl scopes file))"

section \<open>Identifiers\<close>

definition name_hash :: "string \<Rightarrow> 64 word" where
  "name_hash s = foldl (\<lambda>h b. (h XOR word_of_nat (of_char b)) * 0x100000001b3) 0x811c9dc5 s"

definition calls_rel_id :: "FactId \<Rightarrow> string \<Rightarrow> string \<Rightarrow> 32 word \<Rightarrow> SymbolId \<Rightarrow> string" where
  "calls_rel_id caller file callee at_line callee_id =
     ''rel::'' @ file @ ''::'' @ callee @ ''@'' @ show_nat (unat at_line) @ ''#'' @
     show_nat (unat (name_hash (FactId_as_str caller))) @ ''#'' @ hex_fixed 16 (unat (name_hash (id_str callee_id)))"

text \<open>The three bytes of the arrow U+2192.\<close>

abbreviation arrow :: string where
  "arrow \<equiv> [CHR 0xE2, CHR 0x86, CHR 0x92]"

abbreviation provenance_metadata :: "string \<Rightarrow> FactMetadata" where
  "provenance_metadata p \<equiv> FactMetadataBuilder_build (FactMetadataBuilder_attr FactMetadataBuilder_new ''provenance'' p)"

section \<open>Resolution of calls\<close>

definition name_to_sym :: "SymbolFact list \<Rightarrow> string \<Rightarrow> SymbolFact list" where
  "name_to_sym syms n = filter (\<lambda>s. SymbolFact.module s \<noteq> None \<and> SymbolFact.name s = n) syms"

definition typed_candidates :: "ImplScope list \<Rightarrow> SymbolFact list \<Rightarrow> string \<Rightarrow> SymbolId list" where
  "typed_candidates scopes cands ty = sort_dedup (map SymbolFact.id (filter (\<lambda>s. symbol_impl scopes s = Some ty) cands))"

definition wanted_impl :: "ParseCall \<Rightarrow> string option \<Rightarrow> string option" where
  "wanted_impl call caller_impl =
     (case receiver_type call of
        None \<Rightarrow> None
      | Some r \<Rightarrow> if r = ''self'' \<or> r = ''Self'' then caller_impl else Some r)"

definition bare_name_callee :: "SymbolFact list \<Rightarrow> SymbolId option" where
  "bare_name_callee cands =
     (if length cands = 1 \<or> list_all (\<lambda>s. SymbolFact.module s = SymbolFact.module (hd cands)) cands
      then Some (SymbolFact.id (hd cands)) else None)"

definition untyped_callee :: "SymbolFact list \<Rightarrow> ParseCall \<Rightarrow> ImplScope list \<Rightarrow> string option \<Rightarrow> SymbolId option" where
  "untyped_callee cands call scopes caller_impl =
     (if is_qualified call then
        (if receiver_type call = None then None
         else if length cands = 1 then Some (SymbolFact.id (hd cands)) else None)
      else
        (case map_option (typed_candidates scopes cands) caller_impl of
           Some [i] \<Rightarrow> Some i
         | _ \<Rightarrow> bare_name_callee cands))"

definition resolve_callee :: "SymbolFact list \<Rightarrow> ParseCall \<Rightarrow> ImplScope list \<Rightarrow> string option \<Rightarrow> SymbolId option" where
  "resolve_callee cands call scopes caller_impl =
     (if cands = [] then None
      else (case wanted_impl call caller_impl of
        None \<Rightarrow> untyped_callee cands call scopes caller_impl
      | Some want \<Rightarrow>
          (case typed_candidates scopes cands want of
             [] \<Rightarrow> if list_ex (\<lambda>s. type_name s = want) scopes then None
                  else untyped_callee cands call scopes caller_impl
           | [i] \<Rightarrow> Some i
           | _ \<Rightarrow> None)))"

definition in_file :: "string \<Rightarrow> SymbolFact \<Rightarrow> bool" where
  "in_file file symb \<longleftrightarrow> loc_file (SymbolFact.location symb) = Some file"

definition caller_fact_id :: "SymbolFact list \<Rightarrow> ParseCall \<Rightarrow> FactId option" where
  "caller_fact_id syms call =
     map_option (\<lambda>s. FactId.Symbol (SymbolFact.id s))
       (case Option.bind (caller_symbol call) (\<lambda>n. find (\<lambda>s. SymbolFact.name s = n \<and> in_file (caller_file call) s) syms) of
          Some s \<Rightarrow> Some s
        | None \<Rightarrow> find (in_file (caller_file call)) syms)"

section \<open>Resolution of imports\<close>

definition resolve_import_path :: "ModuleFact list \<Rightarrow> string \<Rightarrow> ModuleId option" where
  "resolve_import_path mods dotted =
     (let last_seg = last (split_char CHR ''.'' dotted) in
      map_option ModuleFact.id
        (case find (\<lambda>m. ends_with_str last_seg (ModuleFact.name m) \<or> ModuleFact.path m = Some dotted) mods of
           Some m \<Rightarrow> Some m
         | None \<Rightarrow> find (\<lambda>m. case ModuleFact.path m of None \<Rightarrow> False
             | Some mp \<Rightarrow> occurs_in last_seg mp \<or> ends_with_str (''/'' @ last_seg) mp) mods))"

definition find_module_for_file :: "ModuleFact list \<Rightarrow> string \<Rightarrow> ModuleId option" where
  "find_module_for_file mods file = map_option ModuleFact.id (find (\<lambda>m. ModuleFact.path m = Some file) mods)"

section \<open>Edges of the syntax tree\<close>

record Links =
  links_builder :: FactsBuilder
  call_edges :: "(FactId \<times> FactId) list"
  import_edges :: "(FactId \<times> FactId) list"
  link_count :: nat

definition add_call :: "SymbolFact list \<Rightarrow> ImplScope list \<Rightarrow> ParseCall \<Rightarrow> Links \<Rightarrow> Links" where
  "add_call syms scopes call st =
     (let caller_impl = enclosing_impl scopes (caller_file call) (line_start call) in
      case resolve_callee (name_to_sym syms (callee_name call)) call scopes caller_impl of
        None \<Rightarrow> st
      | Some callee \<Rightarrow>
          (case caller_fact_id syms call of
             None \<Rightarrow> st
           | Some caller \<Rightarrow>
               if (caller, FactId.Symbol callee) \<in> set (call_edges st) then st
               else st\<lparr>call_edges := call_edges st @ [(caller, FactId.Symbol callee)],
                 links_builder := FactsBuilder_add_relationship (links_builder st)
                   ((RelationshipFact_new
                      (OpaqueId (calls_rel_id caller (caller_file call) (callee_name call) (line_start call) callee))
                      RelationshipKind.Calls caller (FactId.Symbol callee))
                    \<lparr>RelationshipFact.metadata := provenance_metadata (if from_macro_text call then ''heuristic'' else ''verified'')\<rparr>),
                 link_count := link_count st + 1\<rparr>))"

definition add_import :: "ModuleFact list \<Rightarrow> ParseImport \<Rightarrow> Links \<Rightarrow> Links" where
  "add_import mods imp st =
     (case resolve_import_path mods (import_path imp) of
        None \<Rightarrow> st
      | Some target_mod \<Rightarrow>
          (case find_module_for_file mods (import_file imp) of
             None \<Rightarrow> st
           | Some caller \<Rightarrow>
               if caller = target_mod \<or> (FactId.Module caller, FactId.Module target_mod) \<in> set (import_edges st) then st
               else st\<lparr>import_edges := import_edges st @ [(FactId.Module caller, FactId.Module target_mod)],
                 links_builder := FactsBuilder_add_relationship (links_builder st)
                   ((RelationshipFact_new
                      (OpaqueId (''rel::'' @ import_file imp @ arrow @ id_str target_mod @ ''::ast_import''))
                      RelationshipKind.Imports (FactId.Module caller) (FactId.Module target_mod))
                    \<lparr>RelationshipFact.metadata := provenance_metadata ''verified''\<rparr>),
                 link_count := link_count st + 1\<rparr>))"

section \<open>Heuristic edges\<close>

definition module_of_symbols :: "SymbolFact list \<Rightarrow> string \<Rightarrow> ModuleId option" where
  "module_of_symbols syms =
     fold (\<lambda>s m. case SymbolFact.module s of None \<Rightarrow> m | Some x \<Rightarrow> m(id_str (SymbolFact.id s) \<mapsto> x)) syms (\<lambda>_. None)"

definition call_modules :: "SymbolFact list \<Rightarrow> FactId \<times> FactId \<Rightarrow> (ModuleId \<times> ModuleId) option" where
  "call_modules syms e =
     (case e of
        (FactId.Symbol s, FactId.Symbol t) \<Rightarrow>
          (case (module_of_symbols syms (id_str s), module_of_symbols syms (id_str t)) of
             (Some sm, Some tm) \<Rightarrow> if sm = tm then None else Some (sm, tm)
           | _ \<Rightarrow> None)
      | _ \<Rightarrow> None)"

definition build_module_relationship_map ::
    "SymbolFact list \<Rightarrow> (FactId \<times> FactId) list \<Rightarrow> (FactId \<times> FactId) list \<Rightarrow> (FactId \<times> FactId) list" where
  "build_module_relationship_map syms calls imports =
     concat (map (\<lambda>e. when_some (call_modules syms e)
       (\<lambda>(a, b). [(FactId.Module a, FactId.Module b), (FactId.Module b, FactId.Module a)])) calls) @
     concat (map (\<lambda>(a, b). [(a, b), (b, a)]) imports)"

text \<open>The pairs of symbols the two heuristics visit, with their modules: equal names and kinds in different modules.\<close>

definition namesakes :: "SymbolFact list \<Rightarrow> ((SymbolFact \<times> ModuleId) \<times> (SymbolFact \<times> ModuleId)) list" where
  "namesakes syms =
     concat (map (\<lambda>symb. when_some (SymbolFact.module symb) (\<lambda>sm.
       concat (map (\<lambda>cand. when_some (SymbolFact.module cand) (\<lambda>cm.
           if cm = sm \<or> SymbolFact.kind symb \<noteq> SymbolFact.kind cand then [] else [((symb, sm), (cand, cm))]))
         (filter (\<lambda>s. SymbolFact.name s = SymbolFact.name symb) syms)))) syms)"

definition linked :: "(FactId \<times> FactId) list \<Rightarrow> ModuleId \<Rightarrow> ModuleId \<Rightarrow> bool" where
  "linked joined a b \<longleftrightarrow>
     (FactId.Module a, FactId.Module b) \<in> set joined \<or> (FactId.Module b, FactId.Module a) \<in> set joined"

record RefScan =
  ref_builder :: FactsBuilder
  seen_ref_ids :: "string list"
  ref_count :: nat

definition add_heuristic_reference ::
    "(FactId \<times> FactId) list \<Rightarrow> (FactId \<times> FactId) list \<Rightarrow> (SymbolFact \<times> ModuleId) \<times> (SymbolFact \<times> ModuleId) \<Rightarrow> RefScan \<Rightarrow> RefScan" where
  "add_heuristic_reference joined calls p st =
     (case p of ((symb, sm), (cand, cm)) \<Rightarrow>
        (let sf = FactId.Symbol (SymbolFact.id symb); cf = FactId.Symbol (SymbolFact.id cand);
             i = ''ref::'' @ id_str sm @ ''::'' @ SymbolFact.name symb @ arrow @ id_str cm @ ''::'' @ SymbolFact.name cand in
         if \<not> linked joined sm cm \<or> (sf, cf) \<in> set calls \<or> i \<in> set (seen_ref_ids st) then st
         else st\<lparr>seen_ref_ids := seen_ref_ids st @ [i],
           ref_builder := FactsBuilder_add_reference (ref_builder st)
             ((ReferenceFact_new (OpaqueId i) sf cf)\<lparr>ReferenceFact.metadata := provenance_metadata ''heuristic''\<rparr>),
           ref_count := ref_count st + 1\<rparr>))"

definition build_heuristic_references ::
    "FactsBuilder \<Rightarrow> SymbolFact list \<Rightarrow> (FactId \<times> FactId) list \<Rightarrow> (FactId \<times> FactId) list \<Rightarrow> FactsBuilder \<times> nat" where
  "build_heuristic_references b syms calls imports =
     (let st = fold (add_heuristic_reference (build_module_relationship_map syms calls imports) calls) (namesakes syms)
        \<lparr>ref_builder = b, seen_ref_ids = [], ref_count = 0\<rparr> in (ref_builder st, ref_count st))"

record ImportScan =
  import_builder :: FactsBuilder
  seen_edges :: "(ModuleId \<times> ModuleId) list"
  import_count :: nat

definition add_heuristic_import ::
    "(FactId \<times> FactId) list \<Rightarrow> (FactId \<times> FactId) list \<Rightarrow> (SymbolFact \<times> ModuleId) \<times> (SymbolFact \<times> ModuleId) \<Rightarrow> ImportScan \<Rightarrow> ImportScan" where
  "add_heuristic_import joined imports p st =
     (case p of ((symb, sm), (cand, cm)) \<Rightarrow>
        (let (a, b) = if id_str cm \<le> id_str sm then (cm, sm) else (sm, cm) in
         if (a, b) \<in> set (seen_edges st) \<or> \<not> linked joined a b \<or> linked imports a b then st
         else st\<lparr>seen_edges := seen_edges st @ [(a, b)],
           import_builder := FactsBuilder_add_relationship (import_builder st)
             ((RelationshipFact_new (OpaqueId (''rel::'' @ id_str a @ arrow @ id_str b @ ''::heuristic_import''))
                RelationshipKind.Imports (FactId.Module a) (FactId.Module b))
              \<lparr>RelationshipFact.metadata := provenance_metadata ''heuristic''\<rparr>),
           import_count := import_count st + 1\<rparr>))"

definition build_heuristic_imports ::
    "FactsBuilder \<Rightarrow> SymbolFact list \<Rightarrow> (FactId \<times> FactId) list \<Rightarrow> (FactId \<times> FactId) list \<Rightarrow> FactsBuilder \<times> nat" where
  "build_heuristic_imports b syms calls imports =
     (let st = fold (add_heuristic_import (build_module_relationship_map syms calls imports) imports) (namesakes syms)
        \<lparr>import_builder = b, seen_edges = [], import_count = 0\<rparr> in (import_builder st, import_count st))"

definition build_relationships ::
    "FactsBuilder \<Rightarrow> ModuleFact list \<Rightarrow> SymbolFact list \<Rightarrow> ParseCall list \<Rightarrow> ParseImport list \<Rightarrow> ImplScope list \<Rightarrow>
     FactsBuilder \<times> nat \<times> (FactId \<times> FactId) list" where
  "build_relationships b mods syms calls imports scopes =
     (let ls = fold (add_import mods) imports
            (fold (add_call syms scopes) calls \<lparr>links_builder = b, call_edges = [], import_edges = [], link_count = 0\<rparr>);
          (b1, refs) = build_heuristic_references (links_builder ls) syms (call_edges ls) (import_edges ls);
          (b2, rels) = build_heuristic_imports b1 syms (call_edges ls) (import_edges ls) in
      (b2, link_count ls + (refs + rels), call_edges ls))"

section \<open>What the steps add\<close>

definition edge_pairs :: "RelationshipKind \<Rightarrow> RelationshipFact list \<Rightarrow> (FactId \<times> FactId) list" where
  "edge_pairs k rs = map (\<lambda>r. (RelationshipFact.source r, RelationshipFact.target r)) (filter (\<lambda>r. RelationshipFact.kind r = k) rs)"

lemma edge_pairs_simps [simp]:
  "edge_pairs k [] = []"
  "edge_pairs k (rs @ rs') = edge_pairs k rs @ edge_pairs k rs'"
  "edge_pairs k [r] = (if RelationshipFact.kind r = k then [(RelationshipFact.source r, RelationshipFact.target r)] else [])"
  by (simp_all add: edge_pairs_def)

lemma new_relationship_simps [simp]:
  "RelationshipFact.source (RelationshipFact_new i k s t) = s" "RelationshipFact.target (RelationshipFact_new i k s t) = t"
  "RelationshipFact.kind (RelationshipFact_new i k s t) = k"
  by (simp_all add: RelationshipFact_new_def)

lemma new_reference_simps [simp]:
  "ReferenceFact.id (ReferenceFact_new i s t) = i" "ReferenceFact.referrer (ReferenceFact_new i s t) = s"
  "ReferenceFact.target (ReferenceFact_new i s t) = t"
  by (simp_all add: ReferenceFact_new_def)

lemma bare_name_callee_in: "bare_name_callee cands = Some i \<Longrightarrow> cands \<noteq> [] \<Longrightarrow> i \<in> SymbolFact.id ` set cands"
  by (auto simp: bare_name_callee_def split: if_splits)

lemma typed_candidates_in: "set (typed_candidates scopes cands ty) = SymbolFact.id ` {s \<in> set cands. symbol_impl scopes s = Some ty}"
  by (auto simp: typed_candidates_def)

lemma typed_singleton_in: "typed_candidates scopes cands ty = [i] \<Longrightarrow> i \<in> SymbolFact.id ` set cands"
  using typed_candidates_in [of scopes cands ty] by auto

lemma untyped_callee_in: "untyped_callee cands call scopes ci = Some i \<Longrightarrow> cands \<noteq> [] \<Longrightarrow> i \<in> SymbolFact.id ` set cands"
  by (auto simp: untyped_callee_def split: if_splits option.splits list.splits dest: bare_name_callee_in typed_singleton_in)

lemma resolve_callee_in: "resolve_callee cands call scopes ci = Some i \<Longrightarrow> i \<in> SymbolFact.id ` set cands"
  by (auto simp: resolve_callee_def split: if_splits option.splits list.splits dest: untyped_callee_in typed_singleton_in)

lemma find_in: "find P xs = Some x \<Longrightarrow> x \<in> set xs \<and> P x"
  by (auto simp: find_Some_iff)

definition known_symbol :: "SymbolFact list \<Rightarrow> FactId \<Rightarrow> bool" where
  "known_symbol syms f \<longleftrightarrow> (\<exists>s \<in> set syms. f = FactId.Symbol (SymbolFact.id s))"

definition known_module :: "ModuleFact list \<Rightarrow> SymbolFact list \<Rightarrow> FactId \<Rightarrow> bool" where
  "known_module mods syms f \<longleftrightarrow>
     (\<exists>m \<in> set mods. f = FactId.Module (ModuleFact.id m)) \<or> (\<exists>s \<in> set syms. \<exists>m. SymbolFact.module s = Some m \<and> f = FactId.Module m)"

lemma caller_known: "caller_fact_id syms call = Some f \<Longrightarrow> known_symbol syms f"
  by (auto simp: caller_fact_id_def known_symbol_def bind_eq_Some_conv split: option.splits dest!: find_in)

lemma callee_known: "resolve_callee (name_to_sym syms n) call scopes ci = Some i \<Longrightarrow> known_symbol syms (FactId.Symbol i)"
  by (auto simp: known_symbol_def name_to_sym_def dest!: resolve_callee_in)

lemma import_target_known: "resolve_import_path mods p = Some m \<Longrightarrow> known_module mods syms (FactId.Module m)"
  by (auto simp: resolve_import_path_def known_module_def Let_def split: option.splits dest!: find_in)

lemma importer_known: "find_module_for_file mods f = Some m \<Longrightarrow> known_module mods syms (FactId.Module m)"
  by (auto simp: find_module_for_file_def known_module_def dest!: find_in)

definition edge_known :: "ModuleFact list \<Rightarrow> SymbolFact list \<Rightarrow> RelationshipFact \<Rightarrow> bool" where
  "edge_known mods syms r \<longleftrightarrow>
     (RelationshipFact.kind r = RelationshipKind.Calls \<and> known_symbol syms (RelationshipFact.source r) \<and>
        known_symbol syms (RelationshipFact.target r)) \<or>
     (RelationshipFact.kind r = RelationshipKind.Imports \<and> known_module mods syms (RelationshipFact.source r) \<and>
        known_module mods syms (RelationshipFact.target r) \<and> RelationshipFact.source r \<noteq> RelationshipFact.target r)"

definition links_ok :: "FactsBuilder \<Rightarrow> ModuleFact list \<Rightarrow> SymbolFact list \<Rightarrow> RelationshipFact list \<Rightarrow> Links \<Rightarrow> bool" where
  "links_ok b mods syms rels st \<longleftrightarrow>
     links_builder st = b\<lparr>FactsBuilder.relationships := FactsBuilder.relationships b @ rels\<rparr> \<and> link_count st = length rels \<and>
     call_edges st = edge_pairs RelationshipKind.Calls rels \<and> import_edges st = edge_pairs RelationshipKind.Imports rels \<and>
     distinct (call_edges st) \<and> distinct (import_edges st) \<and> (\<forall>r \<in> set rels. edge_known mods syms r \<and>
       (RelationshipFact.kind r = RelationshipKind.Imports \<longrightarrow> RelationshipFact.metadata r = provenance_metadata ''verified''))"

lemma links_ok_push_call:
  assumes "links_ok b mods syms rels st" "RelationshipFact.kind r = RelationshipKind.Calls"
    "known_symbol syms (RelationshipFact.source r)" "known_symbol syms (RelationshipFact.target r)"
    "(RelationshipFact.source r, RelationshipFact.target r) \<notin> set (call_edges st)"
  shows "links_ok b mods syms (rels @ [r])
    (st\<lparr>call_edges := call_edges st @ [(RelationshipFact.source r, RelationshipFact.target r)],
       links_builder := FactsBuilder_add_relationship (links_builder st) r, link_count := link_count st + 1\<rparr>)"
  using assms by (auto simp: links_ok_def edge_known_def FactsBuilder_add_relationship_def)

lemma links_ok_push_import:
  assumes "links_ok b mods syms rels st" "RelationshipFact.kind r = RelationshipKind.Imports"
    "known_module mods syms (RelationshipFact.source r)" "known_module mods syms (RelationshipFact.target r)"
    "RelationshipFact.source r \<noteq> RelationshipFact.target r" "RelationshipFact.metadata r = provenance_metadata ''verified''"
    "(RelationshipFact.source r, RelationshipFact.target r) \<notin> set (import_edges st)"
  shows "links_ok b mods syms (rels @ [r])
    (st\<lparr>import_edges := import_edges st @ [(RelationshipFact.source r, RelationshipFact.target r)],
       links_builder := FactsBuilder_add_relationship (links_builder st) r, link_count := link_count st + 1\<rparr>)"
  using assms by (auto simp: links_ok_def edge_known_def FactsBuilder_add_relationship_def)

lemma links_ok_call:
  assumes "links_ok b mods syms rels st"
  shows "\<exists>rels'. links_ok b mods syms rels' (add_call syms scopes call st)"
proof -
  have "add_call syms scopes call st = st \<or>
    (\<exists>i f. resolve_callee (name_to_sym syms (callee_name call)) call scopes (enclosing_impl scopes (caller_file call) (line_start call)) = Some i \<and>
      caller_fact_id syms call = Some f \<and> (f, FactId.Symbol i) \<notin> set (call_edges st))"
    by (auto simp: add_call_def Let_def split: option.splits)
  then consider (skip) "add_call syms scopes call st = st"
    | (add) i f where "resolve_callee (name_to_sym syms (callee_name call)) call scopes (enclosing_impl scopes (caller_file call) (line_start call)) = Some i"
      "caller_fact_id syms call = Some f" "(f, FactId.Symbol i) \<notin> set (call_edges st)" by blast
  then show ?thesis
  proof cases
    case skip
    then show ?thesis using assms by auto
  next
    case add
    have k: "known_symbol syms f" "known_symbol syms (FactId.Symbol i)" using caller_known [OF add(2)] callee_known [OF add(1)] by auto
    let ?r = "(RelationshipFact_new (OpaqueId (calls_rel_id f (caller_file call) (callee_name call) (line_start call) i))
      RelationshipKind.Calls f (FactId.Symbol i))
      \<lparr>RelationshipFact.metadata := provenance_metadata (if from_macro_text call then ''heuristic'' else ''verified'')\<rparr>"
    have "links_ok b mods syms (rels @ [?r]) (add_call syms scopes call st)"
      using links_ok_push_call [OF assms, of ?r] add k by (simp add: add_call_def)
    then show ?thesis by blast
  qed
qed

lemma links_ok_import:
  assumes "links_ok b mods syms rels st"
  shows "\<exists>rels'. links_ok b mods syms rels' (add_import mods imp st)"
proof -
  have "add_import mods imp st = st \<or> (\<exists>i f. resolve_import_path mods (import_path imp) = Some i \<and>
      find_module_for_file mods (import_file imp) = Some f \<and> f \<noteq> i \<and> (FactId.Module f, FactId.Module i) \<notin> set (import_edges st))"
    by (auto simp: add_import_def split: option.splits)
  then consider (skip) "add_import mods imp st = st"
    | (add) i f where "resolve_import_path mods (import_path imp) = Some i" "find_module_for_file mods (import_file imp) = Some f"
      "f \<noteq> i" "(FactId.Module f, FactId.Module i) \<notin> set (import_edges st)" by blast
  then show ?thesis
  proof cases
    case skip
    then show ?thesis using assms by auto
  next
    case add
    have k: "known_module mods syms (FactId.Module f)" "known_module mods syms (FactId.Module i)"
      using importer_known [OF add(2)] import_target_known [OF add(1)] by auto
    let ?r = "(RelationshipFact_new (OpaqueId (''rel::'' @ import_file imp @ arrow @ id_str i @ ''::ast_import''))
      RelationshipKind.Imports (FactId.Module f) (FactId.Module i))\<lparr>RelationshipFact.metadata := provenance_metadata ''verified''\<rparr>"
    have "links_ok b mods syms (rels @ [?r]) (add_import mods imp st)"
      using links_ok_push_import [OF assms, of ?r] add k by (simp add: add_import_def)
    then show ?thesis by blast
  qed
qed

lemma links_ok_fold:
  assumes "\<And>x rels st. links_ok b mods syms rels st \<Longrightarrow> \<exists>rels'. links_ok b mods syms rels' (step x st)"
  shows "links_ok b mods syms rels st \<Longrightarrow> \<exists>rels'. links_ok b mods syms rels' (fold step xs st)"
proof (induction xs arbitrary: rels st)
  case (Cons x xs)
  obtain rels' where "links_ok b mods syms rels' (step x st)" using assms [OF Cons.prems] by blast
  then show ?case using Cons.IH by simp
qed auto

section \<open>What the heuristics add\<close>

lemma namesakes_iff:
  "((symb, sm), (cand, cm)) \<in> set (namesakes syms) \<longleftrightarrow>
     symb \<in> set syms \<and> cand \<in> set syms \<and> SymbolFact.module symb = Some sm \<and> SymbolFact.module cand = Some cm \<and> cm \<noteq> sm \<and>
     SymbolFact.name cand = SymbolFact.name symb \<and> SymbolFact.kind symb = SymbolFact.kind cand"
  by (auto simp: namesakes_def split: if_splits)

definition refs_ok :: "FactsBuilder \<Rightarrow> SymbolFact list \<Rightarrow> (FactId \<times> FactId) list \<Rightarrow> ReferenceFact list \<Rightarrow> RefScan \<Rightarrow> bool" where
  "refs_ok b syms calls refs st \<longleftrightarrow>
     ref_builder st = b\<lparr>FactsBuilder.references := FactsBuilder.references b @ refs\<rparr> \<and> ref_count st = length refs \<and>
     map ReferenceFact.id refs = map OpaqueId (seen_ref_ids st) \<and> distinct (seen_ref_ids st) \<and>
     (\<forall>r \<in> set refs. known_symbol syms (ReferenceFact.referrer r) \<and> known_symbol syms (ReferenceFact.target r) \<and>
        (ReferenceFact.referrer r, ReferenceFact.target r) \<notin> set calls)"

lemma refs_ok_push:
  assumes "refs_ok b syms calls refs st" "ReferenceFact.id r = OpaqueId i" "i \<notin> set (seen_ref_ids st)"
    "known_symbol syms (ReferenceFact.referrer r)" "known_symbol syms (ReferenceFact.target r)"
    "(ReferenceFact.referrer r, ReferenceFact.target r) \<notin> set calls"
  shows "refs_ok b syms calls (refs @ [r])
    (st\<lparr>seen_ref_ids := seen_ref_ids st @ [i], ref_builder := FactsBuilder_add_reference (ref_builder st) r, ref_count := ref_count st + 1\<rparr>)"
  using assms by (auto simp: refs_ok_def FactsBuilder_add_reference_def)

lemma refs_ok_step:
  assumes "refs_ok b syms calls refs st" "p \<in> set (namesakes syms)"
  shows "\<exists>refs'. refs_ok b syms calls refs' (add_heuristic_reference joined calls p st)"
proof -
  obtain symb sm cand cm where p: "p = ((symb, sm), (cand, cm))" by (metis surj_pair)
  define i where "i = ''ref::'' @ id_str sm @ ''::'' @ SymbolFact.name symb @ arrow @ id_str cm @ ''::'' @ SymbolFact.name cand"
  define sf where "sf = FactId.Symbol (SymbolFact.id symb)"
  define cf where "cf = FactId.Symbol (SymbolFact.id cand)"
  let ?r = "(ReferenceFact_new (OpaqueId i) sf cf)\<lparr>ReferenceFact.metadata := provenance_metadata ''heuristic''\<rparr>"
  note step = add_heuristic_reference_def p prod.case Let_def i_def [symmetric] sf_def [symmetric] cf_def [symmetric]
  show ?thesis
  proof (cases "\<not> linked joined sm cm \<or> (sf, cf) \<in> set calls \<or> i \<in> set (seen_ref_ids st)")
    case True
    then have "add_heuristic_reference joined calls p st = st" unfolding step by (rule if_P)
    then show ?thesis using assms(1) by auto
  next
    case False
    have "known_symbol syms sf" "known_symbol syms cf" using assms(2) by (auto simp: p namesakes_iff known_symbol_def sf_def cf_def)
    then have "refs_ok b syms calls (refs @ [?r]) (add_heuristic_reference joined calls p st)"
      unfolding step if_not_P [OF False] using refs_ok_push [OF assms(1), of ?r i] False by simp
    then show ?thesis by blast
  qed
qed

lemma refs_ok_fold:
  "refs_ok b syms calls refs st \<Longrightarrow> set ps \<subseteq> set (namesakes syms) \<Longrightarrow>
    \<exists>refs'. refs_ok b syms calls refs' (fold (add_heuristic_reference joined calls) ps st)"
proof (induction ps arbitrary: refs st)
  case (Cons p ps)
  obtain refs' where "refs_ok b syms calls refs' (add_heuristic_reference joined calls p st)"
    using refs_ok_step [OF Cons.prems(1), of p] Cons.prems(2) by auto
  then show ?case using Cons.IH Cons.prems(2) by simp
qed auto

lemma heuristic_references_built:
  "\<exists>refs. build_heuristic_references b syms calls imports =
       (b\<lparr>FactsBuilder.references := FactsBuilder.references b @ refs\<rparr>, length refs) \<and> distinct (map ReferenceFact.id refs) \<and>
     (\<forall>r \<in> set refs. known_symbol syms (ReferenceFact.referrer r) \<and> known_symbol syms (ReferenceFact.target r) \<and>
        (ReferenceFact.referrer r, ReferenceFact.target r) \<notin> set calls)"
proof -
  let ?st = "\<lparr>ref_builder = b, seen_ref_ids = [], ref_count = 0\<rparr>"
  have "refs_ok b syms calls [] ?st" by (simp add: refs_ok_def)
  from refs_ok_fold [OF this order_refl, of "build_module_relationship_map syms calls imports"]
  obtain refs where r: "refs_ok b syms calls refs
    (fold (add_heuristic_reference (build_module_relationship_map syms calls imports) calls) (namesakes syms) ?st)" by blast
  then have "distinct (map ReferenceFact.id refs)" by (simp add: refs_ok_def distinct_map inj_on_def)
  then show ?thesis using r by (intro exI [of _ refs]) (simp add: build_heuristic_references_def Let_def refs_ok_def)
qed

definition call_joins :: "SymbolFact list \<Rightarrow> (FactId \<times> FactId) list \<Rightarrow> ModuleId \<Rightarrow> ModuleId \<Rightarrow> bool" where
  "call_joins syms calls a b \<longleftrightarrow> (\<exists>e \<in> set calls. call_modules syms e = Some (a, b) \<or> call_modules syms e = Some (b, a))"

lemma set_both_directions: "set (concat (map (\<lambda>(a, b). [(a, b), (b, a)]) xs)) = set xs \<union> (set xs)\<inverse>"
  by (induction xs) auto

lemma set_call_pairs:
  "(FactId.Module a, FactId.Module b) \<in> set (concat (map (\<lambda>e. when_some (call_modules syms e)
     (\<lambda>(a, b). [(FactId.Module a, FactId.Module b), (FactId.Module b, FactId.Module a)])) calls)) \<longleftrightarrow> call_joins syms calls a b"
  unfolding call_joins_def by (induction calls) (auto split: prod.splits)

lemma linked_map:
  "linked (build_module_relationship_map syms calls imports) a b \<longleftrightarrow> call_joins syms calls a b \<or> linked imports a b"
proof -
  have "call_joins syms calls b a = call_joins syms calls a b" by (auto simp: call_joins_def)
  then show ?thesis
    unfolding linked_def build_module_relationship_map_def set_append Un_iff set_call_pairs set_both_directions by auto
qed

abbreviation module_pair :: "ModuleId \<times> ModuleId \<Rightarrow> FactId \<times> FactId" where
  "module_pair e \<equiv> (FactId.Module (fst e), FactId.Module (snd e))"

definition heuristic_ok :: "SymbolFact list \<Rightarrow> (FactId \<times> FactId) list \<Rightarrow> (FactId \<times> FactId) list \<Rightarrow> RelationshipFact \<Rightarrow> bool" where
  "heuristic_ok syms calls imports r \<longleftrightarrow>
     (\<exists>a b. RelationshipFact.kind r = RelationshipKind.Imports \<and> RelationshipFact.source r = FactId.Module a \<and>
        RelationshipFact.target r = FactId.Module b \<and> a \<noteq> b \<and>
        known_module [] syms (FactId.Module a) \<and> known_module [] syms (FactId.Module b) \<and>
        call_joins syms calls a b \<and> \<not> linked imports a b \<and> RelationshipFact.metadata r = provenance_metadata ''heuristic'')"

definition imports_ok ::
    "FactsBuilder \<Rightarrow> SymbolFact list \<Rightarrow> (FactId \<times> FactId) list \<Rightarrow> (FactId \<times> FactId) list \<Rightarrow> RelationshipFact list \<Rightarrow> ImportScan \<Rightarrow> bool" where
  "imports_ok b syms calls imports rels st \<longleftrightarrow>
     import_builder st = b\<lparr>FactsBuilder.relationships := FactsBuilder.relationships b @ rels\<rparr> \<and> import_count st = length rels \<and>
     edge_pairs RelationshipKind.Imports rels = map module_pair (seen_edges st) \<and> distinct (seen_edges st) \<and>
     (\<forall>r \<in> set rels. heuristic_ok syms calls imports r)"

lemma imports_ok_push:
  assumes "imports_ok b syms calls imports rels st" "RelationshipFact.source r = FactId.Module x" "RelationshipFact.target r = FactId.Module y"
    "(x, y) \<notin> set (seen_edges st)" "heuristic_ok syms calls imports r"
  shows "imports_ok b syms calls imports (rels @ [r])
    (st\<lparr>seen_edges := seen_edges st @ [(x, y)], import_builder := FactsBuilder_add_relationship (import_builder st) r,
       import_count := import_count st + 1\<rparr>)"
proof -
  have "RelationshipFact.kind r = RelationshipKind.Imports" using assms(5) by (auto simp: heuristic_ok_def)
  then show ?thesis using assms by (auto simp: imports_ok_def FactsBuilder_add_relationship_def)
qed

lemma imports_ok_step:
  assumes "imports_ok b syms calls imports rels st" "p \<in> set (namesakes syms)"
  shows "\<exists>rels'. imports_ok b syms calls imports rels' (add_heuristic_import (build_module_relationship_map syms calls imports) imports p st)"
proof -
  let ?J = "build_module_relationship_map syms calls imports"
  obtain symb sm cand cm where p: "p = ((symb, sm), (cand, cm))" by (metis surj_pair)
  define x where "x = (if id_str cm \<le> id_str sm then cm else sm)"
  define y where "y = (if id_str cm \<le> id_str sm then sm else cm)"
  let ?r = "(RelationshipFact_new (OpaqueId (''rel::'' @ id_str x @ arrow @ id_str y @ ''::heuristic_import''))
      RelationshipKind.Imports (FactId.Module x) (FactId.Module y))\<lparr>RelationshipFact.metadata := provenance_metadata ''heuristic''\<rparr>"
  have xy: "(if id_str cm \<le> id_str sm then (cm, sm) else (sm, cm)) = (x, y)" by (simp add: x_def y_def)
  note step = add_heuristic_import_def p prod.case Let_def xy
  show ?thesis
  proof (cases "(x, y) \<in> set (seen_edges st) \<or> \<not> linked ?J x y \<or> linked imports x y")
    case True
    then have "add_heuristic_import ?J imports p st = st" unfolding step by (rule if_P)
    then show ?thesis using assms(1) by auto
  next
    case False
    have "x \<noteq> y" "known_module [] syms (FactId.Module x)" "known_module [] syms (FactId.Module y)"
      using assms(2) by (auto simp: p namesakes_iff known_module_def x_def y_def)
    then have "heuristic_ok syms calls imports ?r" using False by (auto simp: heuristic_ok_def linked_map)
    then have "imports_ok b syms calls imports (rels @ [?r]) (add_heuristic_import ?J imports p st)"
      unfolding step if_not_P [OF False] using imports_ok_push [OF assms(1), of ?r x y] False by simp
    then show ?thesis by blast
  qed
qed

lemma imports_ok_fold:
  "imports_ok b syms calls imports rels st \<Longrightarrow> set ps \<subseteq> set (namesakes syms) \<Longrightarrow>
    \<exists>rels'. imports_ok b syms calls imports rels' (fold (add_heuristic_import (build_module_relationship_map syms calls imports) imports) ps st)"
proof (induction ps arbitrary: rels st)
  case (Cons p ps)
  obtain rels' where "imports_ok b syms calls imports rels' (add_heuristic_import (build_module_relationship_map syms calls imports) imports p st)"
    using imports_ok_step [OF Cons.prems(1), of p] Cons.prems(2) by auto
  then show ?case using Cons.IH Cons.prems(2) by simp
qed auto

lemma heuristic_imports_built:
  "\<exists>rels. build_heuristic_imports b syms calls imports =
       (b\<lparr>FactsBuilder.relationships := FactsBuilder.relationships b @ rels\<rparr>, length rels) \<and>
     distinct (edge_pairs RelationshipKind.Imports rels) \<and> (\<forall>r \<in> set rels. heuristic_ok syms calls imports r)"
proof -
  let ?st = "\<lparr>import_builder = b, seen_edges = [], import_count = 0\<rparr>"
  have "imports_ok b syms calls imports [] ?st" by (simp add: imports_ok_def)
  from imports_ok_fold [OF this order_refl]
  obtain rels where r: "imports_ok b syms calls imports rels
    (fold (add_heuristic_import (build_module_relationship_map syms calls imports) imports) (namesakes syms) ?st)" by blast
  then have "distinct (edge_pairs RelationshipKind.Imports rels)"
    by (simp add: imports_ok_def distinct_map inj_on_def prod_eq_iff)
  then show ?thesis using r by (intro exI [of _ rels]) (simp add: build_heuristic_imports_def Let_def imports_ok_def)
qed

section \<open>The construction\<close>

lemma build_relationships_parts:
  assumes "build_relationships b mods syms calls imports scopes = (b', n, edges)"
  obtains ast heur refs where
    "b' = b\<lparr>FactsBuilder.relationships := FactsBuilder.relationships b @ ast @ heur, FactsBuilder.references := FactsBuilder.references b @ refs\<rparr>"
    "n = length ast + length heur + length refs" "edges = edge_pairs RelationshipKind.Calls ast"
    "\<And>k. distinct (edge_pairs k ast)" "distinct (edge_pairs RelationshipKind.Imports heur)" "distinct (map ReferenceFact.id refs)"
    "\<forall>r \<in> set ast. edge_known mods syms r \<and>
       (RelationshipFact.kind r = RelationshipKind.Imports \<longrightarrow> RelationshipFact.metadata r = provenance_metadata ''verified'')"
    "\<forall>r \<in> set heur. heuristic_ok syms edges (edge_pairs RelationshipKind.Imports ast) r"
    "\<forall>r \<in> set refs. known_symbol syms (ReferenceFact.referrer r) \<and> known_symbol syms (ReferenceFact.target r) \<and>
       (ReferenceFact.referrer r, ReferenceFact.target r) \<notin> set edges"
proof -
  let ?st = "\<lparr>links_builder = b, call_edges = [], import_edges = [], link_count = 0\<rparr>"
  define ls where "ls = fold (add_import mods) imports (fold (add_call syms scopes) calls ?st)"
  have "links_ok b mods syms [] ?st" by (simp add: links_ok_def)
  then obtain r1 where "links_ok b mods syms r1 (fold (add_call syms scopes) calls ?st)"
    using links_ok_fold [of b mods syms "add_call syms scopes"] links_ok_call by blast
  then obtain ast where a: "links_ok b mods syms ast ls"
    using links_ok_fold [of b mods syms "add_import mods"] links_ok_import unfolding ls_def by blast
  let ?I = "import_edges ls" and ?C = "call_edges ls"
  obtain refs where r: "build_heuristic_references (links_builder ls) syms ?C ?I =
      ((links_builder ls)\<lparr>FactsBuilder.references := FactsBuilder.references (links_builder ls) @ refs\<rparr>, length refs)"
    "distinct (map ReferenceFact.id refs)"
    "\<forall>r \<in> set refs. known_symbol syms (ReferenceFact.referrer r) \<and> known_symbol syms (ReferenceFact.target r) \<and>
       (ReferenceFact.referrer r, ReferenceFact.target r) \<notin> set ?C"
    using heuristic_references_built [of "links_builder ls" syms ?C ?I] by blast
  let ?b1 = "(links_builder ls)\<lparr>FactsBuilder.references := FactsBuilder.references (links_builder ls) @ refs\<rparr>"
  obtain heur where h: "build_heuristic_imports ?b1 syms ?C ?I =
      (?b1\<lparr>FactsBuilder.relationships := FactsBuilder.relationships ?b1 @ heur\<rparr>, length heur)"
    "distinct (edge_pairs RelationshipKind.Imports heur)" "\<forall>r \<in> set heur. heuristic_ok syms ?C ?I r"
    using heuristic_imports_built [of ?b1 syms ?C ?I] by blast
  have e: "build_relationships b mods syms calls imports scopes =
    (?b1\<lparr>FactsBuilder.relationships := FactsBuilder.relationships ?b1 @ heur\<rparr>, link_count ls + (length refs + length heur), ?C)"
    by (simp add: build_relationships_def Let_def ls_def [symmetric] r(1) h(1))
  have d: "distinct (edge_pairs k ast)" for k
  proof (cases "k = RelationshipKind.Calls \<or> k = RelationshipKind.Imports")
    case True
    then show ?thesis using a by (auto simp: links_ok_def)
  next
    case False
    then have "edge_pairs k ast = []" using a by (auto simp: links_ok_def edge_known_def edge_pairs_def filter_empty_conv)
    then show ?thesis by simp
  qed
  show ?thesis
  proof (rule that [where ast = ast and heur = heur and refs = refs])
    show "b' = b\<lparr>FactsBuilder.relationships := FactsBuilder.relationships b @ ast @ heur, FactsBuilder.references := FactsBuilder.references b @ refs\<rparr>"
      "n = length ast + length heur + length refs" "edges = edge_pairs RelationshipKind.Calls ast"
      using assms a unfolding e links_ok_def by auto
    then show "\<forall>r \<in> set heur. heuristic_ok syms edges (edge_pairs RelationshipKind.Imports ast) r"
      "\<forall>r \<in> set refs. known_symbol syms (ReferenceFact.referrer r) \<and> known_symbol syms (ReferenceFact.target r) \<and>
       (ReferenceFact.referrer r, ReferenceFact.target r) \<notin> set edges"
      using h(3) r(3) a by (simp_all add: links_ok_def)
  qed (use d h(2) r(2) a in \<open>auto simp: links_ok_def\<close>)
qed

text \<open>C24: The construction only appends facts, and appends each edge once: the call edges it returns are the pairs of the call
relationships it added, in order, the returned number counts the added facts, no pair carries two relationships of
the same kind (the heuristic imports repeat no parsed import in either direction), and no two references share an id.\<close>

theorem construction_adds_each_edge_once:
  assumes "build_relationships b mods syms calls imports scopes = (b', n, edges)"
  shows "\<exists>rels refs. b' = b\<lparr>FactsBuilder.relationships := FactsBuilder.relationships b @ rels, FactsBuilder.references := FactsBuilder.references b @ refs\<rparr> \<and>
    n = length rels + length refs \<and> edges = edge_pairs RelationshipKind.Calls rels \<and>
    distinct (edge_pairs RelationshipKind.Calls rels) \<and> distinct (edge_pairs RelationshipKind.Imports rels) \<and>
    distinct (map ReferenceFact.id refs)"
proof -
  obtain ast heur refs where p:
    "b' = b\<lparr>FactsBuilder.relationships := FactsBuilder.relationships b @ ast @ heur, FactsBuilder.references := FactsBuilder.references b @ refs\<rparr>"
    "n = length ast + length heur + length refs" "edges = edge_pairs RelationshipKind.Calls ast"
    "\<And>k. distinct (edge_pairs k ast)" "distinct (edge_pairs RelationshipKind.Imports heur)" "distinct (map ReferenceFact.id refs)"
    "\<forall>r \<in> set heur. heuristic_ok syms edges (edge_pairs RelationshipKind.Imports ast) r"
    using build_relationships_parts [OF assms] by metis
  have "edge_pairs RelationshipKind.Calls heur = []"
    using p(7) by (auto simp: edge_pairs_def filter_empty_conv heuristic_ok_def)
  moreover have "set (edge_pairs RelationshipKind.Imports ast) \<inter> set (edge_pairs RelationshipKind.Imports heur) = {}"
  proof (intro equals0I)
    fix e assume e: "e \<in> set (edge_pairs RelationshipKind.Imports ast) \<inter> set (edge_pairs RelationshipKind.Imports heur)"
    then obtain r where "r \<in> set heur" "e = (RelationshipFact.source r, RelationshipFact.target r)" by (auto simp: edge_pairs_def)
    then have "e \<notin> set (edge_pairs RelationshipKind.Imports ast)" using p(7) by (auto simp: heuristic_ok_def linked_def)
    then show False using e by blast
  qed
  ultimately show ?thesis using p by (intro exI [of _ "ast @ heur"] exI [of _ refs]) auto
qed

text \<open>C13: Every added edge connects facts that exist: calls and references connect given symbols, imports connect two different
modules that are given or own a given symbol, and a reference never repeats a call edge. An import by equal
names only appears between two modules that some returned call edge connects.\<close>

theorem construction_edges_resolve:
  assumes "build_relationships b mods syms calls imports scopes = (b', n, edges)"
  shows "\<exists>rels refs. b' = b\<lparr>FactsBuilder.relationships := FactsBuilder.relationships b @ rels, FactsBuilder.references := FactsBuilder.references b @ refs\<rparr> \<and>
    (\<forall>r \<in> set rels. edge_known mods syms r) \<and>
    (\<forall>r \<in> set refs. known_symbol syms (ReferenceFact.referrer r) \<and> known_symbol syms (ReferenceFact.target r) \<and>
       (ReferenceFact.referrer r, ReferenceFact.target r) \<notin> set edges) \<and>
    (\<forall>r \<in> set rels. RelationshipFact.kind r = RelationshipKind.Imports \<longrightarrow>
       RelationshipFact.metadata r \<noteq> provenance_metadata ''verified'' \<longrightarrow>
       (\<exists>x y. RelationshipFact.source r = FactId.Module x \<and> RelationshipFact.target r = FactId.Module y \<and> call_joins syms edges x y))"
proof -
  obtain ast heur refs where p:
    "b' = b\<lparr>FactsBuilder.relationships := FactsBuilder.relationships b @ ast @ heur, FactsBuilder.references := FactsBuilder.references b @ refs\<rparr>"
    "\<forall>r \<in> set ast. edge_known mods syms r \<and>
       (RelationshipFact.kind r = RelationshipKind.Imports \<longrightarrow> RelationshipFact.metadata r = provenance_metadata ''verified'')"
    "\<forall>r \<in> set heur. heuristic_ok syms edges (edge_pairs RelationshipKind.Imports ast) r"
    "\<forall>r \<in> set refs. known_symbol syms (ReferenceFact.referrer r) \<and> known_symbol syms (ReferenceFact.target r) \<and>
       (ReferenceFact.referrer r, ReferenceFact.target r) \<notin> set edges"
    using build_relationships_parts [OF assms] by metis
  have "edge_known mods syms r" if "r \<in> set heur" for r
    using p(3) that by (auto simp: heuristic_ok_def edge_known_def known_module_def)
  moreover have "\<exists>x y. RelationshipFact.source r = FactId.Module x \<and> RelationshipFact.target r = FactId.Module y \<and> call_joins syms edges x y"
    if "r \<in> set heur" for r using p(3) that by (auto simp: heuristic_ok_def)
  ultimately show ?thesis using p by (intro exI [of _ "ast @ heur"] exI [of _ refs]) auto
qed

section \<open>Resolution\<close>

lemma min_by_key_Some:
  "min_by_key key xs = Some x \<Longrightarrow> x \<in> set xs \<and> (\<forall>y \<in> set xs. key x \<le> key y)"
proof (induction xs arbitrary: x)
  case (Cons a xs)
  show ?case
  proof (cases "min_by_key key xs")
    case None
    then show ?thesis using Cons.prems by (cases xs) (auto split: option.splits if_splits)
  next
    case (Some y)
    have "y \<in> set xs" "\<forall>z \<in> set xs. key y \<le> key z" using Cons.IH [OF Some] by auto
    then show ?thesis using Cons.prems Some by (auto split: if_splits intro: order_trans)
  qed
qed simp

lemma min_by_key_None: "min_by_key key xs = None \<longleftrightarrow> xs = []"
  by (cases xs) (auto split: option.splits)

lemma enclosing_impl_innermost:
  "enclosing_impl scopes file at_line = Some ty \<Longrightarrow>
    \<exists>s \<in> set scopes. type_name s = ty \<and> scope_file s = file \<and> scope_start s \<le> at_line \<and> at_line \<le> scope_end s \<and>
      (\<forall>t \<in> set scopes. scope_file t = file \<longrightarrow> scope_start t \<le> at_line \<longrightarrow> at_line \<le> scope_end t \<longrightarrow>
         scope_end s - scope_start s \<le> scope_end t - scope_start t)"
proof -
  assume "enclosing_impl scopes file at_line = Some ty"
  then obtain s where s: "min_by_key (\<lambda>s. if scope_start s \<le> scope_end s then scope_end s - scope_start s else 0)
      (filter (\<lambda>s. scope_file s = file \<and> scope_start s \<le> at_line \<and> at_line \<le> scope_end s) scopes) = Some s" "type_name s = ty"
    by (auto simp: enclosing_impl_def)
  note m = min_by_key_Some [OF s(1)]
  have o: "scope_start t \<le> scope_end t" if "scope_start t \<le> at_line" "at_line \<le> scope_end t" for t using that by (rule order_trans)
  have "scope_end s - scope_start s \<le> scope_end t - scope_start t"
    if t: "t \<in> set scopes" "scope_file t = file" "scope_start t \<le> at_line" "at_line \<le> scope_end t" for t
    using m t o [OF t(3, 4)] o [of s] by auto
  then show ?thesis using m s(2) by auto
qed

lemma typed_candidates_singleton:
  "typed_candidates scopes cands ty = [i] \<longleftrightarrow> {SymbolFact.id s | s. s \<in> set cands \<and> symbol_impl scopes s = Some ty} = {i}"
proof -
  have s: "set (typed_candidates scopes cands ty) = {SymbolFact.id s | s. s \<in> set cands \<and> symbol_impl scopes s = Some ty}"
    by (auto simp: typed_candidates_in)
  have "distinct (typed_candidates scopes cands ty)" by (simp add: typed_candidates_def)
  then have "typed_candidates scopes cands ty = [i] \<longleftrightarrow> set (typed_candidates scopes cands ty) = {i}"
    by (cases "typed_candidates scopes cands ty" rule: list.exhaust [case_product list.exhaust [of "tl (typed_candidates scopes cands ty)"]]) auto
  then show ?thesis by (simp only: s)
qed

text \<open>A call that names a type with an \<^verbatim>\<open>impl\<close> block resolves exactly when one candidate (up to equal ids) lies in a block
of that type, and then to that candidate: bare-name rules never apply to it.\<close>

theorem receiver_call_exact:
  assumes "receiver_type call = Some ty" "ty \<noteq> ''self''" "ty \<noteq> ''Self''" "\<exists>s \<in> set scopes. type_name s = ty"
  shows "resolve_callee cands call scopes caller_impl = Some i \<longleftrightarrow>
    {SymbolFact.id s | s. s \<in> set cands \<and> symbol_impl scopes s = Some ty} = {i}"
proof -
  have w: "wanted_impl call caller_impl = Some ty" using assms(1-3) by (simp add: wanted_impl_def)
  have k: "list_ex (\<lambda>s. type_name s = ty) scopes" using assms(4) by (auto simp: list_ex_iff)
  have "typed_candidates scopes [] ty = []" by (simp add: typed_candidates_def sort_dedup_def)
  then have "resolve_callee cands call scopes caller_impl = Some i \<longleftrightarrow> typed_candidates scopes cands ty = [i]"
    using w k by (cases "cands = []") (auto simp: resolve_callee_def split: list.splits)
  then show ?thesis by (simp only: typed_candidates_singleton)
qed

text \<open>An import path that ends in a dot (such as a Python package-relative import, whose text is a single dot) has an empty last
segment, every module name ends with it, and the import resolves to the first module.\<close>

lemma last_split_trailing: "last (split_from d acc (p @ [d])) = []"
  by (induction p arbitrary: acc) (simp_all add: last_ConsR)

theorem trailing_dot_imports_first_module:
  "resolve_import_path (m # mods) (p @ ''.'') = Some (ModuleFact.id m)"
  by (simp add: resolve_import_path_def split_char_def last_split_trailing ends_with_str_def Let_def)

text \<open>Several candidates of one module are ambiguous, yet an unqualified call resolves to the first of them.\<close>

theorem same_module_ambiguity_resolves:
  assumes "\<not> is_qualified call" "receiver_type call = None" "\<forall>t \<in> set ss. SymbolFact.module t = SymbolFact.module s"
  shows "resolve_callee (s # ss) call scopes None = Some (SymbolFact.id s)"
  using assms by (simp add: resolve_callee_def wanted_impl_def untyped_callee_def bare_name_callee_def list_all_iff)

section \<open>Samples\<close>

definition sample_symbol :: "string \<Rightarrow> string \<Rightarrow> string \<Rightarrow> 32 word \<Rightarrow> string \<Rightarrow> SymbolFact" where
  "sample_symbol i n file at_line m = (SymbolFact_new (OpaqueId i) n SymbolKind.Function)
     \<lparr>SymbolFact.location := SourceLocation_new\<lparr>loc_file := Some file, SourceLocation.line := Some at_line\<rparr>,
      SymbolFact.module := Some (OpaqueId m)\<rparr>"

definition sample_symbols :: "SymbolFact list" where
  "sample_symbols = [sample_symbol ''s1'' ''run'' ''a.rs'' 1 ''ma'', sample_symbol ''s2'' ''save'' ''b.rs'' 5 ''mb'',
     sample_symbol ''s3'' ''run'' ''b.rs'' 9 ''mb'']"

definition sample_modules :: "ModuleFact list" where
  "sample_modules = [(ModuleFact_new (OpaqueId ''ma'') ''a'')\<lparr>ModuleFact.path := Some ''a.rs''\<rparr>,
     (ModuleFact_new (OpaqueId ''mb'') ''b'')\<lparr>ModuleFact.path := Some ''b.rs''\<rparr>]"

definition sample_call :: "string option \<Rightarrow> bool \<Rightarrow> ParseCall" where
  "sample_call receiver from_macro = \<lparr>caller_file = ''a.rs'', caller_symbol = Some ''run'', line_start = 2, callee_name = ''save'',
     is_qualified = (receiver \<noteq> None), receiver_type = receiver, from_macro_text = from_macro\<rparr>"

definition sample_scopes :: "ImplScope list" where
  "sample_scopes = [\<lparr>scope_file = ''b.rs'', scope_start = 3, scope_end = 12, type_name = ''User''\<rparr>]"

abbreviation sample_build :: "ParseCall list \<Rightarrow> FactsBuilder \<times> nat \<times> (FactId \<times> FactId) list" where
  "sample_build calls \<equiv> build_relationships FactsBuilder_new sample_modules sample_symbols calls
     [\<lparr>import_file = ''b.rs'', import_line = 1, import_path = ''.'', import_alias = None\<rparr>] sample_scopes"

lemma sample_call_resolved [simp]:
  "resolve_callee (name_to_sym sample_symbols (callee_name (sample_call r m))) (sample_call r m) sample_scopes
     (enclosing_impl sample_scopes (caller_file (sample_call r m)) (line_start (sample_call r m))) = Some (OpaqueId ''s2'')"
  "caller_fact_id sample_symbols (sample_call r m) = Some (FactId.Symbol (OpaqueId ''s1''))"
  "from_macro_text (sample_call r m) = m"
  if "r = None \<or> r = Some ''User''"
  using that by (cases m; auto; code_simp)+

lemma sample_import_resolved [simp]:
  "resolve_import_path sample_modules ''.'' = Some (OpaqueId ''ma'')" "find_module_for_file sample_modules ''b.rs'' = Some (OpaqueId ''mb'')"
  by code_simp+

lemma no_heuristic_import:
  assumes "heuristic_ok sample_symbols calls [(FactId.Module (OpaqueId ''mb''), FactId.Module (OpaqueId ''ma''))] r"
  shows False
  using assms by (auto simp: heuristic_ok_def known_module_def linked_def sample_symbols_def sample_symbol_def SymbolFact_new_def)

lemma sample_built:
  assumes "r = None \<or> r = Some ''User''"
  shows "map RelationshipFact.metadata (FactsBuilder.relationships (fst (sample_build (sample_call r m # map (sample_call None) ms)))) =
      [provenance_metadata (if m then ''heuristic'' else ''verified''), provenance_metadata ''verified'']"
    "snd (snd (sample_build (sample_call r m # map (sample_call None) ms))) = [(FactId.Symbol (OpaqueId ''s1''), FactId.Symbol (OpaqueId ''s2''))]"
proof -
  let ?e = "(FactId.Symbol (OpaqueId ''s1''), FactId.Symbol (OpaqueId ''s2''))"
  let ?st = "\<lparr>links_builder = FactsBuilder_new, call_edges = [], import_edges = [], link_count = 0\<rparr>"
  have skip: "fold (add_call sample_symbols sample_scopes) (map (sample_call None) ms) st = st" if "?e \<in> set (call_edges st)" for st
    using that by (induction ms) (simp_all add: add_call_def)
  obtain i where f: "add_call sample_symbols sample_scopes (sample_call r m) ?st =
      \<lparr>links_builder = FactsBuilder_add_relationship FactsBuilder_new
         ((RelationshipFact_new i RelationshipKind.Calls (fst ?e) (snd ?e))
           \<lparr>RelationshipFact.metadata := provenance_metadata (if m then ''heuristic'' else ''verified'')\<rparr>),
        call_edges = [?e], import_edges = [], link_count = 1\<rparr>"
  proof
    show "add_call sample_symbols sample_scopes (sample_call r m) ?st =
      \<lparr>links_builder = FactsBuilder_add_relationship FactsBuilder_new
         ((RelationshipFact_new (OpaqueId (calls_rel_id (fst ?e) (caller_file (sample_call r m)) (callee_name (sample_call r m))
             (line_start (sample_call r m)) (OpaqueId ''s2''))) RelationshipKind.Calls (fst ?e) (snd ?e))
           \<lparr>RelationshipFact.metadata := provenance_metadata (if m then ''heuristic'' else ''verified'')\<rparr>),
        call_edges = [?e], import_edges = [], link_count = 1\<rparr>"
      using assms by (simp add: add_call_def)
  qed
  have c: "fold (add_call sample_symbols sample_scopes) (sample_call r m # map (sample_call None) ms) ?st =
      add_call sample_symbols sample_scopes (sample_call r m) ?st"
    by (simp add: skip f)
  let ?I = "[(FactId.Module (OpaqueId ''mb''), FactId.Module (OpaqueId ''ma''))] :: (FactId \<times> FactId) list"
  obtain L where l: "fold (add_import sample_modules) [\<lparr>import_file = ''b.rs'', import_line = 1, import_path = ''.'', import_alias = None\<rparr>]
      (fold (add_call sample_symbols sample_scopes) (sample_call r m # map (sample_call None) ms) ?st) = L"
    "map RelationshipFact.metadata (FactsBuilder.relationships (links_builder L)) =
      [provenance_metadata (if m then ''heuristic'' else ''verified''), provenance_metadata ''verified'']"
    "call_edges L = [?e]" "import_edges L = ?I"
    unfolding c f by (simp add: add_import_def FactsBuilder_add_relationship_def FactsBuilder_new_def)
  obtain refs where r: "build_heuristic_references (links_builder L) sample_symbols [?e] ?I =
      ((links_builder L)\<lparr>FactsBuilder.references := FactsBuilder.references (links_builder L) @ refs\<rparr>, length refs)"
    using heuristic_references_built [of "links_builder L" sample_symbols "[?e]" ?I] by blast
  let ?b1 = "(links_builder L)\<lparr>FactsBuilder.references := FactsBuilder.references (links_builder L) @ refs\<rparr>"
  obtain heur where h: "build_heuristic_imports ?b1 sample_symbols [?e] ?I =
      (?b1\<lparr>FactsBuilder.relationships := FactsBuilder.relationships ?b1 @ heur\<rparr>, length heur)"
    "\<forall>r \<in> set heur. heuristic_ok sample_symbols [?e] ?I r"
    using heuristic_imports_built [of ?b1 sample_symbols "[?e]" ?I] by blast
  then have "heur = []" using no_heuristic_import by (cases heur) auto
  then show "map RelationshipFact.metadata (FactsBuilder.relationships (fst (sample_build (sample_call r m # map (sample_call None) ms)))) =
      [provenance_metadata (if m then ''heuristic'' else ''verified''), provenance_metadata ''verified'']"
    "snd (snd (sample_build (sample_call r m # map (sample_call None) ms))) = [?e]"
    using l(2) r h(1) unfolding build_relationships_def l(1) Let_def l(3) l(4) by simp_all
qed

text \<open>The header of the source has the parsed edge win over the heuristic one. A call recovered from macro text comes first
here, and the parsed call with the same ends leaves no trace.\<close>

theorem macro_call_hides_parsed_call:
  "map RelationshipFact.metadata (FactsBuilder.relationships (fst (sample_build [sample_call None True, sample_call None False]))) =
     [provenance_metadata ''heuristic'', provenance_metadata ''verified'']"
  "snd (snd (sample_build [sample_call None True, sample_call None False])) =
     [(FactId.Symbol (OpaqueId ''s1''), FactId.Symbol (OpaqueId ''s2''))]"
  using sample_built [of None True "[False]"] by simp_all

theorem construction_adds_each_edge_once_witness:
  "\<exists>b' n edges. sample_build [sample_call (Some ''User'') False] = (b', n, edges) \<and> length edges = 1 \<and>
    edges = edge_pairs RelationshipKind.Calls (FactsBuilder.relationships b') \<and>
    distinct (edge_pairs RelationshipKind.Imports (FactsBuilder.relationships b'))"
proof -
  obtain b' n edges where s: "sample_build [sample_call (Some ''User'') False] = (b', n, edges)" by (cases "sample_build [sample_call (Some ''User'') False]")
  have "length edges = 1" using sample_built(2) [of "Some ''User''" False "[]"] s by simp
  moreover have "FactsBuilder.relationships FactsBuilder_new = []" by (simp add: FactsBuilder_new_def)
  ultimately show ?thesis using construction_adds_each_edge_once [OF s] s by auto
qed

theorem construction_edges_resolve_witness:
  "\<exists>b' n edges. sample_build [sample_call None False] = (b', n, edges) \<and> length (FactsBuilder.relationships b') = 2 \<and>
    (\<forall>r \<in> set (FactsBuilder.relationships b'). edge_known sample_modules sample_symbols r)"
proof -
  obtain b' n edges where s: "sample_build [sample_call None False] = (b', n, edges)" by (cases "sample_build [sample_call None False]")
  have "length (map RelationshipFact.metadata (FactsBuilder.relationships b')) = 2" using sample_built(1) [of None False "[]"] s by simp
  moreover have "FactsBuilder.relationships FactsBuilder_new = []" by (simp add: FactsBuilder_new_def)
  ultimately show ?thesis using construction_edges_resolve [OF s] s by auto
qed

theorem receiver_call_exact_witness:
  "resolve_callee (name_to_sym sample_symbols ''save'') (sample_call (Some ''User'') False) sample_scopes None = Some (OpaqueId ''s2'') \<and>
   {SymbolFact.id s | s. s \<in> set (name_to_sym sample_symbols ''save'') \<and> symbol_impl sample_scopes s = Some ''User''} = {OpaqueId ''s2''}"
proof -
  have "resolve_callee (name_to_sym sample_symbols ''save'') (sample_call (Some ''User'') False) sample_scopes None = Some (OpaqueId ''s2'')"
    by code_simp
  moreover have "receiver_type (sample_call (Some ''User'') False) = Some ''User''" "\<exists>s \<in> set sample_scopes. type_name s = ''User''"
    by (simp_all add: sample_call_def sample_scopes_def)
  ultimately show ?thesis
    using receiver_call_exact [of "sample_call (Some ''User'') False" "''User''" sample_scopes "name_to_sym sample_symbols ''save''" None "OpaqueId ''s2''"]
    by simp
qed

end
