(* ===== verification/Spec2Isabelle.thy ===== *)
theory Spec2Isabelle
  imports Fact_Store_Validation Repo_Identity Change_Transaction Provenance Eng_Memory_Runtime
    Impact_Analysis Impact_Health Impact_Relationships
begin

text \<open>
  CodeBro is a local engineering runtime for coding agents, written in Rust. It scans a
  repository into facts, freezes them into an indexed store, keeps memory and tasks about them,
  and lets an agent change files through one guarded seam. This development models four
  subsystems: the fact store, the impact engine that reads its graph of relationships, the change
  engine, and the memory runtime with the engineering memory on top of it; with them the repository
  state, identity and provenance that tie facts and claims to a revision.

  \<^bold>\<open>Parts and theories\<close> (paths below \<^verbatim>\<open>src/crates\<close>)

  \<^item> \<open>Prelude\<close>, \<open>Rust_Text\<close>, \<open>Host_Fs\<close>: what the sources use of the language and its standard
    library. Sorting and deduplication of vectors, the halving loop of \<open>binary_search_by\<close> and
    \<open>partition_point\<close>, decimal printing, UTF-8 decoding, \<open>trim\<close>, \<open>lines\<close>, \<open>split\<close>, Unix paths by
    components, and a file system with symbolic links and faults. \<open>Host_Fs\<close> also has the error
    type of \<^verbatim>\<open>core/src/error.rs\<close> and \<open>write_atomic\<close> of \<^verbatim>\<open>core/src/persistence.rs\<close>.
  \<^item> \<open>Fact_Types\<close>, \<open>Fact_Ids\<close>, \<open>Fact_Entities\<close>: the vocabulary of
    \<^verbatim>\<open>fact-store/src/engineering_facts\<close>: ten enums with their name tables, typed ids and their
    union \<open>FactId\<close>, locations, metadata, and the fourteen fact structs.
  \<^item> \<open>Facts_Model\<close>: \<open>FactsBuilder\<close> absorbs facts in any order and freezes them into a
    \<open>FactsModel\<close> whose categories are sorted by id; lookups are binary searches. State of the
    builder and of the model is a record with one list per category.
  \<^item> \<open>Facts_Validation\<close>: the eight rules of \<open>FactsValidator::validate\<close>.
  \<^item> \<open>Fact_Index\<close>, \<open>Fact_Store\<close>, \<open>Fact_Store_Validation\<close>: \<^verbatim>\<open>fact-store/src/fact_store\<close>. The store
    holds a collection and its primary and reverse indexes; lookup, query, snapshot and
    statistics read it; store validation checks it by five more rules.
  \<^item> \<open>Repo_State\<close>, \<open>Repo_Identity\<close>: \<^verbatim>\<open>core/src/repo_state.rs\<close>. The revision a model is stamped
    with (\<open>FactsBuilder\<close> carries it as the generation state), and the identity of a workspace.
  \<^item> \<open>Patch_Engine\<close>: \<^verbatim>\<open>core/src/tools/patch.rs\<close> and \<^verbatim>\<open>change.rs\<close>: line diff, hunks, reconstruction,
    the exactness gate before a write, change plans.
  \<^item> \<open>Change_Engine\<close>: \<^verbatim>\<open>change-engine/src/coding/change_engine.rs\<close>: containment of paths,
    preparation, apply, creation, verification and rollback of one change. It calls the patch
    engine for existing files.
  \<^item> \<open>Change_Transaction\<close>: \<^verbatim>\<open>change-engine/src/coding/transaction.rs\<close>: a set of changes applied in
    order and rolled back in reverse order when one of them fails. It calls the change engine.
  \<^item> \<open>Rust_Values\<close>: floating point as reals with infinities and NaN (\<open>partial_cmp\<close>, \<open>clamp\<close>, a
    rounding function as parameter), stable sorting by a comparison, hash maps as association
    lists visited in an arbitrary order, character boundaries of UTF-8 text.
  \<^item> \<open>Provenance\<close>: \<^verbatim>\<open>core/src/provenance.rs\<close>: claims, their provenance, trust and freshness. It
    calls \<open>RepoState_capture\<close>.
  \<^item> \<open>Memory_Types\<close>, \<open>Memory_Lifecycle\<close>, \<open>Memory_Snapshots\<close>, \<open>Memory_Coordinator\<close>:
    \<^verbatim>\<open>memory-runtime/src/memory_runtime\<close>. Entries in three tiers with policies; the entry store with
    its tier index, bounded event log and locks; queries; snapshots and diagnostics; the
    coordinator, which guards the store with the policy, and the facade \<open>MemoryRuntime\<close> over it.
  \<^item> \<open>Eng_Memory\<close>, \<open>Eng_Memory_Store\<close>, \<open>Eng_Memory_Runtime\<close>:
    \<^verbatim>\<open>memory-runtime/src/engineering_memory\<close>. Durable entries with status, expiry and audit trail; the
    resolver under a token budget; the JSON file with quarantine of corrupt files
    (\<^verbatim>\<open>core/src/persistence.rs\<close>); and the runtime, which keeps the entries and mirrors each change
    in a \<open>MemoryRuntime\<close>.
  \<^item> \<open>Impact_Relationships\<close>: \<^verbatim>\<open>impact-engine/src/impact/relationships.rs\<close>. Turns the calls and imports of the
    parser into relationship and reference facts for a \<open>FactsBuilder\<close>.
  \<^item> \<open>Impact_Graph\<close>, \<open>Impact_Search\<close>, \<open>Impact_Risk\<close>, \<open>Impact_Analysis\<close>: \<^verbatim>\<open>impact/mod.rs\<close> and \<^verbatim>\<open>risk.rs\<close>.
    Adjacency lists of a collection and the bounded breadth-first search over them; the properties of
    that search; the risk signal; and \<open>analyze\<close>, which resolves a target and reports related facts,
    tests, modules, packages, evidence, freshness (\<open>RepoState_capture\<close>) and risk.
  \<^item> \<open>Impact_Health\<close>: \<^verbatim>\<open>impact/health.rs\<close>. Findings about the modules of a store: degrees, cycles, orphans,
    broken indexes (\<open>FactValidation_validate\<close>), large and untested modules.

  \<^bold>\<open>Conventions\<close>

  A struct is a record with the source's field names, prefixed where two records would clash or
  the name is reserved; an enum is a datatype; method \<open>f\<close> of type \<open>T\<close> is \<open>T_f\<close>. Stateful code takes and
  returns the file system. A fallible operation returns \<open>'a outcome\<close>: a value, an error of the
  crate, a panic, or no return at all (\<open>Diverges\<close>). Strings are UTF-8 bytes. Hashes are \<open>64 word\<close>
  with wrap-around; lengths of vectors in memory are \<open>nat\<close>. Lock guards of the memory store are
  flags: a panic while a guard is held sets the flag of its lock, and later operations take the
  branch of a poisoned lock.

  What lies outside the repository is an argument: the record \<open>Host\<close> (git, file metadata,
  canonicalisation, SHA-256), the JSON codec of snapshots (hypothesis \<open>json_codec\<close>: decoding an
  encoded model returns it), the iteration order of a hash map (hypothesis \<open>iteration_order\<close>: a
  permutation of the entries). In the memory theories \<open>now\<close> and \<open>uuid\<close> are the clock and the fresh
  id of a call, \<open>visit\<close> the iteration order, \<open>lower\<close> the Unicode case folding, \<open>rnd\<close> the rounding of
  floating point (hypothesis \<open>ieee_rounding\<close>: monotone, exact at 0 and 1; \<open>FloatOps\<close> adds \<open>powi\<close>), \<open>unordered\<close> the result
  of sorting by a comparison that is not a total order (the standard library leaves it open, and may
  panic), \<open>to_json\<close> and \<open>from_json\<close> the codec of the memory file, \<open>stamp\<close> the time stamp of a
  quarantined name and \<open>fault\<close> the outcome of its rename. The file system of \<open>Host_Fs\<close> has tables of faults, so a statement
  about it covers every choice of failing operations.

  \<^bold>\<open>What is shown\<close>

  \<^item> Fact store. Building sorts each category and loses nothing; with unique ids the model does
    not depend on the order of insertion. Lookup, membership and the four scope queries are
    exact against the set of added facts. Both validators decide declarative conditions
    (\<open>facts_well_formed\<close>; for stores, distinct id strings and resolving scopes), and their report
    does not depend on hash order. A snapshot restores to the same store, and the digest
    changes with any single byte.
  \<^item> Repository state. A captured state depends only on five git commands and the untracked
    files; the hash sees each part up to a permutation of its bytes. Lexical roots of absolute
    paths are clean and stable.
  \<^item> Impact engine. The search is breadth-first: without limits it reports exactly the nodes at
    distance one to the limit in the graph of declared relationships and references, each with its
    distance, and the reported paths are walks along them; with limits it stays within them and says
    so. Direct relationships and affected tests are exact. A risk signal is exactly what the rules
    give. The health report has a cycle finding exactly when the module graph has a cycle.
    Constructed edges connect known facts, each once; a call that names a type resolves exactly.
  \<^item> Change engine. A prepared edit replaces one piece of the file. Apply writes only over the
    snapshot and only inside the workspace; a successful apply verifies; rollback undoes it. The
    patch engine reproduces a target exactly when no unchanged line starts with a sign.
  \<^item> Transactions. Under \<open>restorable\<close> a transaction is all or nothing, and it returns.
  \<^item> Provenance. Trust is a score in [0, 1], monotone in freshness and reliability; freshness sees
    exactly the captured listings up to the order of their bytes.
  \<^item> Memory runtime. In every reachable state the tier index and the entries agree, and no lock is
    poisoned when the event log has room. Retention deletes exactly what is due; snapshots restore the tier,
    merge is a union of maps, an empty difference is equality; queries return the best matches.
  \<^item> Engineering memory. The mirror in the memory runtime is exact in every reachable state.
    Recording leaves one value per active key. A resolution stays within its budgets; excerpts are
    cut at characters. Saving is atomic, what is saved is loaded again, a corrupt file is moved to
    a free name without loss, and that search ends.
  \<^item> Limits of the code, each with a theorem: overlapping matches count once, two spellings of a
    path are two targets, a file whose own write stops half-way is not restored, an
    even number of leading parent segments of a relative root is dropped, \<open>primary_len\<close> leaves
    out three kinds, the two validators disagree on endpoints of the wrong kind, a NaN confidence
    escapes the clamps, the limit of entries per tier does not bind, the policies named after the
    lowest score evict the highest, resolution with a policy through the facade finds nothing, an
    event log without room poisons the store, small budgets give no excerpt, a long
    path cut off a character boundary panics in the risk signal, merged edges are labelled with a
    direction no fact declares, a cut of direct relationships is silent, an import path that ends in a
    dot links to the first module, a call recovered from macro text hides the parsed one.

  \<^bold>\<open>Interfaces\<close>

  Contracts that several components share are locales, interpreted on the model: \<open>named_enum\<close>
  (eleven enums), \<open>id_carrier\<close> (fourteen fact types), \<open>scope_query\<close> (four reverse indexes), \<open>undoable\<close> (apply
  and restore of the change engine, from which all-or-nothing follows), \<open>preserved_system\<close> (an
  invariant that every step keeps holds in every reachable state: the entry store, the facade and
  the engineering memory runtime), \<open>tiered_store\<close> (what a listing shows and what a
  deletion removes: the coordinator's sweeps rest on it).

  \<^bold>\<open>Termination\<close>

  One definition uses fuel: the depth-first search of \<open>Impact_Health\<close> recurses on the call stack of the
  source, and its fuel bounds the depth. One more than the number of graph nodes is enough, since the
  nodes on the stack are distinct; \<open>health_cycle_iff\<close> shows that the search always returns with it.
  The loop of the breadth-first search ends since every node is queued once. The search for a free quarantine name may not end when every numbered name
  is taken; it is a partial function with values in an option type, and \<open>quarantine_keeps_bytes\<close>
  shows that one free name makes it return. Loops over data recurse on it or on a measure: the halving search on the
  size of the window, the walk to an existing ancestor on the number of components. That walk has
  one input class on which the code never ends, and \<open>Diverges\<close> is its value there;
  \<open>resolution_returns\<close> and \<open>transaction_all_or_nothing\<close> show that this value does not occur for
  absolute paths.

  \<^bold>\<open>Not modelled\<close>

  Accessors that only return a field, \<open>Debug\<close> and serde derivations, logging, the temporary-file
  steps inside \<open>write_atomic\<close> (one step that fails or replaces the entry), file permissions, and
  concurrent writers between two operations of one call. The provider stub for tests and the
  diagnostics that the engineering memory forwards to the project identity are left out. The
  runtimes over SQLite (\<^verbatim>\<open>context-runtime\<close>), process execution (\<^verbatim>\<open>sandbox-runtime\<close>, the shell
  tools), tree-sitter parsing, the indexer's directory walk and the JSON-RPC server are outside.

  \<^bold>\<open>Plan\<close>

  Next come the task state machine of \<^verbatim>\<open>context-runtime\<close>, the cancellation token and capability matching of
  \<^verbatim>\<open>core\<close>, the evidence journal of \<^verbatim>\<open>sandbox-runtime\<close>, and response bounds, context packets, the intent
  guard and change invalidation of \<^verbatim>\<open>mcp-server\<close>.
\<close>

end
